(* ===== verification/Evm_Prelude.thy ===== *)
theory Evm_Prelude
  imports Main "HOL-Library.List_Lexorder" "HOL-Library.Char_ord"
begin

text \<open>
  Shared ground of the development: Go's fixed-width integers and \<open>time\<close> package, the
  outcome of a Go call (value, error or panic), and the ordered key/value store every keeper
  keeps its state in.  Bytes, addresses, denominations and identifiers are \<open>string\<close>s, that
  is lists of 8-bit characters, which is what a Go \<open>string\<close> or \<open>[]byte\<close> holds; they are
  compared byte by byte.
\<close>

type_synonym bytes = string
type_synonym addr = string
type_synonym denom = string

text \<open>The SDK's bech32 encoding of an account address, a parameter of the code that uses it.\<close>

record bech32_ops =
  AccAddressFromBech32 :: "string \<Rightarrow> addr option"
  acc_String :: "addr \<Rightarrow> string"

text \<open>An executable instance: every non-empty string is the address it spells.\<close>

definition std_bech32 :: bech32_ops where
  "std_bech32 = \<lparr>AccAddressFromBech32 = (\<lambda>s. if s = [] then None else Some s), acc_String = (\<lambda>a. a)\<rparr>"

named_theorems i64_simps \<open>rewriting 64-bit arithmetic that does not overflow\<close>
named_theorems outcome_defs \<open>unfolding the outcome combinators\<close>

section \<open>Fixed-width integers\<close>

text \<open>
  \<open>i64\<close> is the value an \<open>int64\<close> variable holds after an operation whose mathematical
  result is given: reduction modulo \<open>2 ^ 64\<close> into the signed range.  \<open>u64\<close> and \<open>u32\<close> are
  the unsigned versions.
\<close>

definition i64 :: "int \<Rightarrow> int" where
  "i64 x = (x + 2 ^ 63) mod 2 ^ 64 - 2 ^ 63"

definition in_i64 :: "int \<Rightarrow> bool" where
  "in_i64 x \<longleftrightarrow> - (2 ^ 63) \<le> x \<and> x < 2 ^ 63"

definition u64 :: "int \<Rightarrow> int" where
  "u64 x = x mod 2 ^ 64"

definition u32 :: "int \<Rightarrow> int" where
  "u32 x = x mod 2 ^ 32"

lemma i64_id [i64_simps]: "in_i64 x \<Longrightarrow> i64 x = x"
  by (simp add: i64_def in_i64_def)

lemma i64_range: "in_i64 (i64 x)"
proof -
  have "0 \<le> (x + 2 ^ 63) mod 2 ^ 64" and "(x + 2 ^ 63) mod 2 ^ 64 < 2 ^ 64"
    by simp_all
  then show ?thesis by (simp add: i64_def in_i64_def)
qed

lemma in_i64_between: "in_i64 a \<Longrightarrow> in_i64 b \<Longrightarrow> a \<le> x \<Longrightarrow> x \<le> b \<Longrightarrow> in_i64 x"
  by (simp add: in_i64_def)

lemma u64_id: "0 \<le> x \<Longrightarrow> x < 2 ^ 64 \<Longrightarrow> u64 x = x"
  by (simp add: u64_def)

lemma u64_range: "0 \<le> u64 x \<and> u64 x < 2 ^ 64"
  by (simp add: u64_def)

lemma u32_id: "0 \<le> x \<Longrightarrow> x < 2 ^ 32 \<Longrightarrow> u32 x = x"
  by (simp add: u32_def)

section \<open>Time\<close>

text \<open>
  A \<open>time.Time\<close> is the number of nanoseconds since the Unix epoch; a \<open>time.Duration\<close> is
  an \<open>int64\<close> number of nanoseconds.  \<open>Unix\<close> rounds down to seconds, \<open>time.Unix\<close> is its
  right inverse, \<open>Sub\<close> saturates at the ends of the duration range, and \<open>Before\<close> and
  \<open>After\<close> are the strict orders.  The zero value \<open>time.Time{}\<close> is the first instant of
  year 1.
\<close>

type_synonym time = int
type_synonym duration = int

definition Second :: int where
  "Second = 1000000000"

definition Unix :: "time \<Rightarrow> int" where
  "Unix t = t div Second"

definition time_Unix :: "int \<Rightarrow> time" where
  "time_Unix s = s * Second"

definition time_Sub :: "time \<Rightarrow> time \<Rightarrow> duration" where
  "time_Sub t u = max (- (2 ^ 63)) (min (2 ^ 63 - 1) (t - u))"

definition zero_time :: time where
  "zero_time = - 62135596800 * Second"

lemma Unix_time_Unix [simp]: "Unix (time_Unix s) = s"
  by (simp add: Unix_def time_Unix_def Second_def)

lemma Unix_mono: "t \<le> u \<Longrightarrow> Unix t \<le> Unix u"
  by (simp add: Unix_def Second_def zdiv_mono1)

section \<open>Outcomes of a call\<close>

text \<open>
  A Go call that can fail returns a value, returns an error, or panics.  Errors are the
  registered errors of the modules and of the SDK; the text an error is wrapped in is not
  kept.  \<open>ErrExt\<close> is an error that a dependency returned.
\<close>

datatype err =
    ErrUnauthorized | ErrInvalidRequest | ErrNotSupported | ErrNotFound | ErrUnknownRequest
  | ErrUnknownAddress | ErrInvalidAddress | ErrInvalidCoins | ErrInsufficientFunds | ErrLogic
  | ErrInvalidAction | ErrInsufficientVestedCoins | ErrVestingLockup | ErrKeyTypeNotSupported | ErrInvalidPubKey
  | ErrInvalidArgument | ErrERC20Disabled | ErrInternalTokenPair | ErrTokenPairNotFound
  | ErrTokenPairAlreadyExists | ErrUndefinedOwner | ErrBalanceInvariance | ErrUnexpectedEvent
  | ErrABIPack | ErrABIUnpack | ErrEVMDenom | ErrEVMCall | ErrERC20TokenPairDisabled
  | ErrVMExecution | ErrJSONMarshal | ErrSendDisabled | ErrInternalIncentive
  | ErrFeeSplitDisabled | ErrFeeSplitAlreadyRegistered | ErrFeeSplitNoContractDeployed
  | ErrFeeSplitContractNotRegistered | ErrFeeSplitDeployerIsNotEOA | ErrInvalidSigner
  | ErrBlockedAddress | ErrInvalidDenomForTransfer | ErrTraceNotFound | ErrChannelNotFound
  | ErrInvalidID | ErrInvalidChannelIdentifier
  | ErrPlain string | ErrExt string

datatype 'a outcome = Ok 'a | Err err | Panic

fun bindO :: "'a outcome \<Rightarrow> ('a \<Rightarrow> 'b outcome) \<Rightarrow> 'b outcome" where
  "bindO (Ok x) k = k x"
| "bindO (Err e) k = Err e"
| "bindO Panic k = Panic"

lemma bindO_Ok_iff: "bindO m k = Ok y \<longleftrightarrow> (\<exists>x. m = Ok x \<and> k x = Ok y)"
  by (cases m) auto

text \<open>An operation that panics where its result is not defined.\<close>

definition orPanic :: "'a option \<Rightarrow> 'a outcome" where
  [outcome_defs]: "orPanic x = (case x of None \<Rightarrow> Panic | Some y \<Rightarrow> Ok y)"

text \<open>
  A stateful call takes the state and gives back its outcome together with the state it
  leaves behind.  An error does not undo what was done before it: whether a caller discards
  the state after an error is the caller's decision.
\<close>

type_synonym ('s, 'a) cmd = "'s \<Rightarrow> 'a outcome \<times> 's"

definition bindS :: "('s, 'a) cmd \<Rightarrow> ('a \<Rightarrow> ('s, 'b) cmd) \<Rightarrow> ('s, 'b) cmd" where
  [outcome_defs]: "bindS m k s = (case m s of (Ok x, t) \<Rightarrow> k x t | (Err e, t) \<Rightarrow> (Err e, t) | (Panic, t) \<Rightarrow> (Panic, t))"

lemma bindS_Ok_iff: "bindS m k s = (Ok y, u) \<longleftrightarrow> (\<exists>x t. m s = (Ok x, t) \<and> k x t = (Ok y, u))"
  by (auto simp: bindS_def split: prod.splits outcome.splits)

section \<open>Strings\<close>

text \<open>
  \<open>strings.TrimSpace(s) == ""\<close>: the string consists of white space only.  Go reads the bytes as
  UTF-8, so beside the six ASCII characters the encodings of the other Unicode white space
  characters count.
\<close>

function (sequential) blank_bytes :: "nat list \<Rightarrow> bool" where
  "blank_bytes [] = True"
| "blank_bytes (b # bs) =
     (if 9 \<le> b \<and> b \<le> 13 \<or> b = 32 then blank_bytes bs
      else if take 2 (b # bs) \<in> {[194, 133], [194, 160]} then blank_bytes (drop 1 bs)
      else if take 3 (b # bs) \<in> {[225, 154, 128], [226, 128, 168], [226, 128, 169], [226, 128, 175],
                                 [226, 129, 159], [227, 128, 128]} then blank_bytes (drop 2 bs)
      else if take 2 (b # bs) = [226, 128] \<and> drop 1 bs \<noteq> [] \<and> 128 \<le> hd (drop 1 bs) \<and> hd (drop 1 bs) \<le> 138
           then blank_bytes (drop 2 bs)
      else False)"
  by pat_completeness auto

termination by (relation "measure length") auto

definition blank :: "string \<Rightarrow> bool" where
  "blank s = blank_bytes (map of_char s)"

section \<open>The ordered key/value store\<close>

text \<open>
  The part of a module's \<open>KVStore\<close> under one key prefix, decoded: the values in ascending
  byte order of their keys, which is the order an iterator visits them in.
\<close>

type_synonym 'v kv = "(bytes \<times> 'v) list"

definition kv_get :: "'v kv \<Rightarrow> bytes \<Rightarrow> 'v option" where
  "kv_get s k = map_of s k"

definition kv_has :: "'v kv \<Rightarrow> bytes \<Rightarrow> bool" where
  "kv_has s k \<longleftrightarrow> kv_get s k \<noteq> None"

fun kv_set :: "'v kv \<Rightarrow> bytes \<Rightarrow> 'v \<Rightarrow> 'v kv" where
  "kv_set [] k v = [(k, v)]"
| "kv_set ((k', v') # s) k v =
     (if k < k' then (k, v) # (k', v') # s
      else if k = k' then (k, v) # s
      else (k', v') # kv_set s k v)"

fun kv_del :: "'v kv \<Rightarrow> bytes \<Rightarrow> 'v kv" where
  "kv_del [] k = []"
| "kv_del ((k', v') # s) k = (if k = k' then kv_del s k else (k', v') # kv_del s k)"

definition kv_ok :: "'v kv \<Rightarrow> bool" where
  "kv_ok s \<longleftrightarrow> sorted_wrt (<) (map fst s)"

definition kv_keys :: "'v kv \<Rightarrow> bytes set" where
  "kv_keys s = fst ` set s"

lemma kv_set_keys [simp]: "fst ` set (kv_set s k v) = insert k (fst ` set s)"
  by (induction s k v rule: kv_set.induct) auto

lemma kv_del_keys [simp]: "fst ` set (kv_del s k) = fst ` set s - {k}"
  by (induction s k rule: kv_del.induct) auto

lemma kv_get_set: "kv_get (kv_set s k v) k' = (if k' = k then Some v else kv_get s k')"
  by (induction s k v rule: kv_set.induct) (auto simp: kv_get_def)

lemma kv_get_del: "kv_get (kv_del s k) k' = (if k' = k then None else kv_get s k')"
  by (induction s k rule: kv_del.induct) (auto simp: kv_get_def)

lemma kv_ok_Cons: "kv_ok ((k, v) # s) \<longleftrightarrow> (\<forall>k' \<in> fst ` set s. k < k') \<and> kv_ok s"
  by (auto simp: kv_ok_def)

lemma kv_ok_set: "kv_ok s \<Longrightarrow> kv_ok (kv_set s k v)"
proof (induction s k v rule: kv_set.induct)
  case (2 k' v' s k v)
  consider "k < k'" | "k = k'" | "k' < k" by (rule linorder_cases)
  then show ?case
  proof cases
    case 1
    then show ?thesis using 2 by (auto simp: kv_ok_Cons intro: order.strict_trans)
  next
    case 2
    then show ?thesis using "2.prems" by (simp add: kv_ok_Cons)
  next
    case 3
    then show ?thesis using 2 by (auto simp: kv_ok_Cons)
  qed
qed (simp add: kv_ok_def)

lemma kv_ok_del: "kv_ok s \<Longrightarrow> kv_ok (kv_del s k)"
  by (induction s k rule: kv_del.induct) (auto simp: kv_ok_Cons)

lemma kv_ok_Nil [simp]: "kv_ok []"
  by (simp add: kv_ok_def)

lemma kv_ok_distinct: "kv_ok s \<Longrightarrow> distinct (map fst s)"
  by (induction s) (auto simp: kv_ok_def)

lemma kv_get_mem: "kv_ok s \<Longrightarrow> kv_get s k = Some v \<longleftrightarrow> (k, v) \<in> set s"
  by (simp add: kv_get_def kv_ok_distinct)

lemma kv_get_None: "kv_get s k = None \<longleftrightarrow> k \<notin> fst ` set s"
  by (simp add: kv_get_def map_of_eq_None_iff)

text \<open>
  What the keepers rely on: a lookup after a write or a deletion, the key order kept by both,
  and that iteration lists exactly what lookups find.
\<close>

locale ordered_store =
  fixes get :: "'s \<Rightarrow> bytes \<Rightarrow> 'v option"
    and put :: "'s \<Rightarrow> bytes \<Rightarrow> 'v \<Rightarrow> 's"
    and del :: "'s \<Rightarrow> bytes \<Rightarrow> 's"
    and entries :: "'s \<Rightarrow> (bytes \<times> 'v) list"
    and ok :: "'s \<Rightarrow> bool"
  assumes get_put: "get (put s k v) k' = (if k' = k then Some v else get s k')"
    and get_del: "get (del s k) k' = (if k' = k then None else get s k')"
    and ok_put: "ok s \<Longrightarrow> ok (put s k v)"
    and ok_del: "ok s \<Longrightarrow> ok (del s k)"
    and get_entries: "ok s \<Longrightarrow> get s k = Some v \<longleftrightarrow> (k, v) \<in> set (entries s)"
    and entries_sorted: "ok s \<Longrightarrow> sorted_wrt (<) (map fst (entries s))"
begin

lemma get_put_same [simp]: "get (put s k v) k = Some v"
  by (simp add: get_put)

lemma get_put_other: "k' \<noteq> k \<Longrightarrow> get (put s k v) k' = get s k'"
  by (simp add: get_put)

lemma get_del_same [simp]: "get (del s k) k = None"
  by (simp add: get_del)

text \<open>Writing a list of entries: the last value written for a key is the one read back.\<close>

lemma get_foldl_put:
  "get (foldl (\<lambda>t (k, v). put t k v) s kvs) k =
     (case map_of (rev kvs) k of None \<Rightarrow> get s k | Some v \<Rightarrow> Some v)"
  by (induction kvs arbitrary: s)
    (auto simp: get_put map_add_def split: option.splits)

lemma get_foldl_del:
  "get (foldl del s ks) k = (if k \<in> set ks then None else get s k)"
  by (induction ks arbitrary: s) (auto simp: get_del)

lemma ok_foldl_put: "ok s \<Longrightarrow> ok (foldl (\<lambda>t (k, v). put t k v) s kvs)"
  by (induction kvs arbitrary: s) (auto simp: ok_put)

lemma ok_foldl_del: "ok s \<Longrightarrow> ok (foldl del s ks)"
  by (induction ks arbitrary: s) (auto simp: ok_del)

lemma entries_get: "ok s \<Longrightarrow> entries s = map (\<lambda>k. (k, the (get s k))) (map fst (entries s))"
proof -
  assume ok: "ok s"
  have "map (\<lambda>e. (fst e, the (get s (fst e)))) (entries s) = entries s"
  proof (rule map_idI)
    fix e assume "e \<in> set (entries s)"
    then have "get s (fst e) = Some (snd e)"
      using get_entries [OF ok, of "fst e" "snd e"] by simp
    then show "(fst e, the (get s (fst e))) = e" by simp
  qed
  then show ?thesis by (simp add: comp_def)
qed

text \<open>Two stores that answer every lookup alike list the same entries.\<close>

lemma entries_eqI:
  assumes "ok s" and "ok t" and "\<And>k. get s k = get t k"
  shows "entries s = entries t"
proof -
  have sub: "set (entries s) = set (entries t)"
    using assms by (auto simp flip: get_entries)
  have keys: "map fst (entries s) = map fst (entries t)"
  proof (rule sorted_distinct_set_unique)
    show "sorted (map fst (entries s))" "sorted (map fst (entries t))"
      using assms entries_sorted by (auto simp: strict_sorted_iff)
    show "distinct (map fst (entries s))" "distinct (map fst (entries t))"
      using assms entries_sorted by (auto simp: strict_sorted_iff)
    show "set (map fst (entries s)) = set (map fst (entries t))"
      using sub by simp
  qed
  have "entries s = map (\<lambda>k. (k, the (get s k))) (map fst (entries s))"
    using assms(1) by (rule entries_get)
  also have "\<dots> = map (\<lambda>k. (k, the (get t k))) (map fst (entries t))"
    using keys assms(3) by simp
  also have "\<dots> = entries t"
    using assms(2) by (rule entries_get [symmetric])
  finally show ?thesis .
qed

end

interpretation kv: ordered_store kv_get kv_set kv_del "\<lambda>s. s" kv_ok
proof
  show "kv_get (kv_set s k v) k' = (if k' = k then Some v else kv_get s k')" for s k v and k' :: bytes
    by (rule kv_get_set)
  show "kv_get (kv_del s k) k' = (if k' = k then None else kv_get s k')" for s k and k' :: bytes
    by (rule kv_get_del)
  show "kv_ok s \<Longrightarrow> kv_ok (kv_set s k v)" for s k v
    by (rule kv_ok_set)
  show "kv_ok s \<Longrightarrow> kv_ok (kv_del s k)" for s k
    by (rule kv_ok_del)
  show "kv_ok s \<Longrightarrow> (kv_get s k = Some v) = ((k, v) \<in> set s)" for s k v
    by (rule kv_get_mem)
  show "kv_ok s \<Longrightarrow> sorted_wrt (<) (map fst s)" for s
    by (simp add: kv_ok_def)
qed

text \<open>A quantity summed over a store changes by what a write adds and replaces.\<close>

definition kv_sum :: "('v \<Rightarrow> int) \<Rightarrow> 'v kv \<Rightarrow> int" where
  "kv_sum f s = sum_list (map (\<lambda>e. f (snd e)) s)"

abbreviation at_key :: "('v \<Rightarrow> int) \<Rightarrow> 'v option \<Rightarrow> int" where
  "at_key f v \<equiv> (case v of None \<Rightarrow> 0 | Some w \<Rightarrow> f w)"

lemma kv_sum_Nil [simp]: "kv_sum f [] = 0"
  by (simp add: kv_sum_def)

lemma kv_sum_Cons [simp]: "kv_sum f ((k, v) # s) = f v + kv_sum f s"
  by (simp add: kv_sum_def)

lemma kv_get_Cons: "kv_get ((k', v) # s) k = (if k = k' then Some v else kv_get s k)"
  by (simp add: kv_get_def)

lemma kv_get_below: "kv_ok ((k', v) # s) \<Longrightarrow> k < k' \<Longrightarrow> kv_get ((k', v) # s) k = None"
  by (auto simp: kv_get_None kv_ok_Cons)

lemma kv_sum_set:
  "kv_ok s \<Longrightarrow> kv_sum f (kv_set s k v) = kv_sum f s + f v - at_key f (kv_get s k)"
proof (induction s k v rule: kv_set.induct)
  case (2 k' v' s k v)
  have ok: "kv_ok s" using "2.prems" by (simp add: kv_ok_Cons)
  consider "k < k'" | "k = k'" | "k' < k" by (rule linorder_cases)
  then show ?case
  proof cases
    case 1
    then show ?thesis using kv_get_below [OF "2.prems" 1] by simp
  next
    case 2
    then show ?thesis by (simp add: kv_get_Cons)
  next
    case 3
    then show ?thesis using "2.IH" ok by (auto simp: kv_get_Cons)
  qed
qed (simp add: kv_get_def)

lemma kv_sum_del: "kv_ok s \<Longrightarrow> kv_sum f (kv_del s k) = kv_sum f s - at_key f (kv_get s k)"
proof (induction s k rule: kv_del.induct)
  case (2 k' v' s k)
  then have IH: "kv_sum f (kv_del s k) = kv_sum f s - at_key f (kv_get s k)" and out: "k = k' \<Longrightarrow> kv_get s k = None"
    by (auto simp: kv_ok_Cons kv_get_None)
  then show ?case by (cases "k = k'") (auto simp: kv_get_Cons)
qed (simp add: kv_get_def)

lemma kv_sum_nonneg: "(\<And>k v. (k, v) \<in> set s \<Longrightarrow> 0 \<le> f v) \<Longrightarrow> 0 \<le> kv_sum f s"
  unfolding kv_sum_def by (rule sum_list_nonneg) auto

lemma kv_sum_ge:
  assumes "kv_get s k = Some v" and "\<And>k v. (k, v) \<in> set s \<Longrightarrow> 0 \<le> f v"
  shows "f v \<le> kv_sum f s"
  using assms
proof (induction s)
  case (Cons e s)
  obtain k' v' where e: "e = (k', v')" by (cases e)
  have rest: "0 \<le> kv_sum f s" using Cons.prems(2) by (intro kv_sum_nonneg) auto
  have "kv_get s k = Some v \<Longrightarrow> f v \<le> kv_sum f s" using Cons by auto
  moreover have "0 \<le> f v'" using Cons.prems(2) [of k' v'] by (simp add: e)
  ultimately show ?case using Cons.prems(1) rest by (auto simp: e kv_get_Cons split: if_splits)
qed (simp add: kv_get_def)

lemmas kv_simps = kv_get_set kv_get_del kv_has_def

end
