(* ===== verification/Sdk_Coins.thy ===== *)
theory Sdk_Coins
  imports Evm_Prelude
begin

text \<open>
  The Cosmos SDK's \<open>sdk.Coins\<close> as the modules see it.  The data, a list of denominations
  with amounts, is modelled; the operations live in the SDK and are a parameter
  \<open>C :: coins_ops\<close> of every definition that calls one.  The locale \<open>coins_laws\<close> states
  their documented behaviour on valid coin sets through \<open>AmountOf\<close>: \<open>Add\<close> and \<open>Min\<close> work
  denomination by denomination, \<open>Sub\<close> panics exactly when an amount would become negative,
  and the comparisons compare every denomination, \<open>IsAnyGT\<close> only those its argument has.  \<open>coins_New\<close> is \<open>NewCoins\<close> on coins built with
  \<open>NewCoin\<close>: it drops zero amounts and panics on a negative one, on an invalid denomination or on a
  duplicate.  \<open>std_coins\<close> is an executable instance on
  the SDK's own representation (sorted by denomination, one positive entry for each).
\<close>

record coin =
  Denom :: denom
  Amt :: int

type_synonym coins = "coin list"

record coins_ops =
  coins_Add :: "coins \<Rightarrow> coins \<Rightarrow> coins"
  coins_Sub :: "coins \<Rightarrow> coins \<Rightarrow> coins option"
  coins_Min :: "coins \<Rightarrow> coins \<Rightarrow> coins"
  coins_IsZero :: "coins \<Rightarrow> bool"
  coins_IsAllLTE :: "coins \<Rightarrow> coins \<Rightarrow> bool"
  coins_IsAnyGT :: "coins \<Rightarrow> coins \<Rightarrow> bool"
  coins_AmountOf :: "coins \<Rightarrow> denom \<Rightarrow> int"
  coins_IsValid :: "coins \<Rightarrow> bool"
  coins_New :: "coin list \<Rightarrow> coins option"
  coins_ValidDenom :: "denom \<Rightarrow> bool"

abbreviation "oneCoin d n \<equiv> \<lparr>Denom = d, Amt = n\<rparr>"

locale coins_laws =
  fixes C :: coins_ops
  assumes valid_empty: "coins_IsValid C []"
    and amount_empty: "coins_AmountOf C [] d = 0"
    and amount_one: "coins_AmountOf C [oneCoin d n] d' = (if d' = d then n else 0)"
    and valid_one: "coins_ValidDenom C d \<Longrightarrow> 0 < n \<Longrightarrow> coins_IsValid C [oneCoin d n]"
    and IsZero_one: "coins_IsZero C [oneCoin d n] \<longleftrightarrow> n = 0"
    and amount_nonneg: "coins_IsValid C a \<Longrightarrow> 0 \<le> coins_AmountOf C a d"
    and valid_no_amount: "coins_IsValid C a \<Longrightarrow> (\<And>d. coins_AmountOf C a d = 0) \<Longrightarrow> a = []"
    and amount_mem: "coins_IsValid C a \<Longrightarrow> k \<in> set a \<Longrightarrow> coins_AmountOf C a (Denom k) = Amt k"
    and amount_none: "coins_IsValid C a \<Longrightarrow> d \<notin> Denom ` set a \<Longrightarrow> coins_AmountOf C a d = 0"
    and valid_distinct: "coins_IsValid C a \<Longrightarrow> distinct (map Denom a)"
    and Add_valid: "coins_IsValid C a \<Longrightarrow> coins_IsValid C b \<Longrightarrow> coins_IsValid C (coins_Add C a b)"
    and Add_amount: "coins_IsValid C a \<Longrightarrow> coins_IsValid C b \<Longrightarrow>
      coins_AmountOf C (coins_Add C a b) d = coins_AmountOf C a d + coins_AmountOf C b d"
    and Min_valid: "coins_IsValid C a \<Longrightarrow> coins_IsValid C b \<Longrightarrow> coins_IsValid C (coins_Min C a b)"
    and Min_amount: "coins_IsValid C a \<Longrightarrow> coins_IsValid C b \<Longrightarrow>
      coins_AmountOf C (coins_Min C a b) d = min (coins_AmountOf C a d) (coins_AmountOf C b d)"
    and Sub_Some: "coins_IsValid C a \<Longrightarrow> coins_IsValid C b \<Longrightarrow> coins_Sub C a b = Some c \<Longrightarrow>
      coins_IsValid C c \<and> (\<forall>d. coins_AmountOf C c d = coins_AmountOf C a d - coins_AmountOf C b d)"
    and Sub_None_iff: "coins_IsValid C a \<Longrightarrow> coins_IsValid C b \<Longrightarrow>
      coins_Sub C a b = None \<longleftrightarrow> (\<exists>d. coins_AmountOf C a d < coins_AmountOf C b d)"
    and IsZero_iff: "coins_IsValid C a \<Longrightarrow> coins_IsZero C a \<longleftrightarrow> (\<forall>d. coins_AmountOf C a d = 0)"
    and IsAllLTE_iff: "coins_IsValid C a \<Longrightarrow> coins_IsValid C b \<Longrightarrow>
      coins_IsAllLTE C a b \<longleftrightarrow> (\<forall>d. coins_AmountOf C a d \<le> coins_AmountOf C b d)"
    and IsAnyGT_iff: "coins_IsValid C a \<Longrightarrow> coins_IsValid C b \<Longrightarrow>
      coins_IsAnyGT C a b \<longleftrightarrow> (\<exists>d. coins_AmountOf C b d < coins_AmountOf C a d \<and> coins_AmountOf C b d \<noteq> 0)"
    and Add_one_valid: "coins_IsValid C a \<Longrightarrow> coins_ValidDenom C d \<Longrightarrow> 0 \<le> n \<Longrightarrow> coins_IsValid C (coins_Add C a [oneCoin d n])"
    and Add_one_amount: "coins_IsValid C a \<Longrightarrow> coins_ValidDenom C d \<Longrightarrow> 0 \<le> n \<Longrightarrow>
      coins_AmountOf C (coins_Add C a [oneCoin d n]) d' = coins_AmountOf C a d' + (if d' = d then n else 0)"
    and New_Some: "coins_New C cs = Some c \<Longrightarrow> coins_IsValid C c \<and>
      (\<forall>d. coins_AmountOf C c d = sum_list (map Amt (filter (\<lambda>k. Denom k = d) cs)))"
    and New_ok: "(\<And>k. k \<in> set cs \<Longrightarrow> coins_ValidDenom C (Denom k) \<and> 0 \<le> Amt k) \<Longrightarrow>
      distinct (map Denom cs) \<Longrightarrow> coins_New C cs \<noteq> None"
begin

abbreviation "amt \<equiv> coins_AmountOf C"
abbreviation "valid \<equiv> coins_IsValid C"

lemma IsZero_Nil: "valid a \<Longrightarrow> coins_IsZero C a \<longleftrightarrow> a = []"
  using IsZero_iff valid_no_amount amount_empty by blast

lemma Sub_ok:
  assumes "valid a" and "valid b" and "\<And>d. amt b d \<le> amt a d"
  shows "\<exists>c. coins_Sub C a b = Some c \<and> valid c \<and> (\<forall>d. amt c d = amt a d - amt b d)"
proof -
  have "coins_Sub C a b \<noteq> None"
    using assms by (simp add: Sub_None_iff not_less)
  then obtain c where "coins_Sub C a b = Some c" by blast
  with assms show ?thesis using Sub_Some [of a b c] by blast
qed

lemma New_one:
  assumes "coins_ValidDenom C d" and "0 \<le> n"
  shows "\<exists>c. coins_New C [oneCoin d n] = Some c \<and> valid c \<and> (\<forall>d'. amt c d' = (if d' = d then n else 0))"
proof -
  obtain c where c: "coins_New C [oneCoin d n] = Some c" using New_ok [of "[oneCoin d n]"] assms by auto
  from New_Some [OF c] show ?thesis by (auto simp: c)
qed

lemma Sub_self: "valid a \<Longrightarrow> coins_Sub C a a = Some []"
  using Sub_ok [of a a] valid_no_amount by force

lemma IsAllLTE_antisym:
  "valid a \<Longrightarrow> valid b \<Longrightarrow> coins_IsAllLTE C a b \<and> coins_IsAllLTE C b a \<longleftrightarrow> (\<forall>d. amt a d = amt b d)"
  by (metis IsAllLTE_iff order_antisym order_refl)

end

text \<open>\<open>sdk.NewCoin\<close> panics on an invalid denomination and on a negative amount.\<close>

definition NewCoin :: "coins_ops \<Rightarrow> denom \<Rightarrow> int \<Rightarrow> coin option" where
  "NewCoin C d n = (if coins_ValidDenom C d \<and> 0 \<le> n then Some (oneCoin d n) else None)"

section \<open>An executable instance\<close>

definition std_AmountOf :: "coins \<Rightarrow> denom \<Rightarrow> int" where
  "std_AmountOf cs d = sum_list (map Amt (filter (\<lambda>c. Denom c = d) cs))"

definition std_denoms :: "coins \<Rightarrow> coins \<Rightarrow> denom list" where
  "std_denoms a b = sort (remdups (map Denom a @ map Denom b))"

definition std_build :: "denom list \<Rightarrow> (denom \<Rightarrow> int) \<Rightarrow> coins" where
  "std_build ds f = map (\<lambda>d. oneCoin d (f d)) (filter (\<lambda>d. f d \<noteq> 0) ds)"

definition std_IsValid :: "coins \<Rightarrow> bool" where
  "std_IsValid cs \<longleftrightarrow> sorted_wrt (<) (map Denom cs) \<and> (\<forall>c \<in> set cs. 0 < Amt c)"

definition std_Add :: "coins \<Rightarrow> coins \<Rightarrow> coins" where
  "std_Add a b = std_build (std_denoms a b) (\<lambda>d. std_AmountOf a d + std_AmountOf b d)"

definition std_Min :: "coins \<Rightarrow> coins \<Rightarrow> coins" where
  "std_Min a b = std_build (std_denoms a b) (\<lambda>d. min (std_AmountOf a d) (std_AmountOf b d))"

definition std_Sub :: "coins \<Rightarrow> coins \<Rightarrow> coins option" where
  "std_Sub a b =
     (if \<exists>d \<in> set (std_denoms a b). std_AmountOf a d < std_AmountOf b d then None
      else Some (std_build (std_denoms a b) (\<lambda>d. std_AmountOf a d - std_AmountOf b d)))"

definition std_IsZero :: "coins \<Rightarrow> bool" where
  "std_IsZero cs \<longleftrightarrow> (\<forall>c \<in> set cs. Amt c = 0)"

definition std_IsAllLTE :: "coins \<Rightarrow> coins \<Rightarrow> bool" where
  "std_IsAllLTE a b \<longleftrightarrow> (\<forall>d \<in> set (std_denoms a b). std_AmountOf a d \<le> std_AmountOf b d)"

definition std_IsAnyGT :: "coins \<Rightarrow> coins \<Rightarrow> bool" where
  "std_IsAnyGT a b \<longleftrightarrow> (\<exists>d \<in> set (std_denoms a b). std_AmountOf b d < std_AmountOf a d \<and> std_AmountOf b d \<noteq> 0)"

definition std_New :: "coin list \<Rightarrow> coins option" where
  "std_New cs = (if list_all (\<lambda>k. Denom k \<noteq> [] \<and> 0 \<le> Amt k) cs \<and> distinct (map Denom cs)
                 then Some (std_build (std_denoms cs []) (std_AmountOf cs)) else None)"

definition std_coins :: coins_ops where
  "std_coins = \<lparr>coins_Add = std_Add, coins_Sub = std_Sub, coins_Min = std_Min,
     coins_IsZero = std_IsZero, coins_IsAllLTE = std_IsAllLTE, coins_IsAnyGT = std_IsAnyGT,
     coins_AmountOf = std_AmountOf, coins_IsValid = std_IsValid,
     coins_New = std_New, coins_ValidDenom = (\<lambda>d. d \<noteq> [])\<rparr>"

lemmas std_defs = std_coins_def std_Add_def std_Sub_def std_Min_def std_IsZero_def
  std_IsAllLTE_def std_AmountOf_def std_IsValid_def std_build_def std_denoms_def std_New_def

lemma std_AmountOf_Nil: "std_AmountOf [] d = 0"
  by (simp add: std_AmountOf_def)

lemma std_AmountOf_Cons: "std_AmountOf (c # cs) d = (if Denom c = d then Amt c else 0) + std_AmountOf cs d"
  by (simp add: std_AmountOf_def)

lemma std_AmountOf_out: "d \<notin> Denom ` set cs \<Longrightarrow> std_AmountOf cs d = 0"
  by (induction cs) (auto simp: std_AmountOf_Nil std_AmountOf_Cons)

lemma std_AmountOf_in:
  "std_IsValid cs \<Longrightarrow> c \<in> set cs \<Longrightarrow> std_AmountOf cs (Denom c) = Amt c"
proof (induction cs)
  case (Cons x cs)
  then have "Denom x \<notin> Denom ` set cs"
    by (auto simp: std_IsValid_def)
  with Cons show ?case
    by (auto simp: std_AmountOf_Cons std_AmountOf_out std_IsValid_def)
qed simp

lemma std_AmountOf_build:
  "distinct ds \<Longrightarrow> std_AmountOf (std_build ds f) d = (if d \<in> set ds then f d else 0)"
  by (induction ds) (auto simp: std_build_def std_AmountOf_Nil std_AmountOf_Cons)

lemma std_denoms_simps [simp]:
  "distinct (std_denoms a b)" "sorted (std_denoms a b)"
  "set (std_denoms a b) = Denom ` set a \<union> Denom ` set b"
  by (auto simp: std_denoms_def)

lemma std_build_valid:
  assumes "distinct ds" and "sorted ds" and "\<And>d. d \<in> set ds \<Longrightarrow> 0 \<le> f d"
  shows "std_IsValid (std_build ds f)"
proof -
  have "map Denom (std_build ds f) = filter (\<lambda>d. f d \<noteq> 0) ds"
    by (simp add: std_build_def comp_def)
  moreover have "sorted_wrt (<) (filter (\<lambda>d. f d \<noteq> 0) ds)"
    using assms(1,2) by (simp add: sorted_wrt_filter strict_sorted_iff)
  ultimately show ?thesis
    using assms(3) by (force simp: std_IsValid_def std_build_def)
qed

lemma std_AmountOf_nonneg: "std_IsValid a \<Longrightarrow> 0 \<le> std_AmountOf a d"
  by (auto simp: std_AmountOf_def std_IsValid_def less_imp_le intro!: sum_list_nonneg)

lemma std_pointwise:
  assumes "\<And>d. d \<notin> Denom ` set a \<union> Denom ` set b \<Longrightarrow> f d = 0"
  shows "std_AmountOf (std_build (std_denoms a b) f) d = f d"
  using assms by (auto simp: std_AmountOf_build)

lemma std_Add_amount: "std_AmountOf (std_Add a b) d = std_AmountOf a d + std_AmountOf b d"
  unfolding std_Add_def by (rule std_pointwise) (simp add: std_AmountOf_out)

lemma std_le_all:
  "(\<forall>d \<in> set (std_denoms a b). std_AmountOf a d \<le> std_AmountOf b d) \<longleftrightarrow>
   (\<forall>d. std_AmountOf a d \<le> std_AmountOf b d)"
proof
  assume h: "\<forall>d \<in> set (std_denoms a b). std_AmountOf a d \<le> std_AmountOf b d"
  show "\<forall>d. std_AmountOf a d \<le> std_AmountOf b d"
  proof
    fix d
    show "std_AmountOf a d \<le> std_AmountOf b d"
      using h by (cases "d \<in> set (std_denoms a b)") (auto simp: std_AmountOf_out)
  qed
qed simp

lemma std_denoms_commute: "set (std_denoms a b) = set (std_denoms b a)"
  by auto

lemma std_Sub_None: "std_Sub a b = None \<longleftrightarrow> (\<exists>d. std_AmountOf a d < std_AmountOf b d)"
proof -
  have "(\<exists>d \<in> set (std_denoms a b). std_AmountOf a d < std_AmountOf b d) \<longleftrightarrow>
        \<not> (\<forall>d \<in> set (std_denoms b a). std_AmountOf b d \<le> std_AmountOf a d)"
    by (auto simp: not_le)
  then have "(\<exists>d \<in> set (std_denoms a b). std_AmountOf a d < std_AmountOf b d) \<longleftrightarrow>
        (\<exists>d. std_AmountOf a d < std_AmountOf b d)"
    unfolding std_le_all by (simp add: not_le)
  then show ?thesis unfolding std_Sub_def by (cases "\<exists>d. std_AmountOf a d < std_AmountOf b d") auto
qed

lemma std_Sub_Some:
  assumes "std_Sub a b = Some c"
  shows "std_IsValid c \<and> (\<forall>d. std_AmountOf c d = std_AmountOf a d - std_AmountOf b d)"
proof -
  have ge: "\<And>d. std_AmountOf b d \<le> std_AmountOf a d"
    using assms std_Sub_None [of a b] by (metis not_le option.distinct(1))
  have c: "c = std_build (std_denoms a b) (\<lambda>d. std_AmountOf a d - std_AmountOf b d)"
    using assms by (simp add: std_Sub_def split: if_splits)
  show ?thesis
    unfolding c
  proof (intro conjI allI)
    show "std_IsValid (std_build (std_denoms a b) (\<lambda>d. std_AmountOf a d - std_AmountOf b d))"
      using ge by (simp add: std_build_valid)
    show "std_AmountOf (std_build (std_denoms a b) (\<lambda>d. std_AmountOf a d - std_AmountOf b d)) d =
        std_AmountOf a d - std_AmountOf b d" for d
      by (rule std_pointwise) (simp add: std_AmountOf_out)
  qed
qed

lemma std_IsZero_amount:
  assumes "std_IsValid a"
  shows "std_IsZero a \<longleftrightarrow> (\<forall>d. std_AmountOf a d = 0)"
proof
  assume "std_IsZero a"
  then show "\<forall>d. std_AmountOf a d = 0"
    by (induction a) (auto simp: std_IsZero_def std_AmountOf_def)
next
  assume "\<forall>d. std_AmountOf a d = 0"
  then show "std_IsZero a"
    using std_AmountOf_in [OF assms] by (simp add: std_IsZero_def)
qed

lemma std_New_Some:
  assumes "std_New cs = Some c"
  shows "std_IsValid c \<and> (\<forall>d. std_AmountOf c d = std_AmountOf cs d)"
proof -
  have c: "c = std_build (std_denoms cs []) (std_AmountOf cs)" and "\<forall>k \<in> set cs. 0 \<le> Amt k"
    using assms by (auto simp: std_New_def list_all_iff split: if_splits)
  then have "\<And>d. 0 \<le> std_AmountOf cs d"
    by (auto simp: std_AmountOf_def intro!: sum_list_nonneg)
  then show ?thesis
    unfolding c using std_pointwise [of cs "[]" "std_AmountOf cs"]
    by (simp add: std_build_valid std_AmountOf_out)
qed

interpretation std: coins_laws std_coins
proof
  show "coins_IsValid std_coins []" by (simp add: std_coins_def std_IsValid_def)
  show "coins_AmountOf std_coins [] d = 0" for d
    by (simp add: std_coins_def std_AmountOf_Nil)
  show "coins_AmountOf std_coins [oneCoin d n] d' = (if d' = d then n else 0)" for d n d'
    by (simp add: std_coins_def std_AmountOf_Nil std_AmountOf_Cons)
  show "coins_ValidDenom std_coins d \<Longrightarrow> 0 < n \<Longrightarrow> coins_IsValid std_coins [oneCoin d n]" for d n
    by (simp add: std_coins_def std_IsValid_def)
  show "coins_IsZero std_coins [oneCoin d n] \<longleftrightarrow> n = 0" for d n
    by (simp add: std_coins_def std_IsZero_def)
  show "coins_IsValid std_coins a \<Longrightarrow> 0 \<le> coins_AmountOf std_coins a d" for a d
    by (simp add: std_coins_def std_AmountOf_nonneg)
  show "coins_IsValid std_coins a \<Longrightarrow> (\<And>d. coins_AmountOf std_coins a d = 0) \<Longrightarrow> a = []" for a
  proof (rule ccontr)
    assume v: "coins_IsValid std_coins a" and z: "\<And>d. coins_AmountOf std_coins a d = 0" and "a \<noteq> []"
    then obtain c where "c \<in> set a" by (cases a) auto
    with v have "std_AmountOf a (Denom c) = Amt c" "0 < Amt c"
      by (auto simp: std_coins_def std_AmountOf_in std_IsValid_def)
    with z [of "Denom c"] show False by (simp add: std_coins_def)
  qed
  show "coins_IsValid std_coins a \<Longrightarrow> k \<in> set a \<Longrightarrow> coins_AmountOf std_coins a (Denom k) = Amt k" for a k
    by (simp add: std_coins_def std_AmountOf_in)
  show "coins_IsValid std_coins a \<Longrightarrow> d \<notin> Denom ` set a \<Longrightarrow> coins_AmountOf std_coins a d = 0" for a d
    by (simp add: std_coins_def std_AmountOf_out)
  show "coins_IsValid std_coins a \<Longrightarrow> distinct (map Denom a)" for a
    by (simp add: std_coins_def std_IsValid_def strict_sorted_iff)
  show "coins_IsValid std_coins a \<Longrightarrow> coins_IsValid std_coins b \<Longrightarrow>
      coins_IsValid std_coins (coins_Add std_coins a b)" for a b
    by (simp add: std_coins_def std_Add_def std_build_valid std_AmountOf_nonneg)
  show "coins_IsValid std_coins a \<Longrightarrow> coins_IsValid std_coins b \<Longrightarrow>
      coins_AmountOf std_coins (coins_Add std_coins a b) d =
      coins_AmountOf std_coins a d + coins_AmountOf std_coins b d" for a b d
    using std_pointwise [of a b "\<lambda>d. std_AmountOf a d + std_AmountOf b d" d]
    by (simp add: std_coins_def std_Add_def std_AmountOf_out)
  show "coins_IsValid std_coins a \<Longrightarrow> coins_IsValid std_coins b \<Longrightarrow>
      coins_IsValid std_coins (coins_Min std_coins a b)" for a b
    by (simp add: std_coins_def std_Min_def std_build_valid std_AmountOf_nonneg)
  show "coins_IsValid std_coins a \<Longrightarrow> coins_IsValid std_coins b \<Longrightarrow>
      coins_AmountOf std_coins (coins_Min std_coins a b) d =
      min (coins_AmountOf std_coins a d) (coins_AmountOf std_coins b d)" for a b d
    using std_pointwise [of a b "\<lambda>d. min (std_AmountOf a d) (std_AmountOf b d)" d]
    by (simp add: std_coins_def std_Min_def std_AmountOf_out)
  show "coins_IsValid std_coins a \<Longrightarrow> coins_IsValid std_coins b \<Longrightarrow>
      coins_Sub std_coins a b = Some c \<Longrightarrow>
      coins_IsValid std_coins c \<and>
      (\<forall>d. coins_AmountOf std_coins c d = coins_AmountOf std_coins a d - coins_AmountOf std_coins b d)" for a b c
    using std_Sub_Some [of a b c] by (simp add: std_coins_def)
  show "coins_IsValid std_coins a \<Longrightarrow> coins_IsValid std_coins b \<Longrightarrow>
      (coins_Sub std_coins a b = None) = (\<exists>d. coins_AmountOf std_coins a d < coins_AmountOf std_coins b d)" for a b
    by (simp add: std_coins_def std_Sub_None)
  show "coins_IsValid std_coins a \<Longrightarrow>
      coins_IsZero std_coins a = (\<forall>d. coins_AmountOf std_coins a d = 0)" for a
    using std_IsZero_amount [of a] by (simp add: std_coins_def)
  show "coins_IsValid std_coins a \<Longrightarrow> coins_IsValid std_coins b \<Longrightarrow>
      coins_IsAllLTE std_coins a b = (\<forall>d. coins_AmountOf std_coins a d \<le> coins_AmountOf std_coins b d)" for a b
    using std_le_all [of a b] by (simp add: std_coins_def std_IsAllLTE_def)
  show "coins_IsValid std_coins a \<Longrightarrow> coins_IsValid std_coins b \<Longrightarrow>
      coins_IsAnyGT std_coins a b =
      (\<exists>d. coins_AmountOf std_coins b d < coins_AmountOf std_coins a d \<and> coins_AmountOf std_coins b d \<noteq> 0)" for a b
    using std_AmountOf_out [of _ b] by (auto simp: std_coins_def std_IsAnyGT_def)
  show "coins_IsValid std_coins a \<Longrightarrow> 0 \<le> n \<Longrightarrow> coins_IsValid std_coins (coins_Add std_coins a [oneCoin d n])" for a d n
    by (simp add: std_coins_def std_Add_def std_build_valid std_AmountOf_nonneg std_AmountOf_Nil std_AmountOf_Cons)
  show "coins_IsValid std_coins a \<Longrightarrow> 0 \<le> n \<Longrightarrow>
      coins_AmountOf std_coins (coins_Add std_coins a [oneCoin d n]) d' =
      coins_AmountOf std_coins a d' + (if d' = d then n else 0)" for a d n d'
    by (simp add: std_coins_def std_Add_amount std_AmountOf_Nil std_AmountOf_Cons)
  show "coins_New std_coins cs = Some c \<Longrightarrow> coins_IsValid std_coins c \<and>
      (\<forall>d. coins_AmountOf std_coins c d = sum_list (map Amt (filter (\<lambda>k. Denom k = d) cs)))" for cs c
    using std_New_Some [of cs c] by (simp add: std_coins_def std_AmountOf_def)
  show "(\<And>k. k \<in> set cs \<Longrightarrow> coins_ValidDenom std_coins (Denom k) \<and> 0 \<le> Amt k) \<Longrightarrow>
      distinct (map Denom cs) \<Longrightarrow> coins_New std_coins cs \<noteq> None" for cs
    by (simp add: std_coins_def std_New_def list_all_iff)
qed

end
