(* ===== verification/Vesting_Schedule.thy ===== *)
theory Vesting_Schedule
  imports Sdk_Coins
begin

text \<open>
  \<open>x/vesting/types/schedule.go\<close> and \<open>utils.go\<close>: reading a schedule of coins over time,
  counting its passed periods, merging two schedules (the sum, \<open>DisjunctPeriods\<close>, and the
  minimum, \<open>ConjunctPeriods\<close>) and aligning two schedules to one start time.  A schedule is a
  start time and a list of periods, each a length relative to the previous event and the
  coins released there.  The reference meaning of a schedule is \<open>sched_at\<close>: the amount of a
  denomination released up to a time.  Times are \<open>int64\<close> seconds, so every sum is reduced
  by \<open>i64\<close>; \<open>sched_ok\<close> says when no sum of a schedule leaves the range.
\<close>

section \<open>The source's functions\<close>

record period =
  Length :: int
  Amount :: coins

definition Max64 :: "int \<Rightarrow> int \<Rightarrow> int" where
  "Max64 i j = (if i > j then i else j)"

definition Min64 :: "int \<Rightarrow> int \<Rightarrow> int" where
  "Min64 i j = (if i < j then i else j)"

definition coinEq :: "coins_ops \<Rightarrow> coins \<Rightarrow> coins \<Rightarrow> bool" where
  "coinEq C a b \<longleftrightarrow> coins_IsAllLTE C a b \<and> coins_IsAllLTE C b a"

fun ReadSchedule_loop :: "coins_ops \<Rightarrow> int \<Rightarrow> int \<Rightarrow> coins \<Rightarrow> period list \<Rightarrow> coins" where
  "ReadSchedule_loop C readTime elapsedTime coins [] = coins"
| "ReadSchedule_loop C readTime elapsedTime coins (period # periods) =
     (if readTime < i64 (elapsedTime + Length period) then coins
      else ReadSchedule_loop C readTime (i64 (elapsedTime + Length period))
             (coins_Add C coins (Amount period)) periods)"

definition ReadSchedule :: "coins_ops \<Rightarrow> int \<Rightarrow> int \<Rightarrow> period list \<Rightarrow> coins \<Rightarrow> int \<Rightarrow> coins" where
  "ReadSchedule C startTime endTime periods totalCoins readTime =
     (if readTime \<le> startTime then []
      else if readTime \<ge> endTime then totalCoins
      else ReadSchedule_loop C readTime startTime [] periods)"

fun ReadPastPeriodCount_loop :: "int \<Rightarrow> int \<Rightarrow> nat \<Rightarrow> period list \<Rightarrow> nat" where
  "ReadPastPeriodCount_loop readTime elapsedTime passedPeriods [] = passedPeriods"
| "ReadPastPeriodCount_loop readTime elapsedTime passedPeriods (period # periods) =
     (if readTime < i64 (elapsedTime + Length period) then passedPeriods
      else ReadPastPeriodCount_loop readTime (i64 (elapsedTime + Length period))
             (Suc passedPeriods) periods)"

definition ReadPastPeriodCount :: "int \<Rightarrow> int \<Rightarrow> period list \<Rightarrow> int \<Rightarrow> nat" where
  "ReadPastPeriodCount startTime endTime periods readTime =
     (if readTime \<le> startTime then 0
      else if readTime \<ge> endTime then length periods
      else ReadPastPeriodCount_loop readTime startTime 0 periods)"

text \<open>
  The local variables of \<open>DisjunctPeriods\<close>; the indexes into the two period slices are
  represented by what is left of each slice.
\<close>

record disjunct =
  dj_timeA :: int
  dj_timeB :: int
  dj_end :: int
  dj_periods :: "period list"

definition dj_emit :: "int \<Rightarrow> coins \<Rightarrow> disjunct \<Rightarrow> disjunct" where
  "dj_emit nextTime amount st =
     st\<lparr>dj_periods := dj_periods st @ [\<lparr>Length = i64 (nextTime - dj_end st), Amount = amount\<rparr>],
        dj_end := nextTime\<rparr>"

definition dj_consumeA :: "int \<Rightarrow> period \<Rightarrow> disjunct \<Rightarrow> disjunct" where
  "dj_consumeA nextPeriodA a st = (dj_emit nextPeriodA (Amount a) st)\<lparr>dj_timeA := nextPeriodA\<rparr>"

definition dj_consumeB :: "int \<Rightarrow> period \<Rightarrow> disjunct \<Rightarrow> disjunct" where
  "dj_consumeB nextPeriodB b st = (dj_emit nextPeriodB (Amount b) st)\<lparr>dj_timeB := nextPeriodB\<rparr>"

definition dj_consumeBoth :: "coins_ops \<Rightarrow> int \<Rightarrow> period \<Rightarrow> period \<Rightarrow> disjunct \<Rightarrow> disjunct" where
  "dj_consumeBoth C nextTime a b st =
     (dj_emit nextTime (coins_Add C (Amount a) (Amount b)) st)
       \<lparr>dj_timeA := nextTime, dj_timeB := nextTime\<rparr>"

fun dj_restA :: "period list \<Rightarrow> disjunct \<Rightarrow> disjunct" where
  "dj_restA [] st = st"
| "dj_restA (a # as) st = dj_restA as (dj_consumeA (i64 (dj_timeA st + Length a)) a st)"

fun dj_restB :: "period list \<Rightarrow> disjunct \<Rightarrow> disjunct" where
  "dj_restB [] st = st"
| "dj_restB (b # bs) st = dj_restB bs (dj_consumeB (i64 (dj_timeB st + Length b)) b st)"

fun dj_loop :: "coins_ops \<Rightarrow> period list \<Rightarrow> period list \<Rightarrow> disjunct \<Rightarrow> disjunct" where
  "dj_loop C (a # as) (b # bs) st =
     (let nextPeriodA = i64 (dj_timeA st + Length a);
          nextPeriodB = i64 (dj_timeB st + Length b)
      in if nextPeriodA < nextPeriodB then dj_loop C as (b # bs) (dj_consumeA nextPeriodA a st)
         else if nextPeriodA > nextPeriodB then dj_loop C (a # as) bs (dj_consumeB nextPeriodB b st)
         else dj_loop C as bs (dj_consumeBoth C nextPeriodA a b st))"
| "dj_loop C as bs st = dj_restB bs (dj_restA as st)"

definition DisjunctPeriods ::
  "coins_ops \<Rightarrow> int \<Rightarrow> int \<Rightarrow> period list \<Rightarrow> period list \<Rightarrow> int \<times> int \<times> period list" where
  "DisjunctPeriods C startTimePeriodsA startTimePeriodsB periodsA periodsB =
     (let startTime = Min64 startTimePeriodsA startTimePeriodsB;
          st = dj_loop C periodsA periodsB
                 \<lparr>dj_timeA = startTimePeriodsA, dj_timeB = startTimePeriodsB,
                  dj_end = startTime, dj_periods = []\<rparr>
      in (startTime, dj_end st, dj_periods st))"

text \<open>
  The local variables of \<open>ConjunctPeriods\<close>.  The subtraction of coins can panic, so a step
  gives \<open>None\<close> where it does.
\<close>

record conjunct =
  cj_timeA :: int
  cj_timeB :: int
  cj_time :: int
  cj_periods :: "period list"
  cj_amount :: coins
  cj_totalA :: coins
  cj_totalB :: coins

definition cj_emit :: "coins_ops \<Rightarrow> int \<Rightarrow> coins \<Rightarrow> conjunct \<Rightarrow> conjunct" where
  "cj_emit C nextTime coins st =
     st\<lparr>cj_periods := cj_periods st @ [\<lparr>Length = i64 (nextTime - cj_time st), Amount = coins\<rparr>],
        cj_time := nextTime,
        cj_amount := coins_Add C (cj_amount st) coins\<rparr>"

definition cj_update :: "coins_ops \<Rightarrow> int \<Rightarrow> conjunct \<Rightarrow> conjunct option" where
  "cj_update C nextTime st =
     (let m = coins_Min C (cj_totalA st) (cj_totalB st)
      in if coins_IsAllLTE C (cj_amount st) m
         then case coins_Sub C m (cj_amount st) of
                None \<Rightarrow> None
              | Some diff \<Rightarrow> Some (if \<not> coins_IsZero C diff then cj_emit C nextTime diff st else st)
         else Some st)"

definition cj_consumeA :: "coins_ops \<Rightarrow> int \<Rightarrow> period \<Rightarrow> conjunct \<Rightarrow> conjunct option" where
  "cj_consumeA C nextTime a st =
     map_option (\<lambda>st'. st'\<lparr>cj_timeA := nextTime\<rparr>)
       (cj_update C nextTime (st\<lparr>cj_totalA := coins_Add C (cj_totalA st) (Amount a)\<rparr>))"

definition cj_consumeB :: "coins_ops \<Rightarrow> int \<Rightarrow> period \<Rightarrow> conjunct \<Rightarrow> conjunct option" where
  "cj_consumeB C nextTime b st =
     map_option (\<lambda>st'. st'\<lparr>cj_timeB := nextTime\<rparr>)
       (cj_update C nextTime (st\<lparr>cj_totalB := coins_Add C (cj_totalB st) (Amount b)\<rparr>))"

definition cj_consumeBoth :: "coins_ops \<Rightarrow> int \<Rightarrow> period \<Rightarrow> period \<Rightarrow> conjunct \<Rightarrow> conjunct option" where
  "cj_consumeBoth C nextTime a b st =
     map_option (\<lambda>st'. st'\<lparr>cj_timeA := nextTime, cj_timeB := nextTime\<rparr>)
       (cj_update C nextTime
          (st\<lparr>cj_totalA := coins_Add C (cj_totalA st) (Amount a),
              cj_totalB := coins_Add C (cj_totalB st) (Amount b)\<rparr>))"

fun cj_restA :: "coins_ops \<Rightarrow> period list \<Rightarrow> conjunct \<Rightarrow> conjunct option" where
  "cj_restA C [] st = Some st"
| "cj_restA C (a # as) st =
     Option.bind (cj_consumeA C (i64 (cj_timeA st + Length a)) a st) (cj_restA C as)"

fun cj_restB :: "coins_ops \<Rightarrow> period list \<Rightarrow> conjunct \<Rightarrow> conjunct option" where
  "cj_restB C [] st = Some st"
| "cj_restB C (b # bs) st =
     Option.bind (cj_consumeB C (i64 (cj_timeB st + Length b)) b st) (cj_restB C bs)"

fun cj_loop :: "coins_ops \<Rightarrow> period list \<Rightarrow> period list \<Rightarrow> conjunct \<Rightarrow> conjunct option" where
  "cj_loop C (a # as) (b # bs) st =
     (let nextPeriodA = i64 (cj_timeA st + Length a);
          nextPeriodB = i64 (cj_timeB st + Length b)
      in if nextPeriodA < nextPeriodB
         then Option.bind (cj_consumeA C nextPeriodA a st) (cj_loop C as (b # bs))
         else if nextPeriodA > nextPeriodB
         then Option.bind (cj_consumeB C nextPeriodB b st) (cj_loop C (a # as) bs)
         else Option.bind (cj_consumeBoth C nextPeriodA a b st) (cj_loop C as bs))"
| "cj_loop C as bs st = Option.bind (cj_restA C as st) (cj_restB C bs)"

definition ConjunctPeriods ::
  "coins_ops \<Rightarrow> int \<Rightarrow> int \<Rightarrow> period list \<Rightarrow> period list \<Rightarrow> (int \<times> int \<times> period list) option" where
  "ConjunctPeriods C startTimePeriodA startTimePeriodB periodsA periodsB =
     (let startTime = Min64 startTimePeriodA startTimePeriodB
      in map_option (\<lambda>st. (startTime, cj_time st, cj_periods st))
           (cj_loop C periodsA periodsB
              \<lparr>cj_timeA = startTimePeriodA, cj_timeB = startTimePeriodB, cj_time = startTime,
               cj_periods = [], cj_amount = [], cj_totalA = [], cj_totalB = []\<rparr>))"

text \<open>
  \<open>AlignSchedules\<close> changes the first period of each slice in place, so the model returns the
  two slices too.  \<open>TotalLength\<close> is a method of the SDK's \<open>Periods\<close> and a parameter.
\<close>

fun extend_first :: "int \<Rightarrow> period list \<Rightarrow> period list" where
  "extend_first n [] = []"
| "extend_first n (p # ps) = p\<lparr>Length := i64 (Length p + n)\<rparr> # ps"

definition AlignSchedules ::
  "(period list \<Rightarrow> int) \<Rightarrow> int \<Rightarrow> int \<Rightarrow> period list \<Rightarrow> period list
     \<Rightarrow> int \<times> int \<times> period list \<times> period list" where
  "AlignSchedules TotalLength startTimePeriodA startTimePeriodB periodsA periodsB =
     (let startTime = Min64 startTimePeriodA startTimePeriodB;
          periodsA' = extend_first (i64 (startTimePeriodA - startTime)) periodsA;
          periodsB' = extend_first (i64 (startTimePeriodB - startTime)) periodsB;
          endPeriodsA = i64 (startTime + TotalLength periodsA');
          endPeriodsB = i64 (startTime + TotalLength periodsB')
      in (startTime, Max64 endPeriodsA endPeriodsB, periodsA', periodsB'))"

section \<open>The reference meaning of a schedule\<close>

fun sched_at :: "coins_ops \<Rightarrow> int \<Rightarrow> period list \<Rightarrow> int \<Rightarrow> denom \<Rightarrow> int" where
  "sched_at C start [] t d = 0"
| "sched_at C start (p # ps) t d =
     (if start + Length p \<le> t
      then coins_AmountOf C (Amount p) d + sched_at C (start + Length p) ps t d else 0)"

definition sched_total :: "coins_ops \<Rightarrow> period list \<Rightarrow> denom \<Rightarrow> int" where
  "sched_total C ps d = sum_list (map (\<lambda>p. coins_AmountOf C (Amount p) d) ps)"

definition tlen :: "period list \<Rightarrow> int" where
  "tlen ps = sum_list (map Length ps)"

definition periods_ok :: "coins_ops \<Rightarrow> period list \<Rightarrow> bool" where
  "periods_ok C ps \<longleftrightarrow> (\<forall>p \<in> set ps. 0 \<le> Length p \<and> coins_IsValid C (Amount p))"

text \<open>Times within a quarter of the 64-bit range: no sum or difference of two overflows.\<close>

definition time_ok :: "int \<Rightarrow> bool" where
  "time_ok x \<longleftrightarrow> - (2 ^ 62) \<le> x \<and> x < 2 ^ 62"

definition sched_ok :: "coins_ops \<Rightarrow> int \<Rightarrow> period list \<Rightarrow> bool" where
  "sched_ok C start ps \<longleftrightarrow> periods_ok C ps \<and> time_ok start \<and> time_ok (start + tlen ps)"

lemma tlen_simps [simp]:
  "tlen [] = 0" "tlen (p # ps) = Length p + tlen ps" "tlen (ps @ qs) = tlen ps + tlen qs"
  by (simp_all add: tlen_def)

lemma sched_total_simps [simp]:
  "sched_total C [] d = 0"
  "sched_total C (p # ps) d = coins_AmountOf C (Amount p) d + sched_total C ps d"
  "sched_total C (ps @ qs) d = sched_total C ps d + sched_total C qs d"
  by (simp_all add: sched_total_def)

lemma periods_ok_simps [simp]:
  "periods_ok C []"
  "periods_ok C (p # ps) \<longleftrightarrow> 0 \<le> Length p \<and> coins_IsValid C (Amount p) \<and> periods_ok C ps"
  "periods_ok C (ps @ qs) \<longleftrightarrow> periods_ok C ps \<and> periods_ok C qs"
  by (auto simp: periods_ok_def)

lemma tlen_nonneg: "periods_ok C ps \<Longrightarrow> 0 \<le> tlen ps"
  by (induction ps) auto

lemma time_ok_i64: "time_ok x \<Longrightarrow> in_i64 x"
  by (simp add: time_ok_def in_i64_def)

lemma time_ok_diff: "time_ok x \<Longrightarrow> time_ok y \<Longrightarrow> i64 (x - y) = x - y"
  by (rule i64_id) (simp add: time_ok_def in_i64_def)

lemma time_ok_id: "time_ok x \<Longrightarrow> i64 x = x"
  by (simp add: i64_id time_ok_i64)

lemma sched_ok_Nil: "sched_ok C start [] \<longleftrightarrow> time_ok start"
  by (simp add: sched_ok_def)

lemma sched_ok_Cons:
  "sched_ok C start (p # ps) \<longleftrightarrow>
     time_ok start \<and> 0 \<le> Length p \<and> coins_IsValid C (Amount p) \<and> sched_ok C (start + Length p) ps"
proof -
  have "periods_ok C ps \<Longrightarrow> 0 \<le> tlen ps" by (rule tlen_nonneg)
  then show ?thesis
    by (auto simp: sched_ok_def time_ok_def add.assoc)
qed

lemma sched_ok_next: "sched_ok C start (p # ps) \<Longrightarrow> time_ok (start + Length p)"
  unfolding sched_ok_Cons by (simp add: sched_ok_def)

lemma sched_ok_time: "sched_ok C start ps \<Longrightarrow> time_ok start"
  by (simp add: sched_ok_def)

lemma sched_at_before:
  "periods_ok C ps \<Longrightarrow> t < start \<Longrightarrow> sched_at C start ps t d = 0"
  by (induction ps arbitrary: start) auto

lemma sched_at_after:
  "periods_ok C ps \<Longrightarrow> start + tlen ps \<le> t \<Longrightarrow> sched_at C start ps t d = sched_total C ps d"
proof (induction ps arbitrary: start)
  case (Cons p ps)
  then have "0 \<le> tlen ps" using tlen_nonneg by auto
  with Cons show ?case by (simp add: add.assoc)
qed simp

lemma sched_at_snoc:
  "periods_ok C ps \<Longrightarrow> 0 \<le> Length p \<Longrightarrow>
   sched_at C start (ps @ [p]) t d =
     sched_at C start ps t d +
       (if start + tlen ps + Length p \<le> t then coins_AmountOf C (Amount p) d else 0)"
proof (induction ps arbitrary: start)
  case (Cons q ps)
  then have "0 \<le> tlen ps" using tlen_nonneg by auto
  with Cons show ?case by (simp add: add.assoc)
qed simp

lemma take_sched_ok: "sched_ok C start ps \<Longrightarrow> sched_ok C start (take n ps)"
proof (induction ps arbitrary: start n)
  case (Cons p ps)
  then show ?case by (cases n) (auto simp: sched_ok_Cons sched_ok_Nil)
qed (simp add: sched_ok_Nil)

section \<open>Reading a schedule\<close>

context coins_laws
begin

lemma sched_at_nonneg: "periods_ok C ps \<Longrightarrow> 0 \<le> sched_at C start ps t d"
  by (induction ps arbitrary: start) (auto intro: add_nonneg_nonneg amount_nonneg)

lemma sched_total_nonneg: "periods_ok C ps \<Longrightarrow> 0 \<le> sched_total C ps d"
  by (induction ps) (auto intro: add_nonneg_nonneg amount_nonneg)

lemma sched_at_le_total: "periods_ok C ps \<Longrightarrow> sched_at C start ps t d \<le> sched_total C ps d"
  by (induction ps arbitrary: start)
    (auto intro: add_nonneg_nonneg amount_nonneg sched_total_nonneg)

lemma sched_at_mono:
  "periods_ok C ps \<Longrightarrow> t \<le> t' \<Longrightarrow> sched_at C start ps t d \<le> sched_at C start ps t' d"
  by (induction ps arbitrary: start)
    (auto intro: add_nonneg_nonneg amount_nonneg sched_at_nonneg)

lemma ReadSchedule_loop_valid:
  "periods_ok C ps \<Longrightarrow> valid coins \<Longrightarrow> valid (ReadSchedule_loop C t start coins ps)"
  by (induction ps arbitrary: start coins) (auto simp: Add_valid)

lemma ReadSchedule_loop_amount:
  "sched_ok C start ps \<Longrightarrow> valid coins \<Longrightarrow>
   amt (ReadSchedule_loop C t start coins ps) d = amt coins d + sched_at C start ps t d"
proof (induction ps arbitrary: start coins)
  case (Cons p ps)
  then have eq: "i64 (start + Length p) = start + Length p"
    by (blast intro: time_ok_id sched_ok_next)
  with Cons show ?case
    by (auto simp: sched_ok_Cons Add_valid Add_amount)
qed simp

text \<open>The schedule as read, with the two shortcuts of the code: nothing up to the start, the
  given total from the end on.\<close>

lemma ReadSchedule_amount:
  assumes "sched_ok C start ps" and "start + tlen ps \<le> end_time"
    and "\<And>d. amt tot d = sched_total C ps d"
  shows "amt (ReadSchedule C start end_time ps tot t) d =
           (if t \<le> start then 0 else sched_at C start ps t d)"
  using assms ReadSchedule_loop_amount [of start ps "[]" t d]
  by (auto simp: ReadSchedule_def amount_empty valid_empty sched_ok_def sched_at_after)

lemma ReadSchedule_valid:
  "periods_ok C ps \<Longrightarrow> valid tot \<Longrightarrow> valid (ReadSchedule C start end_time ps tot t)"
  by (simp add: ReadSchedule_def valid_empty ReadSchedule_loop_valid)

end

lemma ReadPastPeriodCount_loop_add:
  "ReadPastPeriodCount_loop t start n ps = n + ReadPastPeriodCount_loop t start 0 ps"
proof (induction ps arbitrary: start n)
  case (Cons p ps)
  show ?case
    using Cons [of "i64 (start + Length p)" "Suc n"] Cons [of "i64 (start + Length p)" "Suc 0"]
    by simp
qed simp

lemma ReadPastPeriodCount_loop_le: "ReadPastPeriodCount_loop t start 0 ps \<le> length ps"
proof (induction ps arbitrary: start)
  case (Cons p ps)
  then show ?case
    using ReadPastPeriodCount_loop_add [of t "i64 (start + Length p)" "Suc 0" ps] by simp
qed simp

lemma ReadPastPeriodCount_le: "ReadPastPeriodCount start end_time ps t \<le> length ps"
  by (simp add: ReadPastPeriodCount_def ReadPastPeriodCount_loop_le)

text \<open>The periods counted as passed are exactly those whose event is at or before the time.\<close>

lemma take_passed_total:
  assumes "sched_ok C start ps"
  shows "sched_total C (take (ReadPastPeriodCount_loop t start 0 ps) ps) d = sched_at C start ps t d
       \<and> (start \<le> t \<longrightarrow> start + tlen (take (ReadPastPeriodCount_loop t start 0 ps) ps) \<le> t)"
  using assms
proof (induction ps arbitrary: start)
  case (Cons p ps)
  then have eq: "i64 (start + Length p) = start + Length p"
    by (blast intro: time_ok_id sched_ok_next)
  from Cons.prems have ok: "sched_ok C (start + Length p) ps" by (simp add: sched_ok_Cons)
  show ?case
    using Cons.IH [OF ok]
    by (auto simp: eq ReadPastPeriodCount_loop_add [of t "start + Length p" "Suc 0"] add.assoc)
qed simp

lemma take_passed:
  assumes "sched_ok C start ps" "start + tlen ps \<le> end_time" "start < t"
  shows "sched_total C (take (ReadPastPeriodCount start end_time ps t) ps) d = sched_at C start ps t d"
    and "start + tlen (take (ReadPastPeriodCount start end_time ps t) ps) \<le> t"
  using assms take_passed_total [OF assms(1), of t d]
  by (auto simp: ReadPastPeriodCount_def sched_ok_def sched_at_after)

section \<open>The sum of two schedules\<close>

text \<open>What every step of \<open>DisjunctPeriods\<close> keeps: the emitted periods are well formed, they
  end at \<open>dj_end\<close>, and no remaining event is before it.\<close>

definition dj_inv :: "coins_ops \<Rightarrow> int \<Rightarrow> period list \<Rightarrow> period list \<Rightarrow> disjunct \<Rightarrow> bool" where
  "dj_inv C S as bs st \<longleftrightarrow>
     periods_ok C (dj_periods st) \<and> S + tlen (dj_periods st) = dj_end st \<and> time_ok (dj_end st) \<and>
     sched_ok C (dj_timeA st) as \<and> sched_ok C (dj_timeB st) bs \<and>
     (\<forall>a as'. as = a # as' \<longrightarrow> dj_end st \<le> dj_timeA st + Length a) \<and>
     (\<forall>b bs'. bs = b # bs' \<longrightarrow> dj_end st \<le> dj_timeB st + Length b)"

definition dj_end_spec :: "period list \<Rightarrow> period list \<Rightarrow> disjunct \<Rightarrow> int" where
  "dj_end_spec as bs st =
     (if as = [] then if bs = [] then dj_end st else dj_timeB st + tlen bs
      else if bs = [] then dj_timeA st + tlen as
      else max (dj_timeA st + tlen as) (dj_timeB st + tlen bs))"

lemmas dj_consume_defs = dj_consumeA_def dj_consumeB_def dj_consumeBoth_def

lemma dj_emit_simps [simp]:
  "dj_end (dj_emit n a st) = n"
  "dj_timeA (dj_emit n a st) = dj_timeA st"
  "dj_timeB (dj_emit n a st) = dj_timeB st"
  by (simp_all add: dj_emit_def)

lemma dj_emit_periods:
  assumes "dj_inv C S as bs st" and "time_ok n" and "dj_end st \<le> n" and "coins_IsValid C a"
  shows "periods_ok C (dj_periods (dj_emit n a st))"
    and "S + tlen (dj_periods (dj_emit n a st)) = n"
    and "sched_at C S (dj_periods (dj_emit n a st)) t d =
           sched_at C S (dj_periods st) t d + (if n \<le> t then coins_AmountOf C a d else 0)"
  using assms by (auto simp: dj_inv_def dj_emit_def time_ok_diff sched_at_snoc algebra_simps)

lemma dj_step_A:
  assumes "dj_inv C S (a # as) bs st"
    and "\<And>b bs'. bs = b # bs' \<Longrightarrow> dj_timeA st + Length a \<le> dj_timeB st + Length b"
  shows "dj_inv C S as bs (dj_consumeA (dj_timeA st + Length a) a st)"
    and "sched_at C S (dj_periods (dj_consumeA (dj_timeA st + Length a) a st)) t d
           + sched_at C (dj_timeA st + Length a) as t d =
         sched_at C S (dj_periods st) t d + sched_at C (dj_timeA st) (a # as) t d"
proof -
  let ?n = "dj_timeA st + Length a"
  have ok: "sched_ok C (dj_timeA st) (a # as)" "dj_end st \<le> ?n"
    using assms(1) by (auto simp: dj_inv_def)
  then have a: "time_ok ?n" "coins_IsValid C (Amount a)" "sched_ok C ?n as" "0 \<le> Length a"
    by (auto dest: sched_ok_time simp: sched_ok_Cons)
  note e = dj_emit_periods [OF assms(1) a(1) ok(2) a(2)]
  have "\<And>p ps. as = p # ps \<Longrightarrow> 0 \<le> Length p" using a(3) by (auto simp: sched_ok_Cons)
  then show "dj_inv C S as bs (dj_consumeA ?n a st)"
    using e(1,2) a assms by (auto simp: dj_inv_def dj_consumeA_def)
  show "sched_at C S (dj_periods (dj_consumeA ?n a st)) t d + sched_at C ?n as t d =
      sched_at C S (dj_periods st) t d + sched_at C (dj_timeA st) (a # as) t d"
    using e(3) [of t d] a(3) by (auto simp: dj_consumeA_def sched_ok_def sched_at_before)
qed

lemma dj_step_B:
  assumes "dj_inv C S as (b # bs) st"
    and "\<And>a as'. as = a # as' \<Longrightarrow> dj_timeB st + Length b \<le> dj_timeA st + Length a"
  shows "dj_inv C S as bs (dj_consumeB (dj_timeB st + Length b) b st)"
    and "sched_at C S (dj_periods (dj_consumeB (dj_timeB st + Length b) b st)) t d
           + sched_at C (dj_timeB st + Length b) bs t d =
         sched_at C S (dj_periods st) t d + sched_at C (dj_timeB st) (b # bs) t d"
proof -
  let ?n = "dj_timeB st + Length b"
  have ok: "sched_ok C (dj_timeB st) (b # bs)" "dj_end st \<le> ?n"
    using assms(1) by (auto simp: dj_inv_def)
  then have b: "time_ok ?n" "coins_IsValid C (Amount b)" "sched_ok C ?n bs" "0 \<le> Length b"
    by (auto dest: sched_ok_time simp: sched_ok_Cons)
  note e = dj_emit_periods [OF assms(1) b(1) ok(2) b(2)]
  have "\<And>p ps. bs = p # ps \<Longrightarrow> 0 \<le> Length p" using b(3) by (auto simp: sched_ok_Cons)
  then show "dj_inv C S as bs (dj_consumeB ?n b st)"
    using e(1,2) b assms by (auto simp: dj_inv_def dj_consumeB_def)
  show "sched_at C S (dj_periods (dj_consumeB ?n b st)) t d + sched_at C ?n bs t d =
      sched_at C S (dj_periods st) t d + sched_at C (dj_timeB st) (b # bs) t d"
    using e(3) [of t d] b(3) by (auto simp: dj_consumeB_def sched_ok_def sched_at_before)
qed

lemma dj_consume_simps [simp]:
  "dj_end (dj_consumeA n a st) = n" "dj_end (dj_consumeB n b st) = n"
  "dj_timeA (dj_consumeA n a st) = n" "dj_timeB (dj_consumeB n b st) = n"
  "dj_timeA (dj_consumeB n b st) = dj_timeA st" "dj_timeB (dj_consumeA n a st) = dj_timeB st"
  "dj_end (dj_consumeBoth C n a b st) = n"
  "dj_timeA (dj_consumeBoth C n a b st) = n" "dj_timeB (dj_consumeBoth C n a b st) = n"
  by (simp_all add: dj_consume_defs)

lemma dj_inv_next:
  "dj_inv C S (a # as) bs st \<Longrightarrow> i64 (dj_timeA st + Length a) = dj_timeA st + Length a"
  "dj_inv C S as (b # bs) st \<Longrightarrow> i64 (dj_timeB st + Length b) = dj_timeB st + Length b"
  by (auto simp: dj_inv_def intro: time_ok_id sched_ok_next)

lemma dj_restA_spec:
  "dj_inv C S as [] st \<Longrightarrow>
   dj_inv C S [] [] (dj_restA as st) \<and>
   sched_at C S (dj_periods (dj_restA as st)) t d =
     sched_at C S (dj_periods st) t d + sched_at C (dj_timeA st) as t d \<and>
   dj_end (dj_restA as st) = (if as = [] then dj_end st else dj_timeA st + tlen as)"
proof (induction as arbitrary: st)
  case (Cons a as)
  note step = dj_step_A [OF Cons.prems, simplified]
  show ?case
    using Cons.IH [OF step(1)] step(2) [of t d] dj_inv_next(1) [OF Cons.prems]
    by (auto simp: add.assoc)
qed simp

lemma dj_restB_spec:
  "dj_inv C S [] bs st \<Longrightarrow>
   dj_inv C S [] [] (dj_restB bs st) \<and>
   sched_at C S (dj_periods (dj_restB bs st)) t d =
     sched_at C S (dj_periods st) t d + sched_at C (dj_timeB st) bs t d \<and>
   dj_end (dj_restB bs st) = (if bs = [] then dj_end st else dj_timeB st + tlen bs)"
proof (induction bs arbitrary: st)
  case (Cons b bs)
  note step = dj_step_B [OF Cons.prems, simplified]
  show ?case
    using Cons.IH [OF step(1)] step(2) [of t d] dj_inv_next(2) [OF Cons.prems]
    by (auto simp: add.assoc)
qed simp

context coins_laws
begin

lemma dj_step_both:
  assumes "dj_inv C S (a # as) (b # bs) st"
    and "dj_timeA st + Length a = dj_timeB st + Length b"
  shows "dj_inv C S as bs (dj_consumeBoth C (dj_timeA st + Length a) a b st)"
    and "sched_at C S (dj_periods (dj_consumeBoth C (dj_timeA st + Length a) a b st)) t d
           + sched_at C (dj_timeA st + Length a) as t d + sched_at C (dj_timeA st + Length a) bs t d =
         sched_at C S (dj_periods st) t d + sched_at C (dj_timeA st) (a # as) t d
           + sched_at C (dj_timeB st) (b # bs) t d"
proof -
  let ?n = "dj_timeA st + Length a"
  have ok: "sched_ok C (dj_timeA st) (a # as)" "sched_ok C (dj_timeB st) (b # bs)" "dj_end st \<le> ?n"
    using assms(1) by (auto simp: dj_inv_def)
  then have v: "valid (Amount a)" "valid (Amount b)" "sched_ok C ?n as" "sched_ok C ?n bs" "time_ok ?n"
    using assms(2) by (auto dest: sched_ok_time simp: sched_ok_Cons)
  note e = dj_emit_periods [OF assms(1) v(5) ok(3) Add_valid [OF v(1,2)]]
  have "\<And>p ps. as = p # ps \<Longrightarrow> 0 \<le> Length p" "\<And>p ps. bs = p # ps \<Longrightarrow> 0 \<le> Length p"
    using v(3,4) by (auto simp: sched_ok_Cons)
  then show "dj_inv C S as bs (dj_consumeBoth C ?n a b st)"
    using e(1,2) v by (auto simp: dj_inv_def dj_consumeBoth_def)
  show "sched_at C S (dj_periods (dj_consumeBoth C ?n a b st)) t d
      + sched_at C ?n as t d + sched_at C ?n bs t d =
      sched_at C S (dj_periods st) t d + sched_at C (dj_timeA st) (a # as) t d
      + sched_at C (dj_timeB st) (b # bs) t d"
    using e(3) [of t d] v assms(2)
    by (auto simp: dj_consumeBoth_def sched_ok_def sched_at_before Add_amount)
qed

lemma dj_loop_spec:
  "dj_inv C S as bs st \<Longrightarrow>
   dj_inv C S [] [] (dj_loop C as bs st) \<and>
   sched_at C S (dj_periods (dj_loop C as bs st)) t d =
     sched_at C S (dj_periods st) t d + sched_at C (dj_timeA st) as t d
       + sched_at C (dj_timeB st) bs t d \<and>
   dj_end (dj_loop C as bs st) = dj_end_spec as bs st"
proof (induction "length as + length bs" arbitrary: as bs st rule: less_induct)
  case less
  show ?case
  proof (cases "as = [] \<or> bs = []")
    case True
    then show ?thesis
      using dj_restA_spec [of C S as st t d] dj_restB_spec [of C S bs st t d] less.prems
      by (cases as; cases bs) (auto simp: dj_end_spec_def)
  next
    case False
    then obtain a as' b bs' where ab: "as = a # as'" "bs = b # bs'" by (meson list.exhaust)
    note inv = less.prems [unfolded ab]
    note eq = dj_inv_next [OF inv]
    let ?a = "dj_timeA st + Length a" and ?b = "dj_timeB st + Length b"
    have len: "0 \<le> tlen as'" "0 \<le> tlen bs'"
      using inv by (auto simp: dj_inv_def sched_ok_def intro: tlen_nonneg)
    consider "?a < ?b" | "?b < ?a" | "?a = ?b" by linarith
    then show ?thesis
    proof cases
      case 1
      then have inv': "dj_inv C S as' (b # bs') (dj_consumeA ?a a st)"
        by (intro dj_step_A(1) [OF inv]) auto
      show ?thesis
        using less.hyps [OF _ inv'] dj_step_A(2) [OF inv, of t d] 1 len
        by (auto simp: ab eq dj_end_spec_def)
    next
      case 2
      then have inv': "dj_inv C S (a # as') bs' (dj_consumeB ?b b st)"
        by (intro dj_step_B(1) [OF inv]) auto
      show ?thesis
        using less.hyps [OF _ inv'] dj_step_B(2) [OF inv, of t d] 2 len
        by (auto simp: ab eq dj_end_spec_def)
    next
      case 3
      note step = dj_step_both [OF inv 3]
      show ?thesis
        using less.hyps [OF _ step(1)] step(2) [of t d] 3 len
        by (auto simp: ab eq dj_end_spec_def)
    qed
  qed
qed

end

lemma DisjunctPeriods_inv:
  assumes "sched_ok C startA as" and "sched_ok C startB bs"
  shows "dj_inv C (Min64 startA startB) as bs
           \<lparr>dj_timeA = startA, dj_timeB = startB, dj_end = Min64 startA startB, dj_periods = []\<rparr>"
  using assms by (auto simp: dj_inv_def Min64_def sched_ok_Cons sched_ok_time)

section \<open>The minimum of two schedules\<close>

definition cj_inv :: "coins_ops \<Rightarrow> int \<Rightarrow> conjunct \<Rightarrow> bool" where
  "cj_inv C S st \<longleftrightarrow>
     periods_ok C (cj_periods st) \<and> S + tlen (cj_periods st) = cj_time st \<and> time_ok (cj_time st) \<and>
     coins_IsValid C (cj_amount st) \<and> coins_IsValid C (cj_totalA st) \<and> coins_IsValid C (cj_totalB st) \<and>
     (\<forall>p \<in> set (cj_periods st). \<not> coins_IsZero C (Amount p)) \<and>
     (\<forall>d. coins_AmountOf C (cj_amount st) d =
            min (coins_AmountOf C (cj_totalA st) d) (coins_AmountOf C (cj_totalB st) d))"

definition cj_next :: "coins_ops \<Rightarrow> period list \<Rightarrow> period list \<Rightarrow> conjunct \<Rightarrow> bool" where
  "cj_next C as bs st \<longleftrightarrow>
     sched_ok C (cj_timeA st) as \<and> sched_ok C (cj_timeB st) bs \<and>
     (\<forall>a as'. as = a # as' \<longrightarrow> cj_time st \<le> cj_timeA st + Length a) \<and>
     (\<forall>b bs'. bs = b # bs' \<longrightarrow> cj_time st \<le> cj_timeB st + Length b)"

text \<open>The value the schedule built so far will have at a time, given what is left of the two
  inputs: the emitted amount plus the growth of the minimum.\<close>

definition cj_val :: "coins_ops \<Rightarrow> int \<Rightarrow> period list \<Rightarrow> period list \<Rightarrow> conjunct \<Rightarrow> int \<Rightarrow> denom \<Rightarrow> int" where
  "cj_val C S as bs st t d =
     sched_at C S (cj_periods st) t d
     + min (coins_AmountOf C (cj_totalA st) d + sched_at C (cj_timeA st) as t d)
           (coins_AmountOf C (cj_totalB st) d + sched_at C (cj_timeB st) bs t d)
     - min (coins_AmountOf C (cj_totalA st) d) (coins_AmountOf C (cj_totalB st) d)"

text \<open>One step: totals grown by non-negative amounts, the minimum's growth emitted at the next
  event.\<close>

definition cj_post :: "coins_ops \<Rightarrow> int \<Rightarrow> int \<Rightarrow> coins \<Rightarrow> coins \<Rightarrow> conjunct \<Rightarrow> conjunct \<Rightarrow> bool" where
  "cj_post C S n ta tb st st' \<longleftrightarrow>
     cj_inv C S st' \<and> cj_totalA st' = ta \<and> cj_totalB st' = tb \<and>
     cj_timeA st' = cj_timeA st \<and> cj_timeB st' = cj_timeB st \<and> cj_time st' \<le> n \<and>
     (\<forall>t d. sched_at C S (cj_periods st') t d = sched_at C S (cj_periods st) t d +
        (if n \<le> t then min (coins_AmountOf C ta d) (coins_AmountOf C tb d)
                        - coins_AmountOf C (cj_amount st) d else 0))"

context coins_laws
begin

lemma cj_update_spec:
  assumes inv: "cj_inv C S st" and n: "time_ok n" "cj_time st \<le> n"
    and v: "valid ta" "valid tb"
    and le: "\<And>d. amt (cj_totalA st) d \<le> amt ta d" "\<And>d. amt (cj_totalB st) d \<le> amt tb d"
  shows "\<exists>st'. cj_update C n (st\<lparr>cj_totalA := ta, cj_totalB := tb\<rparr>) = Some st' \<and> cj_post C S n ta tb st st'"
proof -
  let ?m = "coins_Min C ta tb"
  have vm: "valid ?m" "valid (cj_amount st)" and am: "\<And>d. amt ?m d = min (amt ta d) (amt tb d)"
    using v inv by (auto simp: Min_valid Min_amount cj_inv_def)
  have amle: "\<And>d. amt (cj_amount st) d \<le> amt ?m d"
    using inv by (simp add: cj_inv_def am min.coboundedI1 min.coboundedI2 le)
  then have lte: "coins_IsAllLTE C (cj_amount st) ?m"
    using IsAllLTE_iff [OF vm(2,1)] by blast
  obtain diff where diff: "coins_Sub C ?m (cj_amount st) = Some diff" "valid diff"
    "\<And>d. amt diff d = amt ?m d - amt (cj_amount st) d"
    using Sub_ok [OF vm amle] by blast
  show ?thesis
  proof (cases "coins_IsZero C diff")
    case True
    then have "\<And>d. amt (cj_amount st) d = amt ?m d"
      using diff IsZero_iff [OF diff(2)] by (metis eq_iff_diff_eq_0)
    with True inv v n diff lte show ?thesis
      by (auto simp: cj_update_def cj_post_def cj_inv_def am Let_def)
  next
    case False
    have len: "i64 (n - cj_time st) = n - cj_time st"
      using n inv by (auto simp: cj_inv_def time_ok_diff)
    show ?thesis
      using False inv v n diff lte
      by (auto simp: cj_update_def cj_post_def cj_inv_def cj_emit_def am Let_def len
          Add_valid Add_amount sched_at_snoc algebra_simps)
  qed
qed

lemma cj_post_val:
  assumes "cj_inv C S st" "cj_post C S n ta tb st st'"
    and "n \<le> t \<Longrightarrow> amt ta d + sched_at C tA as' t d = amt (cj_totalA st) d + sched_at C (cj_timeA st) as t d"
    and "n \<le> t \<Longrightarrow> amt tb d + sched_at C tB bs' t d = amt (cj_totalB st) d + sched_at C (cj_timeB st) bs t d"
    and "t < n \<Longrightarrow> sched_at C tA as' t d = 0" "t < n \<Longrightarrow> sched_at C (cj_timeA st) as t d = 0"
    and "t < n \<Longrightarrow> sched_at C tB bs' t d = 0" "t < n \<Longrightarrow> sched_at C (cj_timeB st) bs t d = 0"
  shows "cj_val C S as' bs' (st'\<lparr>cj_timeA := tA, cj_timeB := tB\<rparr>) t d = cj_val C S as bs st t d"
  using assms by (cases "n \<le> t") (auto simp: cj_post_def cj_inv_def cj_val_def)

lemma cj_post_inv:
  "cj_post C S n ta tb st st' \<Longrightarrow> cj_inv C S (st'\<lparr>cj_timeA := tA, cj_timeB := tB\<rparr>)"
  by (auto simp: cj_post_def cj_inv_def)

lemma sched_at_first:
  assumes "sched_ok C start ps" "\<And>p ps'. ps = p # ps' \<Longrightarrow> t < start + Length p"
  shows "sched_at C start ps t d = 0"
  using assms by (cases ps) force+

lemma cj_step_A:
  assumes inv: "cj_inv C S st" and nxt: "cj_next C (a # as) bs st"
    and first: "\<And>b bs'. bs = b # bs' \<Longrightarrow> cj_timeA st + Length a \<le> cj_timeB st + Length b"
  shows "\<exists>st'. cj_consumeA C (cj_timeA st + Length a) a st = Some st' \<and> cj_inv C S st' \<and>
           cj_next C as bs st' \<and> (\<forall>t d. cj_val C S as bs st' t d = cj_val C S (a # as) bs st t d)"
proof -
  let ?n = "cj_timeA st + Length a" and ?ta = "coins_Add C (cj_totalA st) (Amount a)"
  have ok: "time_ok ?n" "cj_time st \<le> ?n" "valid (Amount a)" "sched_ok C ?n as"
    "sched_ok C (cj_timeB st) bs"
    using nxt by (auto simp: cj_next_def sched_ok_Cons dest: sched_ok_time)
  have v: "valid (cj_totalA st)" "valid (cj_totalB st)" using inv by (auto simp: cj_inv_def)
  have "\<exists>st'. cj_update C ?n (st\<lparr>cj_totalA := ?ta, cj_totalB := cj_totalB st\<rparr>) = Some st' \<and>
      cj_post C S ?n ?ta (cj_totalB st) st st'"
    by (rule cj_update_spec [OF inv ok(1,2)])
      (use v ok in \<open>auto simp: Add_valid Add_amount amount_nonneg\<close>)
  then obtain st' where st': "cj_update C ?n (st\<lparr>cj_totalA := ?ta\<rparr>) = Some st'"
    "cj_post C S ?n ?ta (cj_totalB st) st st'" by auto
  let ?st = "st'\<lparr>cj_timeA := ?n, cj_timeB := cj_timeB st\<rparr>"
  have "\<And>p ps. as = p # ps \<Longrightarrow> 0 \<le> Length p" using ok(4) by (auto simp: sched_ok_Cons)
  then have "cj_next C as bs ?st"
    using st'(2) ok first by (fastforce simp: cj_post_def cj_next_def)
  moreover have "cj_val C S as bs ?st t d = cj_val C S (a # as) bs st t d" for t d
    by (rule cj_post_val [OF inv st'(2)])
      (use v ok first in \<open>auto simp: Add_amount sched_ok_def sched_at_before
          intro!: sched_at_first [unfolded sched_ok_def] dest!: first\<close>)
  moreover have "st'\<lparr>cj_timeA := ?n\<rparr> = ?st" using st'(2) by (simp add: cj_post_def)
  then have "cj_consumeA C ?n a st = Some ?st" using st'(1) by (simp add: cj_consumeA_def)
  ultimately show ?thesis
    using cj_post_inv [OF st'(2)] by blast
qed

lemma cj_step_B:
  assumes inv: "cj_inv C S st" and nxt: "cj_next C as (b # bs) st"
    and first: "\<And>a as'. as = a # as' \<Longrightarrow> cj_timeB st + Length b \<le> cj_timeA st + Length a"
  shows "\<exists>st'. cj_consumeB C (cj_timeB st + Length b) b st = Some st' \<and> cj_inv C S st' \<and>
           cj_next C as bs st' \<and> (\<forall>t d. cj_val C S as bs st' t d = cj_val C S as (b # bs) st t d)"
proof -
  let ?n = "cj_timeB st + Length b" and ?tb = "coins_Add C (cj_totalB st) (Amount b)"
  have ok: "time_ok ?n" "cj_time st \<le> ?n" "valid (Amount b)" "sched_ok C ?n bs"
    "sched_ok C (cj_timeA st) as"
    using nxt by (auto simp: cj_next_def sched_ok_Cons dest: sched_ok_time)
  have v: "valid (cj_totalA st)" "valid (cj_totalB st)" using inv by (auto simp: cj_inv_def)
  have "\<exists>st'. cj_update C ?n (st\<lparr>cj_totalA := cj_totalA st, cj_totalB := ?tb\<rparr>) = Some st' \<and>
      cj_post C S ?n (cj_totalA st) ?tb st st'"
    by (rule cj_update_spec [OF inv ok(1,2)])
      (use v ok in \<open>auto simp: Add_valid Add_amount amount_nonneg\<close>)
  then obtain st' where st': "cj_update C ?n (st\<lparr>cj_totalB := ?tb\<rparr>) = Some st'"
    "cj_post C S ?n (cj_totalA st) ?tb st st'" by auto
  let ?st = "st'\<lparr>cj_timeA := cj_timeA st, cj_timeB := ?n\<rparr>"
  have "\<And>p ps. bs = p # ps \<Longrightarrow> 0 \<le> Length p" using ok(4) by (auto simp: sched_ok_Cons)
  then have "cj_next C as bs ?st"
    using st'(2) ok first by (fastforce simp: cj_post_def cj_next_def)
  moreover have "cj_val C S as bs ?st t d = cj_val C S as (b # bs) st t d" for t d
    by (rule cj_post_val [OF inv st'(2)])
      (use v ok first in \<open>auto simp: Add_amount sched_ok_def sched_at_before
          intro!: sched_at_first [unfolded sched_ok_def] dest!: first\<close>)
  moreover have "st'\<lparr>cj_timeB := ?n\<rparr> = ?st" using st'(2) by (simp add: cj_post_def)
  then have "cj_consumeB C ?n b st = Some ?st" using st'(1) by (simp add: cj_consumeB_def)
  ultimately show ?thesis
    using cj_post_inv [OF st'(2)] by blast
qed

lemma cj_step_both:
  assumes inv: "cj_inv C S st" and nxt: "cj_next C (a # as) (b # bs) st"
    and same: "cj_timeA st + Length a = cj_timeB st + Length b"
  shows "\<exists>st'. cj_consumeBoth C (cj_timeA st + Length a) a b st = Some st' \<and> cj_inv C S st' \<and>
           cj_next C as bs st' \<and>
           (\<forall>t d. cj_val C S as bs st' t d = cj_val C S (a # as) (b # bs) st t d)"
proof -
  let ?n = "cj_timeA st + Length a" and ?ta = "coins_Add C (cj_totalA st) (Amount a)"
    and ?tb = "coins_Add C (cj_totalB st) (Amount b)"
  have ok: "time_ok ?n" "cj_time st \<le> ?n" "valid (Amount a)" "valid (Amount b)"
    "sched_ok C ?n as" "sched_ok C ?n bs"
    using nxt same by (auto simp: cj_next_def sched_ok_Cons dest: sched_ok_time)
  have v: "valid (cj_totalA st)" "valid (cj_totalB st)" using inv by (auto simp: cj_inv_def)
  have "\<exists>st'. cj_update C ?n (st\<lparr>cj_totalA := ?ta, cj_totalB := ?tb\<rparr>) = Some st' \<and>
      cj_post C S ?n ?ta ?tb st st'"
    by (rule cj_update_spec [OF inv ok(1,2)])
      (use v ok in \<open>auto simp: Add_valid Add_amount amount_nonneg\<close>)
  then obtain st' where st': "cj_update C ?n (st\<lparr>cj_totalA := ?ta, cj_totalB := ?tb\<rparr>) = Some st'"
    "cj_post C S ?n ?ta ?tb st st'" by auto
  let ?st = "st'\<lparr>cj_timeA := ?n, cj_timeB := ?n\<rparr>"
  have "\<And>p ps. as = p # ps \<Longrightarrow> 0 \<le> Length p" "\<And>p ps. bs = p # ps \<Longrightarrow> 0 \<le> Length p"
    using ok by (auto simp: sched_ok_Cons)
  then have "cj_next C as bs ?st"
    using st'(2) ok by (fastforce simp: cj_post_def cj_next_def)
  moreover have "cj_val C S as bs ?st t d = cj_val C S (a # as) (b # bs) st t d" for t d
    by (rule cj_post_val [OF inv st'(2)])
      (use v ok same in \<open>auto simp: Add_amount sched_ok_def sched_at_before\<close>)
  ultimately show ?thesis
    using st'(1) cj_post_inv [OF st'(2)] by (auto simp: cj_consumeBoth_def)
qed

lemma cj_next_time:
  "cj_next C (a # as) bs st \<Longrightarrow> i64 (cj_timeA st + Length a) = cj_timeA st + Length a"
  "cj_next C as (b # bs) st \<Longrightarrow> i64 (cj_timeB st + Length b) = cj_timeB st + Length b"
  by (auto simp: cj_next_def intro: time_ok_id sched_ok_next)

lemma cj_restA_spec:
  "cj_inv C S st \<Longrightarrow> cj_next C as [] st \<Longrightarrow>
   \<exists>st'. cj_restA C as st = Some st' \<and> cj_inv C S st' \<and> cj_next C [] [] st' \<and>
     (\<forall>t d. cj_val C S [] [] st' t d = cj_val C S as [] st t d)"
proof (induction as arbitrary: st)
  case (Cons a as)
  from cj_step_A [OF Cons.prems] obtain st' where st': "cj_inv C S st'" "cj_next C as [] st'"
    "cj_consumeA C (cj_timeA st + Length a) a st = Some st'"
    "\<forall>t d. cj_val C S as [] st' t d = cj_val C S (a # as) [] st t d" by blast
  then show ?case
    using Cons.IH [OF st'(1,2)] cj_next_time(1) [OF Cons.prems(2)] by auto
qed simp

lemma cj_restB_spec:
  "cj_inv C S st \<Longrightarrow> cj_next C [] bs st \<Longrightarrow>
   \<exists>st'. cj_restB C bs st = Some st' \<and> cj_inv C S st' \<and> cj_next C [] [] st' \<and>
     (\<forall>t d. cj_val C S [] [] st' t d = cj_val C S [] bs st t d)"
proof (induction bs arbitrary: st)
  case (Cons b bs)
  from cj_step_B [OF Cons.prems] obtain st' where st': "cj_inv C S st'" "cj_next C [] bs st'"
    "cj_consumeB C (cj_timeB st + Length b) b st = Some st'"
    "\<forall>t d. cj_val C S [] bs st' t d = cj_val C S [] (b # bs) st t d" by blast
  then show ?case
    using Cons.IH [OF st'(1,2)] cj_next_time(2) [OF Cons.prems(2)] by auto
qed simp

lemma cj_loop_spec:
  "cj_inv C S st \<Longrightarrow> cj_next C as bs st \<Longrightarrow>
   \<exists>st'. cj_loop C as bs st = Some st' \<and> cj_inv C S st' \<and>
     (\<forall>t d. cj_val C S [] [] st' t d = cj_val C S as bs st t d)"
proof (induction "length as + length bs" arbitrary: as bs st rule: less_induct)
  case less
  show ?case
  proof (cases "as = [] \<or> bs = []")
    case True
    then have loop: "cj_loop C as bs st = Option.bind (cj_restA C as st) (cj_restB C bs)"
      by (cases as; cases bs) auto
    show ?thesis
    proof (cases "bs = []")
      case True
      then obtain st' where "cj_restA C as st = Some st'" "cj_inv C S st'"
        "\<forall>t d. cj_val C S [] [] st' t d = cj_val C S as [] st t d"
        using cj_restA_spec [of S st as] less.prems by blast
      then show ?thesis by (simp add: loop True)
    next
      case False
      with True have "as = []" by simp
      then show ?thesis using cj_restB_spec [of S st bs] less.prems by (auto simp: loop)
    qed
  next
    case False
    then obtain a as' b bs' where ab: "as = a # as'" "bs = b # bs'" by (meson list.exhaust)
    note nxt = less.prems(2) [unfolded ab]
    note eq = cj_next_time [OF nxt]
    let ?a = "cj_timeA st + Length a" and ?b = "cj_timeB st + Length b"
    consider "?a < ?b" | "?b < ?a" | "?a = ?b" by linarith
    then show ?thesis
    proof cases
      case 1
      then obtain st' where st': "cj_consumeA C ?a a st = Some st'" "cj_inv C S st'"
        "cj_next C as' (b # bs') st'"
        "\<forall>t d. cj_val C S as' (b # bs') st' t d = cj_val C S (a # as') (b # bs') st t d"
        using cj_step_A [OF less.prems(1) nxt] by force
      show ?thesis using less.hyps [OF _ st'(2,3)] st'(1,4) 1 by (auto simp: ab eq)
    next
      case 2
      then obtain st' where st': "cj_consumeB C ?b b st = Some st'" "cj_inv C S st'"
        "cj_next C (a # as') bs' st'"
        "\<forall>t d. cj_val C S (a # as') bs' st' t d = cj_val C S (a # as') (b # bs') st t d"
        using cj_step_B [OF less.prems(1) nxt] by force
      show ?thesis using less.hyps [OF _ st'(2,3)] st'(1,4) 2 by (auto simp: ab eq)
    next
      case 3
      then obtain st' where st': "cj_consumeBoth C ?a a b st = Some st'" "cj_inv C S st'"
        "cj_next C as' bs' st'"
        "\<forall>t d. cj_val C S as' bs' st' t d = cj_val C S (a # as') (b # bs') st t d"
        using cj_step_both [OF less.prems(1) nxt] by blast
      show ?thesis using less.hyps [OF _ st'(2,3)] st'(1,4) 3 by (auto simp: ab eq)
    qed
  qed
qed

lemma ConjunctPeriods_spec:
  assumes "sched_ok C startA as" and "sched_ok C startB bs"
  shows "\<exists>e ps. ConjunctPeriods C startA startB as bs = Some (Min64 startA startB, e, ps) \<and>
           sched_ok C (Min64 startA startB) ps \<and> e = Min64 startA startB + tlen ps \<and>
           (\<forall>p \<in> set ps. \<not> coins_IsZero C (Amount p)) \<and>
           (\<forall>t d. sched_at C (Min64 startA startB) ps t d =
              min (sched_at C startA as t d) (sched_at C startB bs t d))"
proof -
  let ?S = "Min64 startA startB"
  let ?st = "\<lparr>cj_timeA = startA, cj_timeB = startB, cj_time = ?S, cj_periods = [],
    cj_amount = [], cj_totalA = [], cj_totalB = []\<rparr>"
  have S: "time_ok ?S" using assms by (auto simp: Min64_def dest: sched_ok_time)
  have "cj_inv C ?S ?st" using S by (simp add: cj_inv_def valid_empty amount_empty)
  moreover have "cj_next C as bs ?st"
    using assms by (auto simp: cj_next_def Min64_def sched_ok_Cons)
  ultimately obtain st' where st': "cj_loop C as bs ?st = Some st'" "cj_inv C ?S st'"
    "\<forall>t d. cj_val C ?S [] [] st' t d = cj_val C ?S as bs ?st t d"
    using cj_loop_spec by blast
  then have "\<forall>t d. sched_at C ?S (cj_periods st') t d = min (sched_at C startA as t d) (sched_at C startB bs t d)"
    by (simp add: cj_val_def amount_empty)
  with st' S show ?thesis
    by (auto simp: ConjunctPeriods_def Let_def cj_inv_def sched_ok_def)
qed

lemma DisjunctPeriods_spec:
  assumes "sched_ok C startA as" and "sched_ok C startB bs"
  shows "\<exists>e ps. DisjunctPeriods C startA startB as bs = (Min64 startA startB, e, ps) \<and>
           sched_ok C (Min64 startA startB) ps \<and> e = Min64 startA startB + tlen ps \<and>
           (as \<noteq> [] \<longrightarrow> bs \<noteq> [] \<longrightarrow> e = max (startA + tlen as) (startB + tlen bs)) \<and>
           (\<forall>t d. sched_at C (Min64 startA startB) ps t d =
              sched_at C startA as t d + sched_at C startB bs t d)"
proof -
  let ?S = "Min64 startA startB"
  define st where "st = \<lparr>dj_timeA = startA, dj_timeB = startB, dj_end = ?S, dj_periods = []\<rparr>"
  define st' where "st' = dj_loop C as bs st"
  have inv: "dj_inv C ?S as bs st" unfolding st_def by (rule DisjunctPeriods_inv [OF assms])
  have "dj_inv C ?S [] [] st'" "dj_end st' = dj_end_spec as bs st"
    and val: "\<And>t d. sched_at C ?S (dj_periods st') t d =
                 sched_at C startA as t d + sched_at C startB bs t d"
    using dj_loop_spec [OF inv] by (simp_all add: st'_def) (simp_all add: st_def)
  moreover have "time_ok ?S" using assms by (auto simp: Min64_def dest: sched_ok_time)
  moreover have "DisjunctPeriods C startA startB as bs = (?S, dj_end st', dj_periods st')"
    by (simp add: DisjunctPeriods_def Let_def st'_def st_def)
  ultimately show ?thesis
    by (auto simp: dj_inv_def sched_ok_def val) (auto simp: dj_end_spec_def st_def)
qed

end

section \<open>Totals of the SDK's \<open>Periods\<close> and aligning\<close>

text \<open>
  \<open>Periods.TotalLength\<close> and \<open>Periods.TotalAmount\<close> belong to the SDK: parameters with the
  behaviour their documentation gives.
\<close>

record periods_ops =
  TotalLength :: "period list \<Rightarrow> int"
  TotalAmount :: "period list \<Rightarrow> coins"

locale periods_laws = coins_laws C for C :: coins_ops +
  fixes P :: periods_ops
  assumes TotalLength_eq: "TotalLength P ps = i64 (tlen ps)"
    and TotalAmount_valid: "periods_ok C ps \<Longrightarrow> coins_IsValid C (TotalAmount P ps)"
    and TotalAmount_amount: "periods_ok C ps \<Longrightarrow> coins_AmountOf C (TotalAmount P ps) d = sched_total C ps d"
begin

lemma TotalAmount_AllLTE:
  assumes "periods_ok C ps" "periods_ok C qs"
  shows "coins_IsAllLTE C (TotalAmount P ps) (TotalAmount P qs) \<longleftrightarrow>
           (\<forall>d. sched_total C ps d \<le> sched_total C qs d)"
  using assms by (simp add: IsAllLTE_iff TotalAmount_valid TotalAmount_amount)

end

definition std_TotalAmount :: "period list \<Rightarrow> coins" where
  "std_TotalAmount ps = foldl (\<lambda>acc p. coins_Add std_coins acc (Amount p)) [] ps"

definition std_periods :: periods_ops where
  "std_periods = \<lparr>TotalLength = (\<lambda>ps. i64 (tlen ps)), TotalAmount = std_TotalAmount\<rparr>"

lemma std_TotalAmount_fold:
  "periods_ok std_coins ps \<Longrightarrow> coins_IsValid std_coins acc \<Longrightarrow>
   coins_IsValid std_coins (foldl (\<lambda>acc p. coins_Add std_coins acc (Amount p)) acc ps) \<and>
   coins_AmountOf std_coins (foldl (\<lambda>acc p. coins_Add std_coins acc (Amount p)) acc ps) d =
     coins_AmountOf std_coins acc d + sched_total std_coins ps d"
  by (induction ps arbitrary: acc) (auto simp: std.Add_valid std.Add_amount)

interpretation stdp: periods_laws std_coins std_periods
  using std_TotalAmount_fold [of _ "[]"]
  by unfold_locales (auto simp: std_periods_def std_TotalAmount_def std.valid_empty std.amount_empty)

text \<open>A schedule written relative to an earlier start.\<close>

lemma extend_first_sched:
  assumes "sched_ok C start ps" and "time_ok S" and "S \<le> start"
  shows "sched_at C S (extend_first (start - S) ps) t d = sched_at C start ps t d"
    and "ps \<noteq> [] \<Longrightarrow> S + tlen (extend_first (start - S) ps) = start + tlen ps"
    and "sched_ok C S (extend_first (start - S) ps)"
    and "sched_total C (extend_first n ps) d = sched_total C ps d"
proof -
  have "i64 (Length p + (start - S)) = Length p + (start - S)" if "ps = p # qs" for p qs
  proof -
    have "time_ok (start + Length p)" using assms that by (auto dest: sched_ok_next)
    from time_ok_diff [OF this assms(2)] show ?thesis by (simp add: algebra_simps)
  qed
  then show "sched_at C S (extend_first (start - S) ps) t d = sched_at C start ps t d"
    "ps \<noteq> [] \<Longrightarrow> S + tlen (extend_first (start - S) ps) = start + tlen ps"
    "sched_ok C S (extend_first (start - S) ps)"
    "sched_total C (extend_first n ps) d = sched_total C ps d"
    using assms by (cases ps; simp add: sched_ok_Cons sched_ok_Nil algebra_simps)+
qed

lemma extend_first_0: "(\<And>p qs. ps = p # qs \<Longrightarrow> in_i64 (Length p)) \<Longrightarrow> extend_first 0 ps = ps"
  by (cases ps) (auto simp: i64_id)

lemma sched_ok_lengths: "sched_ok C start ps \<Longrightarrow> p \<in> set ps \<Longrightarrow> in_i64 (Length p)"
proof (induction ps arbitrary: start)
  case (Cons q ps)
  then show ?case
    using sched_ok_next [OF Cons.prems(1)] sched_ok_time [OF Cons.prems(1)]
    by (auto simp: sched_ok_Cons in_i64_def time_ok_def)
qed simp

lemma sched_ok_span: "sched_ok C start ps \<Longrightarrow> i64 (tlen ps) = tlen ps"
  using tlen_nonneg [of C ps]
  by (intro i64_id) (auto simp: sched_ok_def in_i64_def time_ok_def)

lemma sched_ok_end: "sched_ok C start ps \<Longrightarrow> i64 (start + tlen ps) = start + tlen ps"
  by (auto simp: sched_ok_def time_ok_id)

lemma extend_first_Nil_iff [simp]: "extend_first n ps = [] \<longleftrightarrow> ps = []"
  by (cases ps) simp_all

lemma Min64_min: "Min64 a b = min a b"
  by (simp add: Min64_def)

lemma Max64_max: "Max64 a b = max a b"
  by (simp add: Max64_def)

lemma AlignSchedules_spec:
  assumes "periods_laws C P" and "sched_ok C startA as" and "sched_ok C startB bs"
  shows "AlignSchedules (TotalLength P) startA startB as bs =
           (min startA startB,
            max (min startA startB + tlen (extend_first (startA - min startA startB) as))
                (min startA startB + tlen (extend_first (startB - min startA startB) bs)),
            extend_first (startA - min startA startB) as,
            extend_first (startB - min startA startB) bs)"
proof -
  let ?S = "min startA startB"
  have S: "time_ok ?S" "time_ok startA" "time_ok startB"
    using assms(2,3) by (auto simp: min_def dest: sched_ok_time)
  then have d: "i64 (startA - ?S) = startA - ?S" "i64 (startB - ?S) = startB - ?S"
    by (auto intro: time_ok_diff)
  have ok: "sched_ok C ?S (extend_first (startA - ?S) as)" "sched_ok C ?S (extend_first (startB - ?S) bs)"
    using assms(2,3) S by (auto intro: extend_first_sched)
  show ?thesis
    by (simp only: AlignSchedules_def Let_def Min64_min Max64_max d
        periods_laws.TotalLength_eq [OF assms(1)] ok [THEN sched_ok_span] ok [THEN sched_ok_end])
qed

lemmas sched_eval = sched_ok_def periods_ok_def time_ok_def sched_total_def tlen_def

definition ex_vesting :: "period list" where
  "ex_vesting = [\<lparr>Length = 10, Amount = [oneCoin ''aevmos'' 5]\<rparr>,
                 \<lparr>Length = 20, Amount = [oneCoin ''aevmos'' 7]\<rparr>]"

definition ex_lockup :: "period list" where
  "ex_lockup = [\<lparr>Length = 15, Amount = [oneCoin ''aevmos'' 12]\<rparr>]"

lemma ex_sched_ok: "sched_ok std_coins 100 ex_vesting" "sched_ok std_coins 103 ex_lockup"
  by (simp_all add: sched_eval ex_vesting_def ex_lockup_def std_defs)

lemma ex_total:
  "coins_AmountOf std_coins [oneCoin ''aevmos'' 12] d = sched_total std_coins ex_vesting d"
  "coins_AmountOf std_coins [oneCoin ''aevmos'' 12] d = sched_total std_coins ex_lockup d"
  by (simp_all add: ex_vesting_def ex_lockup_def std_defs)

section \<open>Properties\<close>

text \<open>C1.  Reading a schedule whose end time and total agree with its periods gives, for every
  denomination, nothing up to the start time and from then on the sum of the periods whose event
  has been reached; the reading never decreases with time and never exceeds the total.\<close>

theorem ReadSchedule_correct:
  assumes "coins_laws C" and "sched_ok C start ps" and "start + tlen ps \<le> end_time"
    and "\<And>d. coins_AmountOf C tot d = sched_total C ps d"
  shows "coins_AmountOf C (ReadSchedule C start end_time ps tot t) d =
           (if t \<le> start then 0 else sched_at C start ps t d)
       \<and> (t \<le> t' \<longrightarrow> coins_AmountOf C (ReadSchedule C start end_time ps tot t) d
                       \<le> coins_AmountOf C (ReadSchedule C start end_time ps tot t') d)
       \<and> coins_AmountOf C (ReadSchedule C start end_time ps tot t) d \<le> coins_AmountOf C tot d"
proof -
  have ps: "periods_ok C ps" using assms(2) by (simp add: sched_ok_def)
  note L = coins_laws.ReadSchedule_amount [OF assms] coins_laws.sched_at_nonneg [OF assms(1) ps]
    coins_laws.sched_at_mono [OF assms(1) ps] coins_laws.sched_at_le_total [OF assms(1) ps]
    coins_laws.sched_total_nonneg [OF assms(1) ps]
  show ?thesis by (simp add: L assms(4))
qed

theorem ReadSchedule_correct_witness:
  "coins_AmountOf std_coins (ReadSchedule std_coins 100 130 ex_vesting [oneCoin ''aevmos'' 12] 115) ''aevmos'' = 5
   \<and> coins_AmountOf std_coins (ReadSchedule std_coins 100 130 ex_vesting [oneCoin ''aevmos'' 12] 115) ''aevmos''
      \<le> coins_AmountOf std_coins (ReadSchedule std_coins 100 130 ex_vesting [oneCoin ''aevmos'' 12] 125) ''aevmos''"
  using ReadSchedule_correct [OF std.coins_laws_axioms ex_sched_ok(1) _ ex_total(1), of 130 115 "''aevmos''" 125]
  by (simp add: ex_vesting_def std_defs)

text \<open>C2.  \<open>DisjunctPeriods\<close> returns the sum of the two schedules: it starts at the earlier start,
  its periods reach exactly the returned end time (the later of the two ends), and at every time
  the merged schedule has released the sum of what the two schedules have released.\<close>

theorem DisjunctPeriods_sum:
  assumes "coins_laws C" and "sched_ok C startA as" and "sched_ok C startB bs"
    and "DisjunctPeriods C startA startB as bs = (s, e, ps)"
  shows "s = min startA startB \<and> sched_ok C s ps \<and> e = s + tlen ps
       \<and> (as \<noteq> [] \<longrightarrow> bs \<noteq> [] \<longrightarrow> e = max (startA + tlen as) (startB + tlen bs))
       \<and> (\<forall>t d. sched_at C s ps t d = sched_at C startA as t d + sched_at C startB bs t d)"
  using coins_laws.DisjunctPeriods_spec [OF assms(1-3)] assms(4) by (auto simp: Min64_min)

theorem DisjunctPeriods_sum_witness:
  "\<exists>s e ps. DisjunctPeriods std_coins 100 103 ex_vesting ex_lockup = (s, e, ps)
     \<and> e = 130 \<and> length ps = 3 \<and> sched_at std_coins s ps 120 ''aevmos'' = 17"
  using DisjunctPeriods_sum [OF std.coins_laws_axioms ex_sched_ok]
  by (simp add: ex_vesting_def ex_lockup_def DisjunctPeriods_def Let_def Min64_def i64_id in_i64_def
      dj_emit_def dj_consume_defs std_defs)

text \<open>C3.  \<open>ConjunctPeriods\<close> never panics and returns the minimum of the two schedules: at every
  time the result has released, for each denomination, the smaller of what the two have
  released, every period of the result releases something, and the returned end time is the time
  of its last event.\<close>

theorem ConjunctPeriods_min:
  assumes "coins_laws C" and "sched_ok C startA as" and "sched_ok C startB bs"
  shows "\<exists>e ps. ConjunctPeriods C startA startB as bs = Some (min startA startB, e, ps)
       \<and> sched_ok C (min startA startB) ps \<and> e = min startA startB + tlen ps
       \<and> (\<forall>p \<in> set ps. \<not> coins_IsZero C (Amount p))
       \<and> (\<forall>t d. sched_at C (min startA startB) ps t d =
                min (sched_at C startA as t d) (sched_at C startB bs t d))"
  using coins_laws.ConjunctPeriods_spec [OF assms] by (simp add: Min64_min)

theorem ConjunctPeriods_min_witness:
  "\<exists>e ps. ConjunctPeriods std_coins 100 103 ex_vesting ex_lockup = Some (100, e, ps)
     \<and> sched_at std_coins 100 ps 120 ''aevmos'' = 5"
  using ConjunctPeriods_min [OF std.coins_laws_axioms ex_sched_ok]
  by (auto simp: ex_vesting_def ex_lockup_def std_defs)

text \<open>C4.  \<open>AlignSchedules\<close> moves two non-empty schedules to their common earlier start without
  changing what either has released at any time, and the returned end time is the later of the
  two ends.\<close>

theorem AlignSchedules_preserves:
  assumes "periods_laws C P" and "sched_ok C startA as" and "sched_ok C startB bs"
    and "as \<noteq> []" and "bs \<noteq> []"
    and "AlignSchedules (TotalLength P) startA startB as bs = (s, e, as', bs')"
  shows "s = min startA startB \<and> e = max (startA + tlen as) (startB + tlen bs)
       \<and> sched_at C s as' t d = sched_at C startA as t d
       \<and> sched_at C s bs' t d = sched_at C startB bs t d"
proof -
  have "time_ok (min startA startB)" using assms(2,3) by (auto simp: min_def dest: sched_ok_time)
  then show ?thesis
    using assms(4-6) extend_first_sched [OF assms(2), of "min startA startB"]
      extend_first_sched [OF assms(3), of "min startA startB"]
    by (auto simp: AlignSchedules_spec [OF assms(1-3)])
qed

theorem AlignSchedules_preserves_witness:
  "\<exists>as bs. AlignSchedules (TotalLength std_periods) 100 103 ex_vesting ex_lockup = (100, 130, as, bs)
     \<and> sched_at std_coins 100 bs 117 ''aevmos'' = 0 \<and> sched_at std_coins 100 bs 118 ''aevmos'' = 12"
  using AlignSchedules_preserves [OF stdp.periods_laws_axioms ex_sched_ok, of _ _ _ _ 117 "''aevmos''"]
    AlignSchedules_preserves [OF stdp.periods_laws_axioms ex_sched_ok, of _ _ _ _ 118 "''aevmos''"]
  by (simp add: ex_vesting_def ex_lockup_def AlignSchedules_def std_periods_def Let_def Min64_def
      Max64_def i64_id in_i64_def tlen_def std_defs)

end
