(* ===== verification/Vesting_Account.thy ===== *)
theory Vesting_Account
  imports Vesting_Schedule
begin

text \<open>
  \<open>x/vesting/types/clawback_vesting_account.go\<close>: the clawback vesting account, its getters, its
  validation and \<open>ComputeClawback\<close>.  The SDK's \<open>BaseVestingAccount\<close> is a record here, its methods
  \<open>LockedCoinsFromVesting\<close>, \<open>TrackDelegation\<close> and \<open>Validate\<close> are parameters.  A getter that
  subtracts coins can panic in Go; its model gives \<open>None\<close> there.  \<open>ComputeClawback\<close> works on a copy
  of the account whose \<open>BaseVestingAccount\<close> is still shared with the receiver; the callers use the
  returned account only, and so does the model.
\<close>

section \<open>The account\<close>

record base_account =
  acc_Address :: addr
  acc_PubKey :: "bytes option"
  acc_Number :: int
  acc_Sequence :: int

record base_vesting_account =
  BaseAccount :: base_account
  OriginalVesting :: coins
  DelegatedFree :: coins
  DelegatedVesting :: coins
  EndTime :: int

record clawback_account =
  BVA :: base_vesting_account
  FunderAddress :: string
  StartTime :: time
  LockupPeriods :: "period list"
  VestingPeriods :: "period list"

record bva_ops =
  LockedCoinsFromVesting :: "base_vesting_account \<Rightarrow> coins \<Rightarrow> coins"
  bva_TrackDelegation :: "base_vesting_account \<Rightarrow> coins \<Rightarrow> coins \<Rightarrow> coins \<Rightarrow> base_vesting_account option"
  bva_Validate :: "base_vesting_account \<Rightarrow> unit outcome"

definition NewClawbackVestingAccount ::
  "bech32_ops \<Rightarrow> periods_ops \<Rightarrow> base_account \<Rightarrow> addr \<Rightarrow> coins \<Rightarrow> time \<Rightarrow> period list \<Rightarrow> period list
     \<Rightarrow> clawback_account" where
  "NewClawbackVestingAccount H P baseAcc funder originalVesting startTime lockupPeriods vestingPeriods =
     (let (_, endTime, lp, vp) =
        AlignSchedules (TotalLength P) (Unix startTime) (Unix startTime) lockupPeriods vestingPeriods
      in \<lparr>BVA = \<lparr>BaseAccount = baseAcc, OriginalVesting = originalVesting, DelegatedFree = [],
                 DelegatedVesting = [], EndTime = endTime\<rparr>,
          FunderAddress = acc_String H funder, StartTime = startTime, LockupPeriods = lp, VestingPeriods = vp\<rparr>)"

definition GetStartTime :: "clawback_account \<Rightarrow> int" where
  "GetStartTime va = Unix (StartTime va)"

definition GetEndTime :: "clawback_account \<Rightarrow> int" where
  "GetEndTime va = EndTime (BVA va)"

definition GetVestingPeriods :: "clawback_account \<Rightarrow> period list" where
  "GetVestingPeriods va = VestingPeriods va"

definition GetUnlockedOnly :: "coins_ops \<Rightarrow> clawback_account \<Rightarrow> time \<Rightarrow> coins" where
  "GetUnlockedOnly C va blockTime =
     ReadSchedule C (GetStartTime va) (EndTime (BVA va)) (LockupPeriods va)
       (OriginalVesting (BVA va)) (Unix blockTime)"

definition GetVestedOnly :: "coins_ops \<Rightarrow> clawback_account \<Rightarrow> time \<Rightarrow> coins" where
  "GetVestedOnly C va blockTime =
     ReadSchedule C (GetStartTime va) (EndTime (BVA va)) (VestingPeriods va)
       (OriginalVesting (BVA va)) (Unix blockTime)"

definition GetVestedCoins :: "coins_ops \<Rightarrow> clawback_account \<Rightarrow> time \<Rightarrow> coins" where
  "GetVestedCoins C va blockTime =
     (let coins = coins_Min C (GetUnlockedOnly C va blockTime) (GetVestedOnly C va blockTime)
      in if coins_IsZero C coins then [] else coins)"

definition GetVestingCoins :: "coins_ops \<Rightarrow> clawback_account \<Rightarrow> time \<Rightarrow> coins option" where
  "GetVestingCoins C va blockTime =
     coins_Sub C (OriginalVesting (BVA va)) (GetVestedCoins C va blockTime)"

definition LockedCoins :: "coins_ops \<Rightarrow> bva_ops \<Rightarrow> clawback_account \<Rightarrow> time \<Rightarrow> coins option" where
  "LockedCoins C B va blockTime =
     map_option (LockedCoinsFromVesting B (BVA va)) (GetVestingCoins C va blockTime)"

definition TrackDelegation ::
  "coins_ops \<Rightarrow> bva_ops \<Rightarrow> clawback_account \<Rightarrow> time \<Rightarrow> coins \<Rightarrow> coins \<Rightarrow> clawback_account option" where
  "TrackDelegation C B va blockTime balance amount =
     Option.bind (GetVestingCoins C va blockTime) (\<lambda>vestingCoins.
       map_option (\<lambda>b. va\<lparr>BVA := b\<rparr>) (bva_TrackDelegation B (BVA va) balance vestingCoins amount))"

definition GetLockedOnly :: "coins_ops \<Rightarrow> clawback_account \<Rightarrow> time \<Rightarrow> coins option" where
  "GetLockedOnly C va blockTime =
     coins_Sub C (OriginalVesting (BVA va)) (GetUnlockedOnly C va blockTime)"

definition GetUnvestedOnly :: "coins_ops \<Rightarrow> clawback_account \<Rightarrow> time \<Rightarrow> coins option" where
  "GetUnvestedOnly C va blockTime =
     coins_Sub C (OriginalVesting (BVA va)) (GetVestedOnly C va blockTime)"

definition GetPassedPeriodCount :: "clawback_account \<Rightarrow> time \<Rightarrow> nat" where
  "GetPassedPeriodCount va blockTime =
     ReadPastPeriodCount (GetStartTime va) (EndTime (BVA va)) (VestingPeriods va) (Unix blockTime)"

definition HasLockedCoins :: "coins_ops \<Rightarrow> clawback_account \<Rightarrow> time \<Rightarrow> bool option" where
  "HasLockedCoins C va blockTime = map_option (\<lambda>c. \<not> coins_IsZero C c) (GetLockedOnly C va blockTime)"

text \<open>The loop of \<open>Validate\<close> over one of the two period slices: its end and its coins.\<close>

fun sum_periods :: "coins_ops \<Rightarrow> int \<Rightarrow> coins \<Rightarrow> period list \<Rightarrow> int \<times> coins" where
  "sum_periods C end_time coins [] = (end_time, coins)"
| "sum_periods C end_time coins (p # ps) =
     sum_periods C (i64 (end_time + Length p)) (coins_Add C coins (Amount p)) ps"

definition va_Validate :: "coins_ops \<Rightarrow> bva_ops \<Rightarrow> clawback_account \<Rightarrow> unit outcome" where
  "va_Validate C B va =
     (if GetStartTime va \<ge> GetEndTime va
      then Err (ErrPlain ''vesting start-time must be before end-time'') else
      let (lockupEnd, lockupCoins) = sum_periods C (GetStartTime va) [] (LockupPeriods va) in
      if lockupEnd > EndTime (BVA va)
      then Err (ErrPlain ''lockup schedule extends beyond account end time'') else
      if \<not> coinEq C lockupCoins (OriginalVesting (BVA va))
      then Err (ErrPlain ''original vesting coins does not match the sum of all coins in lockup periods'') else
      let (vestingEnd, vestingCoins) = sum_periods C (GetStartTime va) [] (VestingPeriods va) in
      if vestingEnd > EndTime (BVA va)
      then Err (ErrPlain ''vesting schedule exteds beyond account end time'') else
      if \<not> coinEq C vestingCoins (OriginalVesting (BVA va))
      then Err (ErrPlain ''original vesting coins does not match the sum of all coins in vesting periods'') else
      bva_Validate B (BVA va))"

definition ComputeClawback ::
  "coins_ops \<Rightarrow> periods_ops \<Rightarrow> clawback_account \<Rightarrow> int \<Rightarrow> (clawback_account \<times> coins) option" where
  "ComputeClawback C P va clawbackTime =
     (if clawbackTime < GetStartTime va then Some (va, []) else
      let totalVested = GetVestedOnly C va (time_Unix clawbackTime) in
      Option.bind (GetUnvestedOnly C va (time_Unix clawbackTime)) (\<lambda>totalUnvested.
      let passedPeriodID = GetPassedPeriodCount va (time_Unix clawbackTime);
          newVestingPeriods = take passedPeriodID (VestingPeriods va);
          newVestingEnd = i64 (GetStartTime va + TotalLength P newVestingPeriods);
          capPeriods = [\<lparr>Length = 0, Amount = totalVested\<rparr>] in
      map_option (\<lambda>(_, newLockingEnd, newLockupPeriods).
        (va\<lparr>BVA := (BVA va)\<lparr>OriginalVesting := totalVested,
                            EndTime := Max64 newVestingEnd newLockingEnd\<rparr>,
            LockupPeriods := newLockupPeriods,
            VestingPeriods := newVestingPeriods\<rparr>, totalUnvested))
        (ConjunctPeriods C (GetStartTime va) (GetStartTime va) (LockupPeriods va) capPeriods)))"

section \<open>Well-formed accounts\<close>

text \<open>Both schedules are well formed, end by the account's end time and release the original
  vesting.\<close>

definition va_ok :: "coins_ops \<Rightarrow> clawback_account \<Rightarrow> bool" where
  "va_ok C va \<longleftrightarrow>
     sched_ok C (GetStartTime va) (LockupPeriods va) \<and> sched_ok C (GetStartTime va) (VestingPeriods va) \<and>
     GetStartTime va + tlen (LockupPeriods va) \<le> EndTime (BVA va) \<and>
     GetStartTime va + tlen (VestingPeriods va) \<le> EndTime (BVA va) \<and>
     coins_IsValid C (OriginalVesting (BVA va)) \<and>
     (\<forall>d. coins_AmountOf C (OriginalVesting (BVA va)) d = sched_total C (LockupPeriods va) d) \<and>
     (\<forall>d. coins_AmountOf C (OriginalVesting (BVA va)) d = sched_total C (VestingPeriods va) d)"

text \<open>What has been released of each schedule at a time in seconds.\<close>

definition unlocked_at :: "coins_ops \<Rightarrow> clawback_account \<Rightarrow> int \<Rightarrow> denom \<Rightarrow> int" where
  "unlocked_at C va t d =
     (if t \<le> GetStartTime va then 0 else sched_at C (GetStartTime va) (LockupPeriods va) t d)"

definition vested_at :: "coins_ops \<Rightarrow> clawback_account \<Rightarrow> int \<Rightarrow> denom \<Rightarrow> int" where
  "vested_at C va t d =
     (if t \<le> GetStartTime va then 0 else sched_at C (GetStartTime va) (VestingPeriods va) t d)"

lemma va_okD:
  assumes "va_ok C va"
  shows "sched_ok C (GetStartTime va) (LockupPeriods va)" "sched_ok C (GetStartTime va) (VestingPeriods va)"
    "GetStartTime va + tlen (LockupPeriods va) \<le> EndTime (BVA va)"
    "GetStartTime va + tlen (VestingPeriods va) \<le> EndTime (BVA va)"
    "coins_IsValid C (OriginalVesting (BVA va))"
    "coins_AmountOf C (OriginalVesting (BVA va)) d = sched_total C (LockupPeriods va) d"
    "coins_AmountOf C (OriginalVesting (BVA va)) d = sched_total C (VestingPeriods va) d"
    "periods_ok C (LockupPeriods va)" "periods_ok C (VestingPeriods va)"
  using assms by (auto simp: va_ok_def sched_ok_def)

context coins_laws
begin

lemma GetUnlockedOnly_amount:
  "va_ok C va \<Longrightarrow> amt (GetUnlockedOnly C va t) d = unlocked_at C va (Unix t) d"
  by (simp add: GetUnlockedOnly_def unlocked_at_def ReadSchedule_amount [OF va_okD(1,3,6)])

lemma GetVestedOnly_amount:
  "va_ok C va \<Longrightarrow> amt (GetVestedOnly C va t) d = vested_at C va (Unix t) d"
  by (simp add: GetVestedOnly_def vested_at_def ReadSchedule_amount [OF va_okD(2,4,7)])

lemma GetUnlockedOnly_valid: "va_ok C va \<Longrightarrow> valid (GetUnlockedOnly C va t)"
  by (auto simp: GetUnlockedOnly_def va_ok_def sched_ok_def intro: ReadSchedule_valid)

lemma GetVestedOnly_valid: "va_ok C va \<Longrightarrow> valid (GetVestedOnly C va t)"
  by (auto simp: GetVestedOnly_def va_ok_def sched_ok_def intro: ReadSchedule_valid)

lemma unlocked_at_bounds:
  "va_ok C va \<Longrightarrow> 0 \<le> unlocked_at C va t d"
  "va_ok C va \<Longrightarrow> unlocked_at C va t d \<le> amt (OriginalVesting (BVA va)) d"
  by (auto simp: unlocked_at_def va_ok_def sched_ok_def sched_at_nonneg sched_at_le_total sched_total_nonneg)

lemma vested_at_bounds:
  "va_ok C va \<Longrightarrow> 0 \<le> vested_at C va t d"
  "va_ok C va \<Longrightarrow> vested_at C va t d \<le> amt (OriginalVesting (BVA va)) d"
  by (auto simp: vested_at_def va_okD(7) sched_at_nonneg sched_at_le_total sched_total_nonneg va_okD(9))

lemma vested_at_mono: "va_ok C va \<Longrightarrow> t \<le> t' \<Longrightarrow> vested_at C va t d \<le> vested_at C va t' d"
  by (auto simp: vested_at_def va_ok_def sched_ok_def sched_at_nonneg sched_at_mono)

lemma va_ok_Original: "va_ok C va \<Longrightarrow> valid (OriginalVesting (BVA va))"
  by (simp add: va_ok_def)

lemma GetVestedCoins_spec:
  assumes "va_ok C va"
  shows "valid (GetVestedCoins C va t)"
    and "amt (GetVestedCoins C va t) d = min (unlocked_at C va (Unix t) d) (vested_at C va (Unix t) d)"
proof -
  let ?m = "coins_Min C (GetUnlockedOnly C va t) (GetVestedOnly C va t)"
  note v = GetUnlockedOnly_valid [OF assms] GetVestedOnly_valid [OF assms]
  have m: "valid ?m" "\<And>d. amt ?m d = min (unlocked_at C va (Unix t) d) (vested_at C va (Unix t) d)"
    using v by (simp_all add: Min_valid Min_amount GetUnlockedOnly_amount [OF assms] GetVestedOnly_amount [OF assms])
  show "valid (GetVestedCoins C va t)"
    using m by (simp add: GetVestedCoins_def Let_def valid_empty)
  show "amt (GetVestedCoins C va t) d = min (unlocked_at C va (Unix t) d) (vested_at C va (Unix t) d)"
    using m IsZero_iff [OF m(1)] by (auto simp: GetVestedCoins_def Let_def amount_empty)
qed

lemma GetVestingCoins_spec:
  assumes "va_ok C va"
  shows "\<exists>c. GetVestingCoins C va t = Some c \<and> valid c \<and>
           (\<forall>d. amt c d = amt (OriginalVesting (BVA va)) d
                  - min (unlocked_at C va (Unix t) d) (vested_at C va (Unix t) d))"
proof -
  note g = GetVestedCoins_spec [OF assms]
  have "\<And>d. amt (GetVestedCoins C va t) d \<le> amt (OriginalVesting (BVA va)) d"
    using vested_at_bounds(2) [OF assms] by (simp add: g(2) min.coboundedI2)
  from Sub_ok [OF va_ok_Original [OF assms] g(1) this] show ?thesis
    by (simp add: GetVestingCoins_def g(2))
qed

lemma GetLockedOnly_spec:
  assumes "va_ok C va"
  shows "\<exists>c. GetLockedOnly C va t = Some c \<and> valid c \<and>
           (\<forall>d. amt c d = amt (OriginalVesting (BVA va)) d - unlocked_at C va (Unix t) d)"
  using Sub_ok [OF va_ok_Original [OF assms] GetUnlockedOnly_valid [OF assms, of t]]
    unlocked_at_bounds(2) [OF assms]
  by (simp add: GetLockedOnly_def GetUnlockedOnly_amount [OF assms])

lemma GetUnvestedOnly_spec:
  assumes "va_ok C va"
  shows "\<exists>c. GetUnvestedOnly C va t = Some c \<and> valid c \<and>
           (\<forall>d. amt c d = amt (OriginalVesting (BVA va)) d - vested_at C va (Unix t) d)"
  using Sub_ok [OF va_ok_Original [OF assms] GetVestedOnly_valid [OF assms, of t]]
    vested_at_bounds(2) [OF assms]
  by (simp add: GetUnvestedOnly_def GetVestedOnly_amount [OF assms])

end

section \<open>Clawback\<close>

lemma take_passed_at_loop:
  "sched_ok C start ps \<Longrightarrow>
   sched_at C start (take (ReadPastPeriodCount_loop c start 0 ps) ps) t d = sched_at C start ps (min t c) d"
proof (induction ps arbitrary: start)
  case (Cons p ps)
  then have eq: "i64 (start + Length p) = start + Length p"
    by (blast intro: time_ok_id sched_ok_next)
  from Cons.prems have ok: "sched_ok C (start + Length p) ps" by (simp add: sched_ok_Cons)
  show ?case
    using Cons.IH [OF ok]
    by (auto simp: eq ReadPastPeriodCount_loop_add [of c "start + Length p" "Suc 0"])
qed simp

lemma take_passed_at:
  assumes "sched_ok C start ps" "start + tlen ps \<le> end_time" "start < c"
  shows "sched_at C start (take (ReadPastPeriodCount start end_time ps c) ps) t d = sched_at C start ps (min t c) d"
proof (cases "end_time \<le> c")
  case True
  then show ?thesis
    using assms sched_at_after [of C ps start c d] sched_at_after [of C ps start t d]
    by (auto simp: ReadPastPeriodCount_def min_def sched_ok_def)
next
  case False
  then show ?thesis
    using assms by (simp add: ReadPastPeriodCount_def take_passed_at_loop)
qed

context periods_laws
begin

lemma clawback_vesting:
  assumes ok: "va_ok C va" and c: "GetStartTime va \<le> c"
    and vp: "vp = take (GetPassedPeriodCount va (time_Unix c)) (VestingPeriods va)"
  shows "sched_ok C (GetStartTime va) vp"
    and "sched_total C vp d = vested_at C va c d"
    and "i64 (GetStartTime va + TotalLength P vp) = GetStartTime va + tlen vp"
    and "(if t \<le> GetStartTime va then 0 else sched_at C (GetStartTime va) vp t d) = vested_at C va (min t c) d"
proof -
  note vok = va_okD(2,4) [OF ok]
  show s: "sched_ok C (GetStartTime va) vp" unfolding vp by (rule take_sched_ok [OF vok(1)])
  show "i64 (GetStartTime va + TotalLength P vp) = GetStartTime va + tlen vp"
    by (simp add: TotalLength_eq sched_ok_span [OF s] sched_ok_end [OF s])
  show "sched_total C vp d = vested_at C va c d"
  proof (cases "c = GetStartTime va")
    case True
    then show ?thesis by (simp add: vp GetPassedPeriodCount_def ReadPastPeriodCount_def vested_at_def)
  next
    case False
    then show ?thesis
      using c take_passed(1) [OF vok] by (simp add: vp GetPassedPeriodCount_def vested_at_def)
  qed
  show "(if t \<le> GetStartTime va then 0 else sched_at C (GetStartTime va) vp t d) = vested_at C va (min t c) d"
  proof (cases "c = GetStartTime va")
    case True
    then show ?thesis by (simp add: vp GetPassedPeriodCount_def ReadPastPeriodCount_def vested_at_def)
  next
    case False
    then show ?thesis
      using c take_passed_at [OF vok] by (auto simp: vp GetPassedPeriodCount_def vested_at_def min_def)
  qed
qed

lemma clawback_lockup:
  assumes ok: "va_ok C va" and c: "GetStartTime va \<le> c"
  shows "\<exists>ps. ConjunctPeriods C (GetStartTime va) (GetStartTime va) (LockupPeriods va)
             [\<lparr>Length = 0, Amount = GetVestedOnly C va (time_Unix c)\<rparr>]
           = Some (GetStartTime va, GetStartTime va + tlen ps, ps) \<and>
         sched_ok C (GetStartTime va) ps \<and> (\<forall>d. sched_total C ps d = vested_at C va c d) \<and>
         (\<forall>t d. (if t \<le> GetStartTime va then 0 else sched_at C (GetStartTime va) ps t d)
                = min (unlocked_at C va t d) (vested_at C va c d))"
proof -
  let ?s = "GetStartTime va" and ?tv = "GetVestedOnly C va (time_Unix c)"
  note lok = va_okD(1,3) [OF ok]
  have tv: "valid ?tv" "\<And>d. amt ?tv d = vested_at C va c d"
    using GetVestedOnly_valid [OF ok] GetVestedOnly_amount [OF ok, of "time_Unix c"] by auto
  have cap: "sched_ok C ?s [\<lparr>Length = 0, Amount = ?tv\<rparr>]"
    using tv lok sched_ok_time by (simp add: sched_ok_Cons sched_ok_Nil)
  obtain ps where ps: "ConjunctPeriods C ?s ?s (LockupPeriods va) [\<lparr>Length = 0, Amount = ?tv\<rparr>]
      = Some (?s, ?s + tlen ps, ps)" "sched_ok C ?s ps"
    and at: "\<And>t d. sched_at C ?s ps t d = min (sched_at C ?s (LockupPeriods va) t d) (if ?s \<le> t then vested_at C va c d else 0)"
    using ConjunctPeriods_spec [OF lok(1) cap] by (auto simp: Min64_min tv)
  have tot: "sched_total C ps d = vested_at C va c d" for d
  proof -
    let ?t = "?s + tlen ps + tlen (LockupPeriods va)"
    have n: "0 \<le> tlen ps" "0 \<le> tlen (LockupPeriods va)"
      using ps lok by (auto simp: sched_ok_def intro: tlen_nonneg)
    then have "sched_at C ?s ps ?t d = sched_total C ps d"
      using ps by (intro sched_at_after) (auto simp: sched_ok_def)
    moreover have "sched_at C ?s (LockupPeriods va) ?t d = amt (OriginalVesting (BVA va)) d"
      using n lok va_okD(6) [OF ok] by (subst sched_at_after) (auto simp: sched_ok_def)
    ultimately show ?thesis
      using at [of ?t d] vested_at_bounds(2) [OF ok, of c d] n by (simp add: min_absorb2)
  qed
  have "(if t \<le> ?s then 0 else sched_at C ?s ps t d) = min (unlocked_at C va t d) (vested_at C va c d)" for t d
    using at [of t d] vested_at_bounds(1) [OF ok, of c d] by (simp add: unlocked_at_def)
  with ps tot show ?thesis by blast
qed

lemma ComputeClawback_spec:
  assumes ok: "va_ok C va" and c: "GetStartTime va \<le> c"
  shows "\<exists>va' clawed. ComputeClawback C P va c = Some (va', clawed) \<and> va_ok C va' \<and> valid clawed \<and>
     GetStartTime va' = GetStartTime va \<and>
     (\<forall>d. amt (OriginalVesting (BVA va')) d = vested_at C va c d) \<and>
     (\<forall>d. amt clawed d = amt (OriginalVesting (BVA va)) d - vested_at C va c d) \<and>
     (\<forall>t d. vested_at C va' t d = vested_at C va (min t c) d) \<and>
     (\<forall>t d. unlocked_at C va' t d = min (unlocked_at C va t d) (vested_at C va c d)) \<and>
     FunderAddress va' = FunderAddress va \<and> BaseAccount (BVA va') = BaseAccount (BVA va) \<and>
     DelegatedFree (BVA va') = DelegatedFree (BVA va) \<and> DelegatedVesting (BVA va') = DelegatedVesting (BVA va)"
proof -
  let ?s = "GetStartTime va" and ?tv = "GetVestedOnly C va (time_Unix c)"
  define vp where "vp = take (GetPassedPeriodCount va (time_Unix c)) (VestingPeriods va)"
  note V = clawback_vesting [OF ok c vp_def]
  obtain ps where ps: "ConjunctPeriods C ?s ?s (LockupPeriods va) [\<lparr>Length = 0, Amount = ?tv\<rparr>]
      = Some (?s, ?s + tlen ps, ps)" "sched_ok C ?s ps" "\<forall>d. sched_total C ps d = vested_at C va c d"
    "\<forall>t d. (if t \<le> ?s then 0 else sched_at C ?s ps t d) = min (unlocked_at C va t d) (vested_at C va c d)"
    using clawback_lockup [OF ok c] by blast
  obtain clawed where clawed: "GetUnvestedOnly C va (time_Unix c) = Some clawed" "valid clawed"
    "\<forall>d. amt clawed d = amt (OriginalVesting (BVA va)) d - vested_at C va c d"
    using GetUnvestedOnly_spec [OF ok, of "time_Unix c"] by auto
  have tv: "valid ?tv" "\<And>d. amt ?tv d = vested_at C va c d"
    using GetVestedOnly_valid [OF ok] GetVestedOnly_amount [OF ok, of "time_Unix c"] by auto
  define va' where "va' = va\<lparr>BVA := (BVA va)\<lparr>OriginalVesting := ?tv, EndTime := max (?s + tlen vp) (?s + tlen ps)\<rparr>,
    LockupPeriods := ps, VestingPeriods := vp\<rparr>"
  have start: "GetStartTime va' = ?s" "VestingPeriods va' = vp" "LockupPeriods va' = ps"
    by (simp_all add: va'_def GetStartTime_def)
  have "ComputeClawback C P va c = Some (va', clawed)"
    using c V(3) by (simp add: ComputeClawback_def Let_def clawed ps(1) vp_def [symmetric] va'_def Max64_max)
  moreover have "va_ok C va'"
    using V(1,2) ps(2,3) tv start by (simp add: va_ok_def va'_def)
  moreover have "\<forall>t d. vested_at C va' t d = vested_at C va (min t c) d"
    using V(4) by (simp only: vested_at_def [of C va'] start) blast
  moreover have "\<forall>t d. unlocked_at C va' t d = min (unlocked_at C va t d) (vested_at C va c d)"
    using ps(4) by (simp only: unlocked_at_def [of C va'] start) blast
  moreover have "\<forall>d. amt (OriginalVesting (BVA va')) d = vested_at C va c d"
    "FunderAddress va' = FunderAddress va" "BaseAccount (BVA va') = BaseAccount (BVA va)"
    "DelegatedFree (BVA va') = DelegatedFree (BVA va)"
    "DelegatedVesting (BVA va') = DelegatedVesting (BVA va)"
    by (simp_all add: va'_def tv(2))
  ultimately show ?thesis using clawed(2,3) start(1) by blast
qed

end

section \<open>New accounts and validation\<close>

context periods_laws
begin

lemma NewClawbackVestingAccount_ok:
  assumes "sched_ok C (Unix start) lp" and "sched_ok C (Unix start) vp" and "valid orig"
    and "\<And>d. amt orig d = sched_total C lp d" and "\<And>d. amt orig d = sched_total C vp d"
  shows "va_ok C (NewClawbackVestingAccount H P acc funder orig start lp vp)"
    and "LockupPeriods (NewClawbackVestingAccount H P acc funder orig start lp vp) = lp"
    and "VestingPeriods (NewClawbackVestingAccount H P acc funder orig start lp vp) = vp"
    and "EndTime (BVA (NewClawbackVestingAccount H P acc funder orig start lp vp)) =
           Unix start + max (tlen lp) (tlen vp)"
proof -
  have "extend_first 0 lp = lp" "extend_first 0 vp = vp"
    using assms(1,2) by (auto intro!: extend_first_0 intro: sched_ok_lengths)
  then have align: "AlignSchedules (TotalLength P) (Unix start) (Unix start) lp vp =
      (Unix start, Unix start + max (tlen lp) (tlen vp), lp, vp)"
    by (simp add: AlignSchedules_spec [OF periods_laws_axioms assms(1,2)] max_add_distrib_right)
  show "va_ok C (NewClawbackVestingAccount H P acc funder orig start lp vp)"
    using assms by (auto simp: va_ok_def NewClawbackVestingAccount_def align GetStartTime_def)
  show "LockupPeriods (NewClawbackVestingAccount H P acc funder orig start lp vp) = lp"
    "VestingPeriods (NewClawbackVestingAccount H P acc funder orig start lp vp) = vp"
    "EndTime (BVA (NewClawbackVestingAccount H P acc funder orig start lp vp)) =
           Unix start + max (tlen lp) (tlen vp)"
    by (simp_all add: NewClawbackVestingAccount_def align)
qed

end

context coins_laws
begin

lemma sum_periods_spec:
  "sched_ok C e ps \<Longrightarrow> valid coins \<Longrightarrow>
   \<exists>c. sum_periods C e coins ps = (e + tlen ps, c) \<and> valid c \<and> (\<forall>d. amt c d = amt coins d + sched_total C ps d)"
proof (induction ps arbitrary: e coins)
  case (Cons p ps)
  have eq: "i64 (e + Length p) = e + Length p"
    using Cons.prems by (blast intro: time_ok_id sched_ok_next)
  have ok: "sched_ok C (e + Length p) ps" "valid (Amount p)"
    using Cons.prems by (auto simp: sched_ok_Cons)
  show ?case
    using Cons.IH [OF ok(1) Add_valid [OF Cons.prems(2) ok(2)]] Cons.prems ok
    by (auto simp: eq Add_amount add.assoc)
qed simp

lemma coinEq_iff: "valid a \<Longrightarrow> valid b \<Longrightarrow> coinEq C a b \<longleftrightarrow> (\<forall>d. amt a d = amt b d)"
  by (auto simp: coinEq_def IsAllLTE_iff intro: order_antisym)

text \<open>For schedules within the time range, validation accepts exactly the well-formed accounts
  whose start is before their end.\<close>

lemma va_Validate_iff:
  assumes "sched_ok C (GetStartTime va) (LockupPeriods va)"
    and "sched_ok C (GetStartTime va) (VestingPeriods va)"
    and "valid (OriginalVesting (BVA va))"
  shows "va_Validate C B va = Ok () \<longleftrightarrow>
           GetStartTime va < EndTime (BVA va) \<and> va_ok C va \<and> bva_Validate B (BVA va) = Ok ()"
proof -
  obtain cl where cl: "sum_periods C (GetStartTime va) [] (LockupPeriods va) =
      (GetStartTime va + tlen (LockupPeriods va), cl)" "valid cl"
    "\<forall>d. amt cl d = sched_total C (LockupPeriods va) d"
    using sum_periods_spec [OF assms(1) valid_empty] by (auto simp: amount_empty)
  obtain cv where cv: "sum_periods C (GetStartTime va) [] (VestingPeriods va) =
      (GetStartTime va + tlen (VestingPeriods va), cv)" "valid cv"
    "\<forall>d. amt cv d = sched_total C (VestingPeriods va) d"
    using sum_periods_spec [OF assms(2) valid_empty] by (auto simp: amount_empty)
  have eq: "coinEq C cl (OriginalVesting (BVA va)) \<longleftrightarrow>
      (\<forall>d. amt (OriginalVesting (BVA va)) d = sched_total C (LockupPeriods va) d)"
    "coinEq C cv (OriginalVesting (BVA va)) \<longleftrightarrow>
      (\<forall>d. amt (OriginalVesting (BVA va)) d = sched_total C (VestingPeriods va) d)"
    using cl cv assms(3) by (auto simp: coinEq_iff)
  show ?thesis
    using assms by (auto simp: va_Validate_def GetEndTime_def cl(1) cv(1) eq va_ok_def)
qed

end

section \<open>A clawback before the first vesting event\<close>

context coins_laws
begin

lemma sched_total_zero:
  assumes "periods_ok C ps" and "\<forall>d. sched_total C ps d = 0" and "\<forall>p \<in> set ps. \<not> coins_IsZero C (Amount p)"
  shows "ps = []"
proof (cases ps)
  case (Cons p qs)
  then have "valid (Amount p)" "periods_ok C qs" using assms(1) by auto
  then have "amt (Amount p) d = 0" for d
    using assms(2) [rule_format, of d] amount_nonneg [of "Amount p" d] sched_total_nonneg [of qs d]
    by (simp add: Cons)
  then have "coins_IsZero C (Amount p)" using IsZero_iff \<open>valid (Amount p)\<close> by blast
  with assms(3) Cons show ?thesis by simp
qed simp

end

context periods_laws
begin

lemma ComputeClawback_early:
  assumes ok: "va_ok C va" and c: "GetStartTime va \<le> c"
    and vp: "VestingPeriods va = p # ps" and early: "c < GetStartTime va + Length p"
  shows "\<exists>va' clawed. ComputeClawback C P va c = Some (va', clawed) \<and>
           EndTime (BVA va') = GetStartTime va \<and> GetStartTime va' = GetStartTime va \<and>
           LockupPeriods va' = [] \<and> VestingPeriods va' = []"
proof -
  let ?s = "GetStartTime va" and ?tv = "GetVestedOnly C va (time_Unix c)"
  have next_ok: "i64 (?s + Length p) = ?s + Length p"
    using va_okD(2) [OF ok] vp by (metis sched_ok_next time_ok_id)
  have "?s + Length p \<le> EndTime (BVA va)"
    using va_okD(4) [OF ok] tlen_nonneg [of C ps] va_okD(9) [OF ok] by (simp add: vp)
  then have n0: "GetPassedPeriodCount va (time_Unix c) = 0"
    using early next_ok by (simp add: GetPassedPeriodCount_def ReadPastPeriodCount_def vp)
  have vest0: "vested_at C va c d = 0" for d
    using early vp by (simp add: vested_at_def)
  have lok: "sched_ok C ?s (LockupPeriods va)" by (rule va_okD(1) [OF ok])
  have cap: "sched_ok C ?s [\<lparr>Length = 0, Amount = ?tv\<rparr>]"
    using GetVestedOnly_valid [OF ok] sched_ok_time [OF lok] by (simp add: sched_ok_Cons sched_ok_Nil)
  obtain lp where lp: "ConjunctPeriods C ?s ?s (LockupPeriods va) [\<lparr>Length = 0, Amount = ?tv\<rparr>]
      = Some (?s, ?s + tlen lp, lp)" "sched_ok C ?s lp" "\<forall>p \<in> set lp. \<not> coins_IsZero C (Amount p)"
    using ConjunctPeriods_spec [OF lok cap] by (auto simp: Min64_min)
  moreover have "\<forall>d. sched_total C lp d = 0" using clawback_lockup [OF ok c] lp(1) vest0 by auto
  ultimately have "lp = []" by (intro sched_total_zero) (auto simp: sched_ok_def)
  moreover obtain u where "GetUnvestedOnly C va (time_Unix c) = Some u"
    using GetUnvestedOnly_spec [OF ok] by blast
  moreover have "TotalLength P [] = 0" "i64 ?s = ?s"
    using sched_ok_time [OF lok] by (auto simp: TotalLength_eq time_ok_id i64_id in_i64_def)
  ultimately show ?thesis
    using c lp(1) by (auto simp: ComputeClawback_def Let_def n0 GetStartTime_def Max64_def)
qed

end

section \<open>Properties\<close>

definition ex_base :: base_account where
  "ex_base = \<lparr>acc_Address = ''alice'', acc_PubKey = None, acc_Number = 1, acc_Sequence = 0\<rparr>"

definition ex_account :: clawback_account where
  "ex_account = \<lparr>BVA = \<lparr>BaseAccount = ex_base, OriginalVesting = [oneCoin ''aevmos'' 12], DelegatedFree = [],
       DelegatedVesting = [], EndTime = 130\<rparr>, FunderAddress = ''funder'', StartTime = time_Unix 100,
     LockupPeriods = ex_lockup, VestingPeriods = ex_vesting\<rparr>"

lemma ex_account_simps [simp]:
  "GetStartTime ex_account = 100" "LockupPeriods ex_account = ex_lockup"
  "VestingPeriods ex_account = ex_vesting" "EndTime (BVA ex_account) = 130"
  "OriginalVesting (BVA ex_account) = [oneCoin ''aevmos'' 12]"
  "acc_Address (BaseAccount (BVA ex_account)) = ''alice''"
  by (simp_all add: ex_account_def ex_base_def GetStartTime_def)

lemma ex_account_ok: "va_ok std_coins ex_account"
  using ex_total by (simp add: va_ok_def)
    (simp add: sched_eval ex_vesting_def ex_lockup_def std_defs)



text \<open>C6.  A clawback at or after the start never panics and loses nothing: what is clawed back
  and what stays as original vesting add up to the old original vesting.  The account that stays
  is well formed, nothing vests in it after the clawback, what had vested before is unchanged,
  and its unlocking schedule is the old one capped at the vested amount.\<close>

theorem ComputeClawback_conserves:
  assumes "periods_laws C P" and "va_ok C va" and "GetStartTime va \<le> c"
  shows "\<exists>va' clawed. ComputeClawback C P va c = Some (va', clawed) \<and> va_ok C va'
       \<and> (\<forall>d. coins_AmountOf C (OriginalVesting (BVA va')) d + coins_AmountOf C clawed d
                = coins_AmountOf C (OriginalVesting (BVA va)) d)
       \<and> (\<forall>t d. coins_AmountOf C (GetVestedOnly C va' (time_Unix t)) d
                = coins_AmountOf C (GetVestedOnly C va (time_Unix (min t c))) d)
       \<and> (\<forall>t d. coins_AmountOf C (GetUnlockedOnly C va' (time_Unix t)) d
                = min (coins_AmountOf C (GetUnlockedOnly C va (time_Unix t)) d)
                      (coins_AmountOf C (GetVestedOnly C va (time_Unix c)) d))"
proof -
  have cl: "coins_laws C" using assms(1) by (simp add: periods_laws_def)
  obtain va' clawed where r: "ComputeClawback C P va c = Some (va', clawed)" "va_ok C va'"
    "\<forall>d. coins_AmountOf C (OriginalVesting (BVA va')) d = vested_at C va c d"
    "\<forall>d. coins_AmountOf C clawed d = coins_AmountOf C (OriginalVesting (BVA va)) d - vested_at C va c d"
    "\<forall>t d. vested_at C va' t d = vested_at C va (min t c) d"
    "\<forall>t d. unlocked_at C va' t d = min (unlocked_at C va t d) (vested_at C va c d)"
    using periods_laws.ComputeClawback_spec [OF assms] by blast
  then show ?thesis
    by (auto simp: coins_laws.GetUnlockedOnly_amount [OF cl] coins_laws.GetVestedOnly_amount [OF cl] assms(2))
qed

theorem ComputeClawback_conserves_witness:
  "\<exists>va' clawed. ComputeClawback std_coins std_periods ex_account 120 = Some (va', clawed)
     \<and> va_ok std_coins va' \<and> coins_AmountOf std_coins (OriginalVesting (BVA va')) ''aevmos''
       + coins_AmountOf std_coins clawed ''aevmos'' = 12"
  using ComputeClawback_conserves [OF stdp.periods_laws_axioms ex_account_ok, of 120]
  by (auto simp: std_defs)

text \<open>C7.  A clawback after the start but before the first vesting event leaves an account whose
  end time is its start time, with empty schedules, and validation rejects that account.\<close>

theorem clawback_early_invalid:
  assumes "periods_laws C P" and "va_ok C va" and "GetStartTime va \<le> c"
    and "VestingPeriods va = p # ps" and "c < GetStartTime va + Length p"
  shows "\<exists>va' clawed. ComputeClawback C P va c = Some (va', clawed)
       \<and> LockupPeriods va' = [] \<and> VestingPeriods va' = []
       \<and> va_Validate C B va' = Err (ErrPlain ''vesting start-time must be before end-time'')"
  using periods_laws.ComputeClawback_early [OF assms] by (auto simp: va_Validate_def GetEndTime_def)

theorem clawback_early_invalid_witness:
  "\<exists>va' clawed. ComputeClawback std_coins std_periods ex_account 105 = Some (va', clawed)
     \<and> va_Validate std_coins \<lparr>LockedCoinsFromVesting = (\<lambda>_ c. c), bva_TrackDelegation = (\<lambda>b _ _ _. Some b),
          bva_Validate = (\<lambda>_. Ok ())\<rparr> va' = Err (ErrPlain ''vesting start-time must be before end-time'')"
  using clawback_early_invalid [OF stdp.periods_laws_axioms ex_account_ok, of 105]
  by (fastforce simp: ex_vesting_def)

end
