(* ===== verification/Sdk_Keepers.thy ===== *)
theory Sdk_Keepers
  imports Vesting_Account
begin

text \<open>
  The keepers of the Cosmos SDK the modules are built on: accounts, bank, staking and the
  distribution module's community pool.  Their code is not part of the repository, so they are
  records of operations on an abstract state \<open>'x\<close>, the rest of the chain's state, and arguments of
  the definitions that call them.  The locale \<open>keeper_laws\<close> names what the modules rely on: a
  successful transfer moves exactly the coins it is given, minting and burning change the module's
  balance and the supply by that amount, coins that are not a valid set are refused, a transfer from a registered module account does not panic, and no bank
  operation changes an existing account.
  \<open>std_*\<close> is an executable instance, used to evaluate the properties on concrete states.
\<close>

section \<open>Interfaces\<close>

datatype account = ClawbackAcc clawback_account | OtherAcc base_account

fun account_address :: "account \<Rightarrow> addr" where
  "account_address (ClawbackAcc va) = acc_Address (BaseAccount (BVA va))"
| "account_address (OtherAcc b) = acc_Address b"

record 'x account_ops =
  GetAccount :: "'x \<Rightarrow> addr \<Rightarrow> account option"
  SetAccount :: "account \<Rightarrow> 'x \<Rightarrow> 'x"
  NewAccount :: "account \<Rightarrow> 'x \<Rightarrow> account \<times> 'x"
  GetModuleAddress :: "string \<Rightarrow> addr"

record 'x bank_ops =
  GetBalance :: "'x \<Rightarrow> addr \<Rightarrow> denom \<Rightarrow> int"
  GetAllBalances :: "'x \<Rightarrow> addr \<Rightarrow> coins"
  GetSupply :: "'x \<Rightarrow> denom \<Rightarrow> int"
  SendCoins :: "addr \<Rightarrow> addr \<Rightarrow> coins \<Rightarrow> ('x, unit) cmd"
  SendCoinsFromModuleToAccount :: "string \<Rightarrow> addr \<Rightarrow> coins \<Rightarrow> ('x, unit) cmd"
  SendCoinsFromModuleToModule :: "string \<Rightarrow> string \<Rightarrow> coins \<Rightarrow> ('x, unit) cmd"
  SendCoinsFromAccountToModule :: "addr \<Rightarrow> string \<Rightarrow> coins \<Rightarrow> ('x, unit) cmd"
  MintCoins :: "string \<Rightarrow> coins \<Rightarrow> ('x, unit) cmd"
  BurnCoins :: "string \<Rightarrow> coins \<Rightarrow> ('x, unit) cmd"
  BlockedAddr :: "addr \<Rightarrow> bool"

record 'x staking_ops =
  BondDenom :: "'x \<Rightarrow> denom"
  GetDelegatorBonded :: "'x \<Rightarrow> addr \<Rightarrow> int"
  GetDelegatorUnbonding :: "'x \<Rightarrow> addr \<Rightarrow> int"
  StakingTokenSupply :: "'x \<Rightarrow> int"
  TotalBondedTokens :: "'x \<Rightarrow> int"

record 'x distr_ops =
  FundCommunityPool :: "coins \<Rightarrow> addr \<Rightarrow> ('x, unit) cmd"

section \<open>What the modules rely on\<close>

definition moved :: "coins_ops \<Rightarrow> 'x bank_ops \<Rightarrow> addr \<Rightarrow> addr \<Rightarrow> coins \<Rightarrow> 'x \<Rightarrow> 'x \<Rightarrow> bool" where
  "moved C B src dst c x x' \<longleftrightarrow>
     (\<forall>a d. GetBalance B x' a d = GetBalance B x a d
              - (if a = src then coins_AmountOf C c d else 0) + (if a = dst then coins_AmountOf C c d else 0)) \<and>
     (\<forall>d. GetSupply B x' d = GetSupply B x d)"

locale keeper_laws = coins_laws C for C :: coins_ops +
  fixes A :: "'x account_ops" and B :: "'x bank_ops" and D :: "'x distr_ops"
    and registered :: "string set"
  assumes SendCoins_moved:
      "valid c \<Longrightarrow> SendCoins B a b c x = (Ok u, x') \<Longrightarrow> moved C B a b c x x'"
    and ModuleToAccount_moved:
      "valid c \<Longrightarrow> SendCoinsFromModuleToAccount B m b c x = (Ok u, x') \<Longrightarrow> moved C B (GetModuleAddress A m) b c x x'"
    and ModuleToModule_moved:
      "valid c \<Longrightarrow> SendCoinsFromModuleToModule B m n c x = (Ok u, x') \<Longrightarrow>
       moved C B (GetModuleAddress A m) (GetModuleAddress A n) c x x'"
    and AccountToModule_moved:
      "valid c \<Longrightarrow> SendCoinsFromAccountToModule B a m c x = (Ok u, x') \<Longrightarrow> moved C B a (GetModuleAddress A m) c x x'"
    and ModuleToAccount_ok:
      "m \<in> registered \<Longrightarrow> valid c \<Longrightarrow> \<not> BlockedAddr B b \<Longrightarrow> (\<And>d. coins_AmountOf C c d \<le> GetBalance B x (GetModuleAddress A m) d) \<Longrightarrow>
       \<exists>x'. SendCoinsFromModuleToAccount B m b c x = (Ok (), x')"
    and ModuleToAccount_blocked:
      "BlockedAddr B b \<Longrightarrow> SendCoinsFromModuleToAccount B m b c x = (Err ErrUnauthorized, x)"
    and ModuleToAccount_valid: "SendCoinsFromModuleToAccount B m b c x = (Ok u, x') \<Longrightarrow> valid c"
    and ModuleToAccount_invalid:
      "m \<in> registered \<Longrightarrow> \<not> valid c \<Longrightarrow> \<not> BlockedAddr B b \<Longrightarrow> SendCoinsFromModuleToAccount B m b c x = (Err ErrInvalidCoins, x)"
    and ModuleToAccount_no_panic: "m \<in> registered \<Longrightarrow> fst (SendCoinsFromModuleToAccount B m b c x) \<noteq> Panic"
    and AccountToModule_valid: "SendCoinsFromAccountToModule B a m c x = (Ok u, x') \<Longrightarrow> valid c"
    and Mint_valid: "MintCoins B m c x = (Ok u, x') \<Longrightarrow> valid c"
    and Burn_valid: "BurnCoins B m c x = (Ok u, x') \<Longrightarrow> valid c"
    and ModuleToModule_ok:
      "m \<in> registered \<Longrightarrow> n \<in> registered \<Longrightarrow> valid c \<Longrightarrow>
       (\<And>d. coins_AmountOf C c d \<le> GetBalance B x (GetModuleAddress A m) d) \<Longrightarrow>
       \<exists>x'. SendCoinsFromModuleToModule B m n c x = (Ok (), x')"
    and Mint_balance:
      "valid c \<Longrightarrow> MintCoins B m c x = (Ok u, x') \<Longrightarrow>
       GetBalance B x' a d = GetBalance B x a d + (if a = GetModuleAddress A m then coins_AmountOf C c d else 0)"
    and Mint_supply: "valid c \<Longrightarrow> MintCoins B m c x = (Ok u, x') \<Longrightarrow> GetSupply B x' d = GetSupply B x d + coins_AmountOf C c d"
    and Burn_balance:
      "valid c \<Longrightarrow> BurnCoins B m c x = (Ok u, x') \<Longrightarrow>
       GetBalance B x' a d = GetBalance B x a d - (if a = GetModuleAddress A m then coins_AmountOf C c d else 0)"
    and Burn_supply: "valid c \<Longrightarrow> BurnCoins B m c x = (Ok u, x') \<Longrightarrow> GetSupply B x' d = GetSupply B x d - coins_AmountOf C c d"
    and Fund_moved: "valid c \<Longrightarrow> FundCommunityPool D c a x = (Ok u, x') \<Longrightarrow> moved C B a (GetModuleAddress A ''distribution'') c x x'"
    and Fund_ok: "m \<in> registered \<Longrightarrow> a = GetModuleAddress A m \<Longrightarrow> valid c \<Longrightarrow>
       (\<And>d. coins_AmountOf C c d \<le> GetBalance B x a d) \<Longrightarrow> \<exists>x'. FundCommunityPool D c a x = (Ok (), x')"
    and Fund_err: "FundCommunityPool D [k] a x = (Err e, x') \<Longrightarrow> x' = x"
    and GetAccount_SetAccount:
      "GetAccount A (SetAccount A acc x) a = (if a = account_address acc then Some acc else GetAccount A x a)"
    and module_inj: "GetModuleAddress A m = GetModuleAddress A n \<Longrightarrow> m = n"
    and GetAllBalances_amount: "(\<And>d. 0 \<le> GetBalance B x a d) \<Longrightarrow>
       coins_IsValid C (GetAllBalances B x a) \<and> (\<forall>d. coins_AmountOf C (GetAllBalances B x a) d = GetBalance B x a d)"
    and SetAccount_balance: "GetBalance B (SetAccount A acc x) = GetBalance B x" "GetSupply B (SetAccount A acc x) = GetSupply B x"
    and NewAccount_clawback: "NewAccount A (ClawbackAcc va) x = (acc, x') \<Longrightarrow>
       (\<exists>n. acc = ClawbackAcc (va\<lparr>BVA := (BVA va)\<lparr>BaseAccount := (BaseAccount (BVA va))\<lparr>acc_Number := n\<rparr>\<rparr>\<rparr>)) \<and>
       GetAccount A x' = GetAccount A x \<and> GetBalance B x' = GetBalance B x \<and> GetSupply B x' = GetSupply B x"
    and SendCoins_accounts: "SendCoins B a b c x = (Ok u, x') \<Longrightarrow> GetAccount A x z = Some acc \<Longrightarrow> GetAccount A x' z = Some acc"

section \<open>An executable instance\<close>

record std_world =
  w_accounts :: "account kv"
  w_denoms :: "denom list"
  w_balance :: "addr \<Rightarrow> denom \<Rightarrow> int"
  w_supply :: "denom \<Rightarrow> int"

definition std_module_addr :: "string \<Rightarrow> addr" where
  "std_module_addr m = ''module/'' @ m"

definition std_accounts :: "std_world account_ops" where
  "std_accounts =
     \<lparr>GetAccount = (\<lambda>w a. case kv_get (w_accounts w) a of None \<Rightarrow> None
                       | Some acc \<Rightarrow> if account_address acc = a then Some acc else None),
      SetAccount = (\<lambda>acc w. w\<lparr>w_accounts := kv_set (w_accounts w) (account_address acc) acc\<rparr>),
      NewAccount = (\<lambda>acc w. (acc, w)),
      GetModuleAddress = std_module_addr\<rparr>"

text \<open>Balances are kept for the denominations listed in \<open>w_denoms\<close>; all others are zero.\<close>

definition std_balance :: "std_world \<Rightarrow> addr \<Rightarrow> denom \<Rightarrow> int" where
  "std_balance w a d = (if d \<in> set (w_denoms w) then w_balance w a d else 0)"

definition std_change :: "(addr \<Rightarrow> denom \<Rightarrow> int) \<Rightarrow> coins \<Rightarrow> std_world \<Rightarrow> std_world" where
  "std_change f c w = w\<lparr>w_denoms := remdups (w_denoms w @ map Denom c),
                        w_balance := (\<lambda>a d. std_balance w a d + f a d)\<rparr>"

definition std_enough :: "std_world \<Rightarrow> addr \<Rightarrow> coins \<Rightarrow> bool" where
  "std_enough w a c = list_all (\<lambda>k. std_AmountOf c (Denom k) \<le> std_balance w a (Denom k)) c"

definition std_transfer :: "addr \<Rightarrow> addr \<Rightarrow> coins \<Rightarrow> (std_world, unit) cmd" where
  "std_transfer src dst c w =
     (if \<not> std_IsValid c then (Err ErrInvalidCoins, w) else
      if std_enough w src c
      then (Ok (), std_change (\<lambda>a d. (if a = dst then std_AmountOf c d else 0) - (if a = src then std_AmountOf c d else 0)) c w)
      else (Err ErrInsufficientFunds, w))"

definition std_mint :: "string \<Rightarrow> coins \<Rightarrow> (std_world, unit) cmd" where
  "std_mint m c w =
     (if \<not> std_IsValid c then (Err ErrInvalidCoins, w) else
      (Ok (), (std_change (\<lambda>a d. if a = std_module_addr m then std_AmountOf c d else 0) c w)
               \<lparr>w_supply := (\<lambda>d. w_supply w d + std_AmountOf c d)\<rparr>))"

definition std_burn :: "string \<Rightarrow> coins \<Rightarrow> (std_world, unit) cmd" where
  "std_burn m c w =
     (if \<not> std_IsValid c then (Err ErrInvalidCoins, w) else
      if std_enough w (std_module_addr m) c
      then (Ok (), (std_change (\<lambda>a d. if a = std_module_addr m then - std_AmountOf c d else 0) c w)
                     \<lparr>w_supply := (\<lambda>d. w_supply w d - std_AmountOf c d)\<rparr>)
      else (Err ErrInsufficientFunds, w))"

definition std_all :: "std_world \<Rightarrow> addr \<Rightarrow> coins" where
  "std_all w a = std_build (sort (remdups (w_denoms w))) (std_balance w a)"

definition std_blocked :: "addr \<Rightarrow> bool" where
  "std_blocked a \<longleftrightarrow> take 7 a = ''module/''"

definition std_bank :: "std_world bank_ops" where
  "std_bank =
     \<lparr>GetBalance = std_balance, GetAllBalances = std_all, GetSupply = w_supply, SendCoins = std_transfer,
      SendCoinsFromModuleToAccount = (\<lambda>m b c w. if std_blocked b then (Err ErrUnauthorized, w) else std_transfer (std_module_addr m) b c w),
      SendCoinsFromModuleToModule = (\<lambda>m n. std_transfer (std_module_addr m) (std_module_addr n)),
      SendCoinsFromAccountToModule = (\<lambda>a m. std_transfer a (std_module_addr m)),
      MintCoins = std_mint, BurnCoins = std_burn,
      BlockedAddr = std_blocked\<rparr>"

definition std_staking :: "std_world staking_ops" where
  "std_staking = \<lparr>BondDenom = (\<lambda>_. ''aevmos''), GetDelegatorBonded = (\<lambda>_ _. 0),
                  GetDelegatorUnbonding = (\<lambda>_ _. 0), StakingTokenSupply = (\<lambda>_. 1000),
                  TotalBondedTokens = (\<lambda>_. 500)\<rparr>"

definition std_distr :: "std_world distr_ops" where
  "std_distr = \<lparr>FundCommunityPool = (\<lambda>c a. std_transfer a (std_module_addr ''distribution'') c)\<rparr>"

lemmas std_keeper_defs =
  std_accounts_def std_bank_def std_staking_def std_distr_def std_transfer_def std_mint_def
  std_burn_def std_module_addr_def std_all_def std_enough_def

lemma same_number: "\<exists>n. va = va\<lparr>BVA := (BVA va)\<lparr>BaseAccount := (BaseAccount (BVA va))\<lparr>acc_Number := n\<rparr>\<rparr>\<rparr>"
  by (rule exI [of _ "acc_Number (BaseAccount (BVA va))"]) simp

lemma std_balance_change:
  "std_balance (std_change f c w) a d = (if d \<in> set (w_denoms w) \<union> Denom ` set c then std_balance w a d + f a d else 0)"
  by (simp add: std_change_def std_balance_def)

lemma std_balance_change_coins:
  assumes "\<And>a d. std_AmountOf c d = 0 \<Longrightarrow> f a d = 0"
  shows "std_balance (std_change f c w) a d = std_balance w a d + f a d"
proof (cases "d \<in> Denom ` set c")
  case False
  then show ?thesis using assms std_AmountOf_out by (auto simp: std_balance_change) (auto simp: std_balance_def)
qed (simp add: std_balance_change)

lemma std_change_simps [simp]:
  "w_supply (std_change f c w) = w_supply w" "w_accounts (std_change f c w) = w_accounts w"
  "std_balance (w\<lparr>w_supply := g\<rparr>) = std_balance w" "std_balance (w\<lparr>w_accounts := h\<rparr>) = std_balance w"
  by (auto simp: std_change_def std_balance_def fun_eq_iff)

lemma std_all_amount:
  assumes "\<And>d. 0 \<le> std_balance w a d"
  shows "std_IsValid (std_all w a)" and "std_AmountOf (std_all w a) d = std_balance w a d"
  using assms by (auto simp: std_all_def std_build_valid std_AmountOf_build) (auto simp: std_balance_def)

lemma std_transfer_moved:
  "std_transfer a b c x = (Ok u, x') \<Longrightarrow> moved std_coins std_bank a b c x x' \<and> w_accounts x' = w_accounts x"
  by (auto simp: std_transfer_def moved_def std_bank_def std_coins_def std_balance_change_coins split: if_splits)

lemma std_enough_ok: "(\<And>d. std_AmountOf c d \<le> std_balance x a d) \<Longrightarrow> std_enough x a c"
  by (simp add: std_enough_def list_all_iff)

interpretation stdk: keeper_laws std_coins std_accounts std_bank std_distr UNIV
proof
  note D = std_accounts_def std_bank_def std_distr_def
  note M = std_transfer_moved [unfolded std_bank_def]
  fix c a b x u x' m n d
  show "SendCoins std_bank a b c x = (Ok u, x') \<Longrightarrow> moved std_coins std_bank a b c x x'"
    using M by (simp add: D)
  show "SendCoinsFromModuleToAccount std_bank m b c x = (Ok u, x') \<Longrightarrow>
      moved std_coins std_bank (GetModuleAddress std_accounts m) b c x x'"
    using M by (simp add: D split: if_splits)
  show "SendCoinsFromModuleToModule std_bank m n c x = (Ok u, x') \<Longrightarrow>
      moved std_coins std_bank (GetModuleAddress std_accounts m) (GetModuleAddress std_accounts n) c x x'"
    using M by (simp add: D)
  show "SendCoinsFromAccountToModule std_bank a m c x = (Ok u, x') \<Longrightarrow>
      moved std_coins std_bank a (GetModuleAddress std_accounts m) c x x'"
    using M by (simp add: D)
  show "BlockedAddr std_bank b \<Longrightarrow> SendCoinsFromModuleToAccount std_bank m b c x = (Err ErrUnauthorized, x)"
    by (simp add: D)
  show "FundCommunityPool std_distr [k] a x = (Err e, x') \<Longrightarrow> x' = x" for k e
    by (simp add: D std_transfer_def split: if_splits)
  show "SendCoinsFromModuleToAccount std_bank m b c x = (Ok u, x') \<Longrightarrow> coins_IsValid std_coins c"
    "SendCoinsFromAccountToModule std_bank a m c x = (Ok u, x') \<Longrightarrow> coins_IsValid std_coins c"
    "MintCoins std_bank m c x = (Ok u, x') \<Longrightarrow> coins_IsValid std_coins c"
    "BurnCoins std_bank m c x = (Ok u, x') \<Longrightarrow> coins_IsValid std_coins c"
    "\<not> coins_IsValid std_coins c \<Longrightarrow> \<not> BlockedAddr std_bank b \<Longrightarrow>
     SendCoinsFromModuleToAccount std_bank m b c x = (Err ErrInvalidCoins, x)"
    by (auto simp: D std_transfer_def std_mint_def std_burn_def std_coins_def split: if_splits)
  show "fst (SendCoinsFromModuleToAccount std_bank m b c x) \<noteq> Panic"
    by (simp add: D std_transfer_def)
  show "coins_IsValid std_coins c \<Longrightarrow> \<not> BlockedAddr std_bank b \<Longrightarrow>
      (\<And>d. coins_AmountOf std_coins c d \<le> GetBalance std_bank x (GetModuleAddress std_accounts m) d) \<Longrightarrow>
      \<exists>x'. SendCoinsFromModuleToAccount std_bank m b c x = (Ok (), x')"
    using std_enough_ok [of c x "std_module_addr m"] by (simp add: D std_transfer_def std_coins_def)
  show "coins_IsValid std_coins c \<Longrightarrow>
      (\<And>d. coins_AmountOf std_coins c d \<le> GetBalance std_bank x (GetModuleAddress std_accounts m) d) \<Longrightarrow>
      \<exists>x'. SendCoinsFromModuleToModule std_bank m n c x = (Ok (), x')"
    using std_enough_ok [of c x "std_module_addr m"] by (simp add: D std_transfer_def std_coins_def)
  show "MintCoins std_bank m c x = (Ok u, x') \<Longrightarrow> GetBalance std_bank x' a d =
      GetBalance std_bank x a d + (if a = GetModuleAddress std_accounts m then coins_AmountOf std_coins c d else 0)"
    by (auto simp: D std_mint_def std_coins_def std_balance_change_coins split: if_splits)
  show "MintCoins std_bank m c x = (Ok u, x') \<Longrightarrow> GetSupply std_bank x' d = GetSupply std_bank x d + coins_AmountOf std_coins c d"
    by (auto simp: D std_mint_def std_coins_def split: if_splits)
  show "BurnCoins std_bank m c x = (Ok u, x') \<Longrightarrow> GetBalance std_bank x' a d =
      GetBalance std_bank x a d - (if a = GetModuleAddress std_accounts m then coins_AmountOf std_coins c d else 0)"
    by (auto simp: D std_burn_def std_coins_def std_balance_change_coins split: if_splits)
  show "BurnCoins std_bank m c x = (Ok u, x') \<Longrightarrow> GetSupply std_bank x' d = GetSupply std_bank x d - coins_AmountOf std_coins c d"
    by (auto simp: D std_burn_def std_coins_def split: if_splits)
  show "FundCommunityPool std_distr c a x = (Ok u, x') \<Longrightarrow>
      moved std_coins std_bank a (GetModuleAddress std_accounts ''distribution'') c x x'"
    using M by (simp add: D)
  show "coins_IsValid std_coins c \<Longrightarrow> (\<And>d. coins_AmountOf std_coins c d \<le> GetBalance std_bank x a d) \<Longrightarrow> \<exists>x'. FundCommunityPool std_distr c a x = (Ok (), x')"
    using std_enough_ok [of c x a] by (simp add: D std_transfer_def std_coins_def)
  show "GetAccount std_accounts (SetAccount std_accounts acc x) a =
      (if a = account_address acc then Some acc else GetAccount std_accounts x a)" for acc
    by (simp add: D kv_get_set)
  show "GetModuleAddress std_accounts m = GetModuleAddress std_accounts n \<Longrightarrow> m = n"
    by (simp add: D std_module_addr_def)
  show "(\<And>d. 0 \<le> GetBalance std_bank x a d) \<Longrightarrow> coins_IsValid std_coins (GetAllBalances std_bank x a) \<and>
      (\<forall>d. coins_AmountOf std_coins (GetAllBalances std_bank x a) d = GetBalance std_bank x a d)"
    using std_all_amount [of x a] by (simp add: D std_coins_def)
  show "GetBalance std_bank (SetAccount std_accounts acc x) = GetBalance std_bank x"
    "GetSupply std_bank (SetAccount std_accounts acc x) = GetSupply std_bank x" for acc
    by (simp_all add: D)
  show "NewAccount std_accounts (ClawbackAcc va) x = (acc, x') \<Longrightarrow>
       (\<exists>n. acc = ClawbackAcc (va\<lparr>BVA := (BVA va)\<lparr>BaseAccount := (BaseAccount (BVA va))\<lparr>acc_Number := n\<rparr>\<rparr>\<rparr>)) \<and>
       GetAccount std_accounts x' = GetAccount std_accounts x \<and> GetBalance std_bank x' = GetBalance std_bank x \<and>
       GetSupply std_bank x' = GetSupply std_bank x" for va acc
    using same_number by (auto simp: D)
  show "SendCoins std_bank a b c x = (Ok u, x') \<Longrightarrow> GetAccount std_accounts x z = Some acc \<Longrightarrow>
      GetAccount std_accounts x' z = Some acc" for z acc
    using M [of a b c x u x'] by (simp add: D)
qed

end
