(* ===== verification/Vesting_Msgs.thy ===== *)
theory Vesting_Msgs
  imports Sdk_Keepers
begin

text \<open>
  \<open>x/vesting/types/msg.go\<close>, \<open>x/vesting/keeper/msg_server.go\<close> and \<open>keeper/grpc_query.go\<close>: the
  stateless checks of the two messages, their handlers (creating an account or merging a grant,
  and the clawback) and the balances query.  The module has no store of its own: a handler works
  on the account, bank and staking keepers' state \<open>'x\<close>.  Telemetry and events are left out; they
  are written and never read.
\<close>

section \<open>Messages\<close>

record msg_create =
  m_FromAddress :: string
  m_ToAddress :: string
  m_StartTime :: time
  m_LockupPeriods :: "period list"
  m_VestingPeriods :: "period list"
  m_Merge :: bool

record msg_clawback =
  m_FunderAddress :: string
  m_AccountAddress :: string
  m_DestAddress :: string

definition NewMsgCreateClawbackVestingAccount ::
  "bech32_ops \<Rightarrow> addr \<Rightarrow> addr \<Rightarrow> time \<Rightarrow> period list \<Rightarrow> period list \<Rightarrow> bool \<Rightarrow> msg_create" where
  "NewMsgCreateClawbackVestingAccount H fromAddr toAddr startTime lockupPeriods vestingPeriods merge =
     \<lparr>m_FromAddress = acc_String H fromAddr, m_ToAddress = acc_String H toAddr, m_StartTime = startTime,
      m_LockupPeriods = lockupPeriods, m_VestingPeriods = vestingPeriods, m_Merge = merge\<rparr>"

definition NewMsgClawback :: "bech32_ops \<Rightarrow> addr \<Rightarrow> addr \<Rightarrow> addr option \<Rightarrow> msg_clawback" where
  "NewMsgClawback H funder addr dest =
     \<lparr>m_FunderAddress = acc_String H funder, m_AccountAddress = acc_String H addr,
      m_DestAddress = (case dest of None \<Rightarrow> [] | Some a \<Rightarrow> acc_String H a)\<rparr>"

fun sum_checked :: "coins_ops \<Rightarrow> coins \<Rightarrow> period list \<Rightarrow> coins outcome" where
  "sum_checked C coins [] = Ok coins"
| "sum_checked C coins (period # periods) =
     (if Length period < 1 then Err ErrInvalidRequest
      else sum_checked C (coins_Add C coins (Amount period)) periods)"

definition MsgCreate_ValidateBasic :: "coins_ops \<Rightarrow> bech32_ops \<Rightarrow> msg_create \<Rightarrow> unit outcome" where
  "MsgCreate_ValidateBasic C H msg =
     (if AccAddressFromBech32 H (m_FromAddress msg) = None then Err ErrInvalidAddress else
      if AccAddressFromBech32 H (m_ToAddress msg) = None then Err ErrInvalidAddress else
      bindO (sum_checked C [] (m_LockupPeriods msg)) (\<lambda>lockupCoins.
      bindO (sum_checked C [] (m_VestingPeriods msg)) (\<lambda>vestingCoins.
      if length (m_LockupPeriods msg) > 0 \<and> length (m_VestingPeriods msg) > 0 \<and>
         \<not> (coins_IsAllLTE C lockupCoins vestingCoins \<and> coins_IsAllLTE C vestingCoins lockupCoins)
      then Err ErrInvalidRequest else Ok ())))"

definition MsgCreate_GetSigners :: "bech32_ops \<Rightarrow> msg_create \<Rightarrow> addr list outcome" where
  "MsgCreate_GetSigners H msg =
     (case AccAddressFromBech32 H (m_FromAddress msg) of None \<Rightarrow> Panic | Some a \<Rightarrow> Ok [a])"

definition MsgClawback_ValidateBasic :: "bech32_ops \<Rightarrow> msg_clawback \<Rightarrow> unit outcome" where
  "MsgClawback_ValidateBasic H msg =
     (if AccAddressFromBech32 H (m_FunderAddress msg) = None then Err ErrInvalidAddress else
      if AccAddressFromBech32 H (m_AccountAddress msg) = None then Err ErrInvalidAddress else
      if m_DestAddress msg \<noteq> [] \<and> AccAddressFromBech32 H (m_DestAddress msg) = None
      then Err ErrInvalidAddress else Ok ())"

definition MsgClawback_GetSigners :: "bech32_ops \<Rightarrow> msg_clawback \<Rightarrow> addr list outcome" where
  "MsgClawback_GetSigners H msg =
     (case AccAddressFromBech32 H (m_FunderAddress msg) of None \<Rightarrow> Panic | Some a \<Rightarrow> Ok [a])"

section \<open>The message server\<close>

definition addGrant ::
  "coins_ops \<Rightarrow> 'x staking_ops \<Rightarrow> time \<Rightarrow> 'x \<Rightarrow> clawback_account \<Rightarrow> int \<Rightarrow> period list \<Rightarrow> period list
     \<Rightarrow> coins \<Rightarrow> clawback_account outcome" where
  "addGrant C S blockTime x va grantStartTime grantLockupPeriods grantVestingPeriods grantCoins =
     (let address = acc_Address (BaseAccount (BVA va));
          delegatedAmt = GetDelegatorBonded S x address + GetDelegatorUnbonding S x address in
      bindO (orPanic (coins_New C [oneCoin (BondDenom S x) delegatedAmt])) (\<lambda>delegated.
      let (newLockupStart, newLockupEnd, newLockupPeriods) =
            DisjunctPeriods C (GetStartTime va) grantStartTime (LockupPeriods va) grantLockupPeriods;
          (newVestingStart, newVestingEnd, newVestingPeriods) =
            DisjunctPeriods C (GetStartTime va) grantStartTime (GetVestingPeriods va) grantVestingPeriods in
      if newLockupStart \<noteq> newVestingStart then Err ErrVestingLockup else
      let va1 = va\<lparr>StartTime := time_Unix newLockupStart,
                   LockupPeriods := newLockupPeriods, VestingPeriods := newVestingPeriods,
                   BVA := (BVA va)\<lparr>EndTime := Max64 newLockupEnd newVestingEnd,
                                   OriginalVesting := coins_Add C (OriginalVesting (BVA va)) grantCoins\<rparr>\<rparr> in
      bindO (orPanic (GetVestingCoins C va1 blockTime)) (\<lambda>unvested.
      let delegatedVesting = coins_Min C delegated unvested in
      bindO (orPanic (coins_Sub C delegated delegatedVesting)) (\<lambda>delegatedFree.
      Ok (va1\<lparr>BVA := (BVA va1)\<lparr>DelegatedVesting := delegatedVesting, DelegatedFree := delegatedFree\<rparr>\<rparr>)))))"

text \<open>The defaults for an absent lockup or vesting schedule: the two schedules and their totals.\<close>

definition grant_schedules ::
  "coins_ops \<Rightarrow> periods_ops \<Rightarrow> msg_create \<Rightarrow> period list \<times> coins \<times> period list \<times> coins" where
  "grant_schedules C P msg =
     (let vestingCoins = TotalAmount P (m_VestingPeriods msg);
          lockupCoins = TotalAmount P (m_LockupPeriods msg);
          (lockupPeriods, lockupCoins) =
            (if \<not> coins_IsZero C vestingCoins \<and> length (m_LockupPeriods msg) = 0
             then ([\<lparr>Length = 0, Amount = vestingCoins\<rparr>], vestingCoins)
             else (m_LockupPeriods msg, lockupCoins));
          (vestingPeriods, vestingCoins) =
            (if \<not> coins_IsZero C lockupCoins \<and> length (m_VestingPeriods msg) = 0
             then ([\<lparr>Length = 0, Amount = lockupCoins\<rparr>], lockupCoins)
             else (m_VestingPeriods msg, vestingCoins))
      in (lockupPeriods, lockupCoins, vestingPeriods, vestingCoins))"

definition new_base_account :: "addr \<Rightarrow> base_account" where
  "new_base_account a = \<lparr>acc_Address = a, acc_PubKey = None, acc_Number = 0, acc_Sequence = 0\<rparr>"

definition create_or_merge ::
  "coins_ops \<Rightarrow> periods_ops \<Rightarrow> bech32_ops \<Rightarrow> 'x account_ops \<Rightarrow> 'x staking_ops \<Rightarrow> time \<Rightarrow> msg_create
     \<Rightarrow> addr \<Rightarrow> addr \<Rightarrow> period list \<Rightarrow> period list \<Rightarrow> coins \<Rightarrow> ('x, unit) cmd" where
  "create_or_merge C P H A S blockTime msg src dst lockupPeriods vestingPeriods vestingCoins x =
     (case GetAccount A x dst of
        Some (ClawbackAcc vestingAcc) \<Rightarrow>
          if \<not> m_Merge msg then (Err ErrInvalidRequest, x) else
          if m_FromAddress msg \<noteq> FunderAddress vestingAcc then (Err ErrInvalidRequest, x) else
          (case addGrant C S blockTime x vestingAcc (Unix (m_StartTime msg)) lockupPeriods
                  vestingPeriods vestingCoins of
             Ok vestingAcc' \<Rightarrow> (Ok (), SetAccount A (ClawbackAcc vestingAcc') x)
           | Err e \<Rightarrow> (Err e, x)
           | Panic \<Rightarrow> (Panic, x))
      | Some (OtherAcc _) \<Rightarrow> if \<not> m_Merge msg then (Err ErrInvalidRequest, x) else (Err ErrNotSupported, x)
      | None \<Rightarrow>
          let vestingAcc = NewClawbackVestingAccount H P (new_base_account dst) src vestingCoins
                             (m_StartTime msg) lockupPeriods vestingPeriods;
              (acc, x') = NewAccount A (ClawbackAcc vestingAcc) x
          in (Ok (), SetAccount A acc x'))"

definition CreateClawbackVestingAccount ::
  "coins_ops \<Rightarrow> periods_ops \<Rightarrow> bech32_ops \<Rightarrow> 'x account_ops \<Rightarrow> 'x bank_ops \<Rightarrow> 'x staking_ops \<Rightarrow> time
     \<Rightarrow> msg_create \<Rightarrow> ('x, unit) cmd" where
  "CreateClawbackVestingAccount C P H A B S blockTime msg x =
     (case (AccAddressFromBech32 H (m_FromAddress msg), AccAddressFromBech32 H (m_ToAddress msg)) of
        (Some src, Some dst) \<Rightarrow>
          if BlockedAddr B dst then (Err ErrUnauthorized, x) else
          let (lockupPeriods, lockupCoins, vestingPeriods, vestingCoins) = grant_schedules C P msg in
          if \<not> (coins_IsAllLTE C vestingCoins lockupCoins \<and> coins_IsAllLTE C lockupCoins vestingCoins)
          then (Err ErrInvalidRequest, x) else
          bindS (create_or_merge C P H A S blockTime msg src dst lockupPeriods vestingPeriods vestingCoins)
            (\<lambda>_. SendCoins B src dst vestingCoins) x
      | _ \<Rightarrow> (Panic, x))"

definition transferClawback ::
  "coins_ops \<Rightarrow> periods_ops \<Rightarrow> 'x account_ops \<Rightarrow> 'x bank_ops \<Rightarrow> time \<Rightarrow> clawback_account \<Rightarrow> addr
     \<Rightarrow> ('x, unit) cmd" where
  "transferClawback C P A B blockTime va dest x =
     (case ComputeClawback C P va (Unix blockTime) of
        None \<Rightarrow> (Panic, x)
      | Some (updatedAcc, toClawBack) \<Rightarrow>
          if coins_IsZero C toClawBack then (Ok (), x) else
          SendCoins B (acc_Address (BaseAccount (BVA updatedAcc))) dest toClawBack
            (SetAccount A (ClawbackAcc updatedAcc) x))"

definition bech32_or_nil :: "bech32_ops \<Rightarrow> string \<Rightarrow> addr" where
  "bech32_or_nil H s = (case AccAddressFromBech32 H s of None \<Rightarrow> [] | Some a \<Rightarrow> a)"

definition Clawback ::
  "coins_ops \<Rightarrow> periods_ops \<Rightarrow> bech32_ops \<Rightarrow> 'x account_ops \<Rightarrow> 'x bank_ops \<Rightarrow> time \<Rightarrow> msg_clawback
     \<Rightarrow> ('x, unit) cmd" where
  "Clawback C P H A B blockTime msg x =
     (case AccAddressFromBech32 H (m_AccountAddress msg) of
        None \<Rightarrow> (Panic, x)
      | Some addr \<Rightarrow>
          let dest = (if m_DestAddress msg = [] then bech32_or_nil H (m_FunderAddress msg)
                      else bech32_or_nil H (m_DestAddress msg)) in
          if BlockedAddr B dest then (Err ErrUnauthorized, x) else
          (case GetAccount A x addr of
             None \<Rightarrow> (Err ErrNotFound, x)
           | Some (OtherAcc _) \<Rightarrow> (Err ErrInvalidRequest, x)
           | Some (ClawbackAcc va) \<Rightarrow>
               if FunderAddress va \<noteq> m_FunderAddress msg then (Err ErrInvalidRequest, x) else
               if blockTime < StartTime va then (Err ErrInvalidRequest, x) else
               transferClawback C P A B blockTime va dest x))"

section \<open>The query server\<close>

record balances_response =
  Locked :: coins
  Unvested :: coins
  Vested :: coins

definition Balances ::
  "coins_ops \<Rightarrow> bech32_ops \<Rightarrow> 'x account_ops \<Rightarrow> time \<Rightarrow> string option \<Rightarrow> 'x \<Rightarrow> balances_response outcome" where
  "Balances C H A blockTime req x =
     (case req of
        None \<Rightarrow> Err ErrInvalidArgument
      | Some address \<Rightarrow>
     (case AccAddressFromBech32 H address of
        None \<Rightarrow> Err ErrInvalidArgument
      | Some addr \<Rightarrow>
     (case GetAccount A x addr of
        None \<Rightarrow> Err ErrNotFound
      | Some (OtherAcc _) \<Rightarrow> Err ErrInvalidArgument
      | Some (ClawbackAcc va) \<Rightarrow>
          bindO (orPanic (GetLockedOnly C va blockTime)) (\<lambda>locked.
          bindO (orPanic (GetUnvestedOnly C va blockTime)) (\<lambda>unvested.
          Ok \<lparr>Locked = locked, Unvested = unvested, Vested = GetVestedOnly C va blockTime\<rparr>)))))"

section \<open>Merging a grant\<close>

context coins_laws
begin

lemma sched_total_of_at:
  assumes "sched_ok C s ps" and "sched_ok C sa as" and "sched_ok C sb bs"
    and "\<forall>t d. sched_at C s ps t d = sched_at C sa as t d + sched_at C sb bs t d"
  shows "sched_total C ps d = sched_total C as d + sched_total C bs d"
proof -
  let ?t = "max (s + tlen ps) (max (sa + tlen as) (sb + tlen bs))"
  have "sched_at C s ps ?t d = sched_total C ps d" "sched_at C sa as ?t d = sched_total C as d"
    "sched_at C sb bs ?t d = sched_total C bs d"
    using assms(1-3) by (auto intro!: sched_at_after simp: sched_ok_def)
  with assms(4) show ?thesis by metis
qed

lemma addGrant_spec:
  assumes ok: "va_ok C va" and l: "sched_ok C gs gl" and v: "sched_ok C gs gv" and g: "valid gc"
    and gl: "\<And>d. amt gc d = sched_total C gl d" and gv: "\<And>d. amt gc d = sched_total C gv d"
    and bond: "coins_ValidDenom C (BondDenom S x)"
    and del: "0 \<le> GetDelegatorBonded S x (acc_Address (BaseAccount (BVA va))) + GetDelegatorUnbonding S x (acc_Address (BaseAccount (BVA va)))"
  shows "\<exists>va'. addGrant C S bt x va gs gl gv gc = Ok va' \<and> va_ok C va' \<and>
     GetStartTime va' = min (GetStartTime va) gs \<and>
     BaseAccount (BVA va') = BaseAccount (BVA va) \<and> FunderAddress va' = FunderAddress va \<and>
     (\<forall>d. amt (OriginalVesting (BVA va')) d = amt (OriginalVesting (BVA va)) d + amt gc d) \<and>
     (\<forall>t d. sched_at C (GetStartTime va') (LockupPeriods va') t d =
        sched_at C (GetStartTime va) (LockupPeriods va) t d + sched_at C gs gl t d) \<and>
     (\<forall>t d. sched_at C (GetStartTime va') (VestingPeriods va') t d =
        sched_at C (GetStartTime va) (VestingPeriods va) t d + sched_at C gs gv t d) \<and>
     (\<forall>d. amt (DelegatedVesting (BVA va')) d + amt (DelegatedFree (BVA va')) d =
        (if d = BondDenom S x then GetDelegatorBonded S x (acc_Address (BaseAccount (BVA va)))
           + GetDelegatorUnbonding S x (acc_Address (BaseAccount (BVA va))) else 0))"
proof -
  let ?s = "min (GetStartTime va) gs"
  obtain dl where dl: "coins_New C [oneCoin (BondDenom S x) (GetDelegatorBonded S x (acc_Address (BaseAccount (BVA va)))
       + GetDelegatorUnbonding S x (acc_Address (BaseAccount (BVA va))))] = Some dl" "valid dl"
    "\<And>d. amt dl d = (if d = BondDenom S x then GetDelegatorBonded S x (acc_Address (BaseAccount (BVA va)))
       + GetDelegatorUnbonding S x (acc_Address (BaseAccount (BVA va))) else 0)"
    using New_one [OF bond del] by auto
  obtain lp where lp: "DisjunctPeriods C (GetStartTime va) gs (LockupPeriods va) gl = (?s, ?s + tlen lp, lp)"
    "sched_ok C ?s lp" "\<forall>t d. sched_at C ?s lp t d = sched_at C (GetStartTime va) (LockupPeriods va) t d + sched_at C gs gl t d"
    using DisjunctPeriods_spec [OF va_okD(1) [OF ok] l] by (auto simp: Min64_min)
  obtain vp where vp: "DisjunctPeriods C (GetStartTime va) gs (VestingPeriods va) gv = (?s, ?s + tlen vp, vp)"
    "sched_ok C ?s vp" "\<forall>t d. sched_at C ?s vp t d = sched_at C (GetStartTime va) (VestingPeriods va) t d + sched_at C gs gv t d"
    using DisjunctPeriods_spec [OF va_okD(2) [OF ok] v] by (auto simp: Min64_min)
  define va1 where "va1 = va\<lparr>StartTime := time_Unix ?s, LockupPeriods := lp, VestingPeriods := vp,
     BVA := (BVA va)\<lparr>EndTime := Max64 (?s + tlen lp) (?s + tlen vp),
                     OriginalVesting := coins_Add C (OriginalVesting (BVA va)) gc\<rparr>\<rparr>"
  have f: "GetStartTime va1 = ?s" "LockupPeriods va1 = lp" "VestingPeriods va1 = vp"
    "\<And>d. amt (OriginalVesting (BVA va1)) d = amt (OriginalVesting (BVA va)) d + amt gc d"
    using va_okD(5) [OF ok] g by (simp_all add: va1_def GetStartTime_def Add_amount)
  have tot: "sched_total C lp d = sched_total C (LockupPeriods va) d + sched_total C gl d"
    "sched_total C vp d = sched_total C (VestingPeriods va) d + sched_total C gv d" for d
    using sched_total_of_at [OF lp(2) va_okD(1) [OF ok] l lp(3)]
      sched_total_of_at [OF vp(2) va_okD(2) [OF ok] v vp(3)] by auto
  have ok1: "va_ok C va1"
    unfolding va_ok_def f tot using lp(2) vp(2) va_okD(5-7) [OF ok] g gl gv
    by (simp add: va1_def Max64_max Add_valid)
  obtain u where u: "GetVestingCoins C va1 bt = Some u" "valid u"
    using GetVestingCoins_spec [OF ok1] by blast
  have m: "valid (coins_Min C dl u)" "\<And>d. amt (coins_Min C dl u) d \<le> amt dl d"
    using dl(2) u(2) by (simp_all add: Min_valid Min_amount)
  obtain df where df: "coins_Sub C dl (coins_Min C dl u) = Some df"
    "\<forall>d. amt df d = amt dl d - amt (coins_Min C dl u) d"
    using Sub_ok [OF dl(2) m(1) m(2)] by blast
  define va' where "va' = va1\<lparr>BVA := (BVA va1)\<lparr>DelegatedVesting := coins_Min C dl u, DelegatedFree := df\<rparr>\<rparr>"
  have "addGrant C S bt x va gs gl gv gc = Ok va'"
    using u(1) df(1)
    by (simp add: addGrant_def Let_def dl(1) lp(1) vp(1) GetVestingPeriods_def va1_def orPanic_def va'_def)
  moreover have "va_ok C va'" using ok1 by (auto simp: va'_def va_ok_def GetStartTime_def)
  moreover have "GetStartTime va' = ?s" "LockupPeriods va' = lp" "VestingPeriods va' = vp"
    using f by (simp_all add: va'_def GetStartTime_def)
  moreover have "BaseAccount (BVA va') = BaseAccount (BVA va)" "FunderAddress va' = FunderAddress va"
    by (simp_all add: va'_def va1_def)
  moreover have "\<forall>d. amt (OriginalVesting (BVA va')) d = amt (OriginalVesting (BVA va)) d + amt gc d"
    using f(4) by (simp add: va'_def)
  moreover have "\<forall>d. amt (DelegatedVesting (BVA va')) d + amt (DelegatedFree (BVA va')) d = amt dl d"
    using df(2) by (simp add: va'_def)
  ultimately show ?thesis using lp(3) vp(3) dl(3) by (intro exI [of _ va']) simp
qed

end

section \<open>The handlers\<close>

locale vesting_laws = keeper_laws C A B D R + periods_laws C P
  for C :: coins_ops and A :: "'x account_ops" and B :: "'x bank_ops" and D :: "'x distr_ops"
    and R :: "string set" and P :: periods_ops
begin

lemma grant_schedules_ok:
  assumes l: "sched_ok C s (m_LockupPeriods msg)" and v: "sched_ok C s (m_VestingPeriods msg)"
    and g: "grant_schedules C P msg = (lp, lc, vp, vc)"
    and eq: "coins_IsAllLTE C vc lc \<and> coins_IsAllLTE C lc vc"
  shows "sched_ok C s lp \<and> sched_ok C s vp \<and> valid vc \<and>
     (\<forall>d. amt vc d = sched_total C lp d) \<and> (\<forall>d. amt vc d = sched_total C vp d) \<and>
     (\<forall>d. amt vc d = (if m_VestingPeriods msg = [] then sched_total C (m_LockupPeriods msg) d
                        else sched_total C (m_VestingPeriods msg) d))"
proof -
  have pok: "periods_ok C (m_LockupPeriods msg)" "periods_ok C (m_VestingPeriods msg)"
    and s: "time_ok s" using l v by (auto simp: sched_ok_def)
  note T = TotalAmount_valid [OF pok(1)] TotalAmount_valid [OF pok(2)]
    TotalAmount_amount [OF pok(1)] TotalAmount_amount [OF pok(2)]
  note Z = IsZero_iff [OF T(1)] IsZero_iff [OF T(2)]
  have "valid lc" "valid vc"
    using g T(1,2) by (auto simp: grant_schedules_def Let_def split: if_splits)
  then have amts: "\<And>d. amt lc d = amt vc d" using eq IsAllLTE_antisym by blast
  show ?thesis
    using g l v s T amts
    by (cases "m_LockupPeriods msg = []"; cases "m_VestingPeriods msg = []")
      (auto simp: grant_schedules_def Let_def Z sched_ok_Cons sched_ok_Nil split: if_splits)
qed

lemma moved_SetAccount: "moved C B a b c (SetAccount A acc x) x' \<longleftrightarrow> moved C B a b c x x'"
  by (simp add: moved_def SetAccount_balance)

lemma create_or_merge_spec:
  assumes ok: "sched_ok C (Unix (m_StartTime msg)) lp" "sched_ok C (Unix (m_StartTime msg)) vp" "valid vc"
      "\<And>d. amt vc d = sched_total C lp d" "\<And>d. amt vc d = sched_total C vp d"
    and bond: "coins_ValidDenom C (BondDenom S x)"
    and del: "\<And>a. 0 \<le> GetDelegatorBonded S x a + GetDelegatorUnbonding S x a"
    and old: "\<And>va. GetAccount A x dst = Some (ClawbackAcc va) \<Longrightarrow> va_ok C va \<and> acc_Address (BaseAccount (BVA va)) = dst"
    and run: "create_or_merge C P H A S bt msg src dst lp vp vc x = (Ok u, x1)"
  shows "\<exists>va'. GetAccount A x1 dst = Some (ClawbackAcc va') \<and> va_ok C va' \<and>
     (\<forall>d. amt (OriginalVesting (BVA va')) d = amt vc d +
        (case GetAccount A x dst of Some (ClawbackAcc va) \<Rightarrow> amt (OriginalVesting (BVA va)) d | _ \<Rightarrow> 0)) \<and>
     GetBalance B x1 = GetBalance B x \<and> GetSupply B x1 = GetSupply B x"
proof (cases "GetAccount A x dst")
  case None
  define va where "va = NewClawbackVestingAccount H P (new_base_account dst) src vc (m_StartTime msg) lp vp"
  obtain acc x2 where new: "NewAccount A (ClawbackAcc va) x = (acc, x2)" by fastforce
  then obtain n where n: "acc = ClawbackAcc (va\<lparr>BVA := (BVA va)\<lparr>BaseAccount := (BaseAccount (BVA va))\<lparr>acc_Number := n\<rparr>\<rparr>\<rparr>)"
    "GetBalance B x2 = GetBalance B x" "GetSupply B x2 = GetSupply B x"
    using NewAccount_clawback by blast
  have "va_ok C va" unfolding va_def using ok by (intro NewClawbackVestingAccount_ok) auto
  then have "va_ok C (va\<lparr>BVA := (BVA va)\<lparr>BaseAccount := (BaseAccount (BVA va))\<lparr>acc_Number := n\<rparr>\<rparr>\<rparr>)"
    by (auto simp: va_ok_def GetStartTime_def)
  moreover have "acc_Address (BaseAccount (BVA va)) = dst" "OriginalVesting (BVA va) = vc"
    by (simp_all add: va_def NewClawbackVestingAccount_def new_base_account_def split: prod.splits)
  moreover have "x1 = SetAccount A acc x2"
    using run new by (simp add: create_or_merge_def None va_def)
  ultimately show ?thesis
    using n by (simp add: GetAccount_SetAccount SetAccount_balance None)
next
  case (Some acc)
  with run obtain va va' where acc: "acc = ClawbackAcc va"
    and grant: "addGrant C S bt x va (Unix (m_StartTime msg)) lp vp vc = Ok va'" "x1 = SetAccount A (ClawbackAcc va') x"
    by (auto simp: create_or_merge_def split: account.splits if_splits outcome.splits)
  have old': "va_ok C va" "acc_Address (BaseAccount (BVA va)) = dst" using old Some acc by auto
  show ?thesis
    using addGrant_spec [OF old'(1) ok bond, of bt] del grant old'(2) Some acc
    by (auto simp: GetAccount_SetAccount SetAccount_balance)
qed

lemma transferClawback_spec:
  assumes ok: "va_ok C va" and bt: "StartTime va \<le> bt" and run: "transferClawback C P A B bt va dest x = (Ok u, x')"
    and acc: "GetAccount A x addr = Some (ClawbackAcc va)" "acc_Address (BaseAccount (BVA va)) = addr"
  shows "\<exists>va' clawed. GetAccount A x' addr = Some (ClawbackAcc va') \<and> va_ok C va' \<and> moved C B addr dest clawed x x' \<and>
     (\<forall>d. amt clawed d = amt (OriginalVesting (BVA va)) d - vested_at C va (Unix bt) d) \<and>
     (\<forall>t d. vested_at C va' t d = vested_at C va (min t (Unix bt)) d)"
proof -
  have start: "GetStartTime va \<le> Unix bt" using bt by (simp add: GetStartTime_def Unix_mono)
  obtain va' clawed where r: "ComputeClawback C P va (Unix bt) = Some (va', clawed)" "va_ok C va'" "valid clawed"
    "\<forall>d. amt clawed d = amt (OriginalVesting (BVA va)) d - vested_at C va (Unix bt) d"
    "\<forall>t d. vested_at C va' t d = vested_at C va (min t (Unix bt)) d"
    "BaseAccount (BVA va') = BaseAccount (BVA va)"
    using ComputeClawback_spec [OF ok start] by blast
  show ?thesis
  proof (cases "coins_IsZero C clawed")
    case True
    then have zero: "\<forall>d. amt clawed d = 0" using IsZero_iff r(3) by blast
    have "vested_at C va t d = vested_at C va (min t (Unix bt)) d" for t d
    proof (cases "t \<le> Unix bt")
      case False
      then have "vested_at C va (Unix bt) d \<le> vested_at C va t d" by (intro vested_at_mono [OF ok]) simp
      with False zero r(4) vested_at_bounds(2) [OF ok, of t d] show ?thesis by (simp add: min_absorb2)
    qed (simp add: min_absorb1)
    moreover have "moved C B addr dest clawed x x" using zero by (simp add: moved_def)
    ultimately show ?thesis using run True r(1,4) ok acc(1) by (auto simp: transferClawback_def)
  next
    case False
    with run r(1,6) acc(2) have send: "SendCoins B addr dest clawed (SetAccount A (ClawbackAcc va') x) = (Ok u, x')"
      by (simp add: transferClawback_def)
    have "GetAccount A x' addr = Some (ClawbackAcc va')"
      using r(6) acc(2) by (intro SendCoins_accounts [OF send]) (simp add: GetAccount_SetAccount)
    then show ?thesis
      using SendCoins_moved [OF r(3) send] r(2,4,5) by (auto simp: moved_SetAccount)
  qed
qed

end

interpretation stdv: vesting_laws std_coins std_accounts std_bank std_distr UNIV std_periods
  by unfold_locales

section \<open>Properties\<close>

definition ex_world :: std_world where
  "ex_world = \<lparr>w_accounts = [(''alice'', ClawbackAcc ex_account)],
     w_denoms = [''aevmos''], w_balance = (\<lambda>a d. if d = ''aevmos'' then (if a = ''funder'' then 100 else if a = ''alice'' then 12 else 0) else 0),
     w_supply = (\<lambda>d. 0)\<rparr>"

definition ex_create :: "string \<Rightarrow> bool \<Rightarrow> msg_create" where
  "ex_create dst merge = \<lparr>m_FromAddress = ''funder'', m_ToAddress = dst, m_StartTime = time_Unix 103,
     m_LockupPeriods = ex_lockup, m_VestingPeriods = [], m_Merge = merge\<rparr>"

definition ex_clawback :: msg_clawback where
  "ex_clawback = \<lparr>m_FunderAddress = ''funder'', m_AccountAddress = ''alice'', m_DestAddress = []\<rparr>"

text \<open>C8.  Merging a grant into a well-formed account succeeds and gives a well-formed account that
  has unlocked and vested, at every time, what the account and the grant would have on their own;
  the original vesting grows by the grant, and the delegated-vesting and delegated-free coins add
  up to what the staking keeper reports as delegated.\<close>

theorem addGrant_sums:
  assumes "coins_laws C" and "va_ok C va" and "sched_ok C gs gl" and "sched_ok C gs gv" and "coins_IsValid C gc"
    and "\<And>d. coins_AmountOf C gc d = sched_total C gl d" and "\<And>d. coins_AmountOf C gc d = sched_total C gv d"
    and "coins_ValidDenom C (BondDenom S x)"
    and "delegated = GetDelegatorBonded S x (acc_Address (BaseAccount (BVA va)))
                       + GetDelegatorUnbonding S x (acc_Address (BaseAccount (BVA va)))" and "0 \<le> delegated"
  shows "\<exists>va'. addGrant C S blockTime x va gs gl gv gc = Ok va' \<and> va_ok C va'
     \<and> (\<forall>d. coins_AmountOf C (OriginalVesting (BVA va')) d
              = coins_AmountOf C (OriginalVesting (BVA va)) d + coins_AmountOf C gc d)
     \<and> (\<forall>t d. sched_at C (GetStartTime va') (LockupPeriods va') t d
              = sched_at C (GetStartTime va) (LockupPeriods va) t d + sched_at C gs gl t d)
     \<and> (\<forall>t d. sched_at C (GetStartTime va') (VestingPeriods va') t d
              = sched_at C (GetStartTime va) (VestingPeriods va) t d + sched_at C gs gv t d)
     \<and> (\<forall>d. coins_AmountOf C (DelegatedVesting (BVA va')) d + coins_AmountOf C (DelegatedFree (BVA va')) d
              = (if d = BondDenom S x then delegated else 0))"
  using coins_laws.addGrant_spec [OF assms(1-8), of blockTime] assms(9,10) by fastforce

lemma ex_grant:
  "coins_IsValid std_coins [oneCoin ''aevmos'' 12]"
  "coins_AmountOf std_coins [oneCoin ''aevmos'' 12] d = sched_total std_coins [\<lparr>Length = 0, Amount = [oneCoin ''aevmos'' 12]\<rparr>] d"
  "sched_ok std_coins 103 [\<lparr>Length = 0, Amount = [oneCoin ''aevmos'' 12]\<rparr>]"
  by (simp_all add: sched_eval std_defs)

theorem addGrant_sums_witness:
  "\<exists>va'. addGrant std_coins std_staking 0 ex_world ex_account 103 ex_lockup
       [\<lparr>Length = 0, Amount = [oneCoin ''aevmos'' 12]\<rparr>] [oneCoin ''aevmos'' 12] = Ok va'
     \<and> va_ok std_coins va' \<and> coins_AmountOf std_coins (OriginalVesting (BVA va')) ''aevmos'' = 24"
  using addGrant_sums [OF std.coins_laws_axioms ex_account_ok ex_sched_ok(2) ex_grant(3,1) ex_total(2) ex_grant(2),
      of std_staking ex_world 0 0]
  by (auto simp: std_staking_def std_coins_def std_AmountOf_def)

text \<open>C9.  When the create message succeeds on schedules within the time range, the receiving
  address holds a well-formed clawback account, new or merged, whose original vesting grew by the
  message's total, and exactly that total moved from the funder to the account.  The address is not
  blocked, and an account it had before is a clawback account of the same funder and the message
  asks for a merge.\<close>

theorem CreateClawbackVestingAccount_sound:
  assumes "vesting_laws C A B D R P"
    and "sched_ok C (Unix (m_StartTime msg)) (m_LockupPeriods msg)"
    and "sched_ok C (Unix (m_StartTime msg)) (m_VestingPeriods msg)"
    and "coins_ValidDenom C (BondDenom S x)"
    and "\<And>a. 0 \<le> GetDelegatorBonded S x a + GetDelegatorUnbonding S x a"
    and "AccAddressFromBech32 H (m_FromAddress msg) = Some src" and "AccAddressFromBech32 H (m_ToAddress msg) = Some dst"
    and "\<And>va. GetAccount A x dst = Some (ClawbackAcc va) \<Longrightarrow> va_ok C va \<and> acc_Address (BaseAccount (BVA va)) = dst"
    and "CreateClawbackVestingAccount C P H A B S blockTime msg x = (Ok u, x')"
  shows "\<exists>va' g. GetAccount A x' dst = Some (ClawbackAcc va') \<and> va_ok C va' \<and> moved C B src dst g x x'
     \<and> (\<forall>d. coins_AmountOf C g d = (if m_VestingPeriods msg = [] then sched_total C (m_LockupPeriods msg) d
                                     else sched_total C (m_VestingPeriods msg) d))
     \<and> (\<forall>d. coins_AmountOf C (OriginalVesting (BVA va')) d = coins_AmountOf C g d
          + (case GetAccount A x dst of Some (ClawbackAcc va) \<Rightarrow> coins_AmountOf C (OriginalVesting (BVA va)) d | _ \<Rightarrow> 0))
     \<and> \<not> BlockedAddr B dst \<and> (\<forall>acc. GetAccount A x dst = Some acc \<longrightarrow>
          (\<exists>va. acc = ClawbackAcc va \<and> m_Merge msg \<and> FunderAddress va = m_FromAddress msg))"
proof -
  note K = vesting_laws.axioms(1) [OF assms(1)]
  obtain lp lc vp vc where g: "grant_schedules C P msg = (lp, lc, vp, vc)" by (metis prod_cases4)
  obtain x1 where run: "coins_IsAllLTE C vc lc \<and> coins_IsAllLTE C lc vc"
    "create_or_merge C P H A S blockTime msg src dst lp vp vc x = (Ok (), x1)" "SendCoins B src dst vc x1 = (Ok u, x')"
    using assms(6,7,9) by (auto simp: CreateClawbackVestingAccount_def g bindS_Ok_iff split: if_splits)
  note ok = vesting_laws.grant_schedules_ok [OF assms(1-3) g run(1)]
  obtain va' where va': "GetAccount A x1 dst = Some (ClawbackAcc va')" "va_ok C va'"
     "\<forall>d. coins_AmountOf C (OriginalVesting (BVA va')) d = coins_AmountOf C vc d +
        (case GetAccount A x dst of Some (ClawbackAcc va) \<Rightarrow> coins_AmountOf C (OriginalVesting (BVA va)) d | _ \<Rightarrow> 0)"
     "GetBalance B x1 = GetBalance B x" "GetSupply B x1 = GetSupply B x"
    using vesting_laws.create_or_merge_spec [OF assms(1) _ _ _ _ _ assms(4,5,8) run(2)] ok by blast
  have "moved C B src dst vc x x'"
    using keeper_laws.SendCoins_moved [OF K _ run(3)] ok va'(4,5) by (simp add: moved_def)
  moreover have "GetAccount A x' dst = Some (ClawbackAcc va')"
    by (rule keeper_laws.SendCoins_accounts [OF K run(3) va'(1)])
  moreover have "\<not> BlockedAddr B dst"
    using assms(6,7,9) by (auto simp: CreateClawbackVestingAccount_def)
  moreover have "\<forall>acc. GetAccount A x dst = Some acc \<longrightarrow> (\<exists>va. acc = ClawbackAcc va \<and> m_Merge msg \<and> FunderAddress va = m_FromAddress msg)"
    using run(2) by (auto simp: create_or_merge_def split: option.splits account.splits if_splits)
  ultimately show ?thesis using ok va'(2,3) by blast
qed

theorem CreateClawbackVestingAccount_sound_witness:
  "\<exists>va' x'. CreateClawbackVestingAccount std_coins std_periods std_bech32 std_accounts std_bank std_staking 0
       (ex_create ''bob'' False) ex_world = (Ok (), x')
     \<and> GetAccount std_accounts x' ''bob'' = Some (ClawbackAcc va') \<and> va_ok std_coins va'
     \<and> coins_AmountOf std_coins (OriginalVesting (BVA va')) ''aevmos'' = 12"
proof -
  have "fst (CreateClawbackVestingAccount std_coins std_periods std_bech32 std_accounts std_bank std_staking 0
       (ex_create ''bob'' False) ex_world) = Ok ()" by code_simp
  then obtain x' where run: "CreateClawbackVestingAccount std_coins std_periods std_bech32 std_accounts std_bank std_staking 0
       (ex_create ''bob'' False) ex_world = (Ok (), x')"
    by (metis prod.collapse)
  show ?thesis
    using CreateClawbackVestingAccount_sound [OF stdv.vesting_laws_axioms _ _ _ _ _ _ _ run, of "''funder''" "''bob''"] run
      ex_sched_ok(2)
    by (auto simp: ex_create_def ex_world_def std_staking_def std_bech32_def std_accounts_def kv_get_def
        ex_lockup_def sched_ok_def time_ok_def std_coins_def std_AmountOf_def)
qed

text \<open>C10.  A clawback message succeeds only on a clawback account whose funder is the message's
  funder, and not before the vesting start.  It then moves exactly the unvested coins from the
  account to the destination (the funder when none is given) and leaves a well-formed account in
  which what had vested by the block time stays and nothing vests later.\<close>

theorem Clawback_sound:
  assumes "vesting_laws C A B D R P"
    and "AccAddressFromBech32 H (m_AccountAddress msg) = Some addr"
    and "\<And>va. GetAccount A x addr = Some (ClawbackAcc va) \<Longrightarrow> va_ok C va \<and> acc_Address (BaseAccount (BVA va)) = addr"
    and "Clawback C P H A B blockTime msg x = (Ok u, x')"
  shows "\<exists>va va' clawed. GetAccount A x addr = Some (ClawbackAcc va) \<and> FunderAddress va = m_FunderAddress msg
     \<and> StartTime va \<le> blockTime
     \<and> GetAccount A x' addr = Some (ClawbackAcc va') \<and> va_ok C va'
     \<and> moved C B addr (bech32_or_nil H (if m_DestAddress msg = [] then m_FunderAddress msg else m_DestAddress msg)) clawed x x'
     \<and> (\<forall>d. coins_AmountOf C clawed d = coins_AmountOf C (OriginalVesting (BVA va)) d
              - coins_AmountOf C (GetVestedOnly C va blockTime) d)
     \<and> (\<forall>t d. coins_AmountOf C (GetVestedOnly C va' (time_Unix t)) d
              = coins_AmountOf C (GetVestedOnly C va (time_Unix (min t (Unix blockTime)))) d)"
proof -
  have cl: "coins_laws C" using assms(1) by (simp add: vesting_laws_def keeper_laws_def)
  let ?dest = "bech32_or_nil H (if m_DestAddress msg = [] then m_FunderAddress msg else m_DestAddress msg)"
  obtain va where va: "GetAccount A x addr = Some (ClawbackAcc va)" "FunderAddress va = m_FunderAddress msg"
    "StartTime va \<le> blockTime" "transferClawback C P A B blockTime va ?dest x = (Ok u, x')"
    using assms(2,4) by (auto simp: Clawback_def Let_def split: option.splits account.splits if_splits)
  have ok: "va_ok C va" "acc_Address (BaseAccount (BVA va)) = addr" using assms(3) va(1) by auto
  show ?thesis
    using vesting_laws.transferClawback_spec [OF assms(1) ok(1) va(3,4,1) ok(2)] va(1-3)
    by (auto simp: coins_laws.GetVestedOnly_amount [OF cl] ok(1))
qed

theorem Clawback_sound_witness:
  "\<exists>va' x'. Clawback std_coins std_periods std_bech32 std_accounts std_bank (time_Unix 120) ex_clawback ex_world = (Ok (), x')
     \<and> GetAccount std_accounts x' ''alice'' = Some (ClawbackAcc va') \<and> va_ok std_coins va'"
proof -
  have "fst (Clawback std_coins std_periods std_bech32 std_accounts std_bank (time_Unix 120) ex_clawback ex_world) = Ok ()"
    by code_simp
  then have "\<exists>x'. Clawback std_coins std_periods std_bech32 std_accounts std_bank (time_Unix 120) ex_clawback ex_world = (Ok (), x')"
    by (metis prod.collapse)
  then show ?thesis
    using Clawback_sound [OF stdv.vesting_laws_axioms, of std_bech32 ex_clawback "''alice''" ex_world "time_Unix 120" "()"]
      ex_account_ok
    by (fastforce simp: ex_clawback_def std_bech32_def ex_world_def std_accounts_def kv_get_def ex_account_def ex_base_def)
qed

end
