(* ===== verification/Ante.thy ===== *)
theory Ante
  imports Sdk_Keepers
begin

text \<open>
  \<open>app/ante/vesting.go\<close> and \<open>app/ante/comission.go\<close>: the decorators of this repository that run
  before a transaction is executed.  A decorator either stops with an error or hands over to the next
  handler, whose result is the argument \<open>next\<close>.  Messages wrapped in an authz \<open>MsgExec\<close> are protobuf
  \<open>Any\<close> values of a type \<open>'any\<close>; unpacking them is the codec's work and a parameter.
\<close>

section \<open>Transactions\<close>

datatype 'any sdk_msg =
    MsgEthereumTx addr
  | MsgExec "'any list"
  | MsgDelegate "addr list" coin
  | MsgCreateValidator int
  | MsgEditValidator "int option"
  | OtherMsg string

datatype ante_err =
    AnteUnknownRequest | AnteUnknownAddress | AnteInsufficientVestedCoins | AnteVestingLockup
  | AnteUnpack | AnteInvalidRequest | AnteUnknownExtensionOptions | AntePanic | AnteExt string

type_synonym 'r ante = "ante_err + 'r"

section \<open>\<open>EthVestingTransactionDecorator\<close>\<close>

fun EthVesting_AnteHandle ::
  "coins_ops \<Rightarrow> 'x account_ops \<Rightarrow> time \<Rightarrow> 'x \<Rightarrow> 'r ante \<Rightarrow> 'any sdk_msg list \<Rightarrow> 'r ante" where
  "EthVesting_AnteHandle C A blockTime x next [] = next"
| "EthVesting_AnteHandle C A blockTime x next (msg # msgs) =
     (case msg of
        MsgEthereumTx sender \<Rightarrow>
          (case GetAccount A x sender of
             None \<Rightarrow> Inl AnteUnknownAddress
           | Some (OtherAcc _) \<Rightarrow> next
           | Some (ClawbackAcc va) \<Rightarrow>
               if length (GetVestedCoins C va blockTime) = 0 then Inl AnteInsufficientVestedCoins else
               (case HasLockedCoins C va blockTime of
                  None \<Rightarrow> Inl AntePanic
                | Some True \<Rightarrow> Inl AnteVestingLockup
                | Some False \<Rightarrow> EthVesting_AnteHandle C A blockTime x next msgs))
      | _ \<Rightarrow> Inl AnteUnknownRequest)"

section \<open>\<open>VestingDelegationDecorator\<close>\<close>

fun vdd_signers ::
  "coins_ops \<Rightarrow> 'x account_ops \<Rightarrow> 'x staking_ops \<Rightarrow> time \<Rightarrow> 'x \<Rightarrow> int \<Rightarrow> addr list \<Rightarrow> unit ante" where
  "vdd_signers C A S blockTime x amount [] = Inr ()"
| "vdd_signers C A S blockTime x amount (addr # addrs) =
     (case GetAccount A x addr of
        None \<Rightarrow> Inl AnteUnknownAddress
      | Some (OtherAcc _) \<Rightarrow> Inr ()
      | Some (ClawbackAcc va) \<Rightarrow>
          let bondDenom = BondDenom S x;
              coins = GetVestedOnly C va blockTime in
          if coins = [] then Inl AnteInsufficientVestedCoins else
          if coins_AmountOf C coins bondDenom < amount then Inl AnteInsufficientVestedCoins
          else vdd_signers C A S blockTime x amount addrs)"

definition vdd_validateMsg ::
  "coins_ops \<Rightarrow> 'x account_ops \<Rightarrow> 'x staking_ops \<Rightarrow> time \<Rightarrow> 'x \<Rightarrow> 'any sdk_msg \<Rightarrow> unit ante" where
  "vdd_validateMsg C A S blockTime x msg =
     (case msg of
        MsgDelegate signers coin \<Rightarrow> vdd_signers C A S blockTime x (Amt coin) signers
      | _ \<Rightarrow> Inr ())"

text \<open>The loop of the two decorators' \<open>validateAuthz\<close>, over the check of one inner message.\<close>

fun validateAuthz :: "('any \<Rightarrow> 'any sdk_msg option) \<Rightarrow> ('any sdk_msg \<Rightarrow> unit ante) \<Rightarrow> 'any list \<Rightarrow> unit ante" where
  "validateAuthz UnpackAny validateMsg [] = Inr ()"
| "validateAuthz UnpackAny validateMsg (v # vs) =
     (case UnpackAny v of
        None \<Rightarrow> Inl AnteUnpack
      | Some innerMsg \<Rightarrow>
          (case validateMsg innerMsg of
             Inl e \<Rightarrow> Inl e
           | Inr _ \<Rightarrow> validateAuthz UnpackAny validateMsg vs))"

text \<open>The loop of the two decorators' \<open>AnteHandle\<close>.\<close>

fun ante_msgs ::
  "('any \<Rightarrow> 'any sdk_msg option) \<Rightarrow> ('any sdk_msg \<Rightarrow> unit ante) \<Rightarrow> 'r ante \<Rightarrow> 'any sdk_msg list \<Rightarrow> 'r ante" where
  "ante_msgs UnpackAny validateMsg next [] = next"
| "ante_msgs UnpackAny validateMsg next (msg # msgs) =
     (case (case msg of
              MsgExec inner \<Rightarrow> validateAuthz UnpackAny validateMsg inner
            | _ \<Rightarrow> validateMsg msg) of
        Inl e \<Rightarrow> Inl e
      | Inr _ \<Rightarrow> ante_msgs UnpackAny validateMsg next msgs)"

definition VestingDelegation_AnteHandle ::
  "coins_ops \<Rightarrow> 'x account_ops \<Rightarrow> 'x staking_ops \<Rightarrow> ('any \<Rightarrow> 'any sdk_msg option) \<Rightarrow> time \<Rightarrow> 'x \<Rightarrow> 'r ante
     \<Rightarrow> 'any sdk_msg list \<Rightarrow> 'r ante" where
  "VestingDelegation_AnteHandle C A S UnpackAny blockTime x next msgs =
     ante_msgs UnpackAny (vdd_validateMsg C A S blockTime x) next msgs"

section \<open>\<open>ValidatorCommissionDecorator\<close>\<close>

text \<open>\<open>sdk.Dec\<close> in units of \<open>10 ^ -18\<close>: five percent.\<close>

definition minCommission :: int where
  "minCommission = 5 * 10 ^ 16"

definition vcd_validateMsg :: "'any sdk_msg \<Rightarrow> unit ante" where
  "vcd_validateMsg msg =
     (case msg of
        MsgCreateValidator rate \<Rightarrow> if rate < minCommission then Inl AnteInvalidRequest else Inr ()
      | MsgEditValidator (Some rate) \<Rightarrow> if rate < minCommission then Inl AnteInvalidRequest else Inr ()
      | _ \<Rightarrow> Inr ())"

definition ValidatorCommission_AnteHandle ::
  "('any \<Rightarrow> 'any sdk_msg option) \<Rightarrow> 'r ante \<Rightarrow> 'any sdk_msg list \<Rightarrow> 'r ante" where
  "ValidatorCommission_AnteHandle UnpackAny next msgs = ante_msgs UnpackAny vcd_validateMsg next msgs"

section \<open>Lemmas\<close>

lemma validateAuthz_ok:
  "validateAuthz U f vs = Inr () \<longleftrightarrow> (\<forall>v \<in> set vs. \<exists>m. U v = Some m \<and> f m = Inr ())"
  by (induction vs) (auto split: option.splits sum.splits)

definition msg_checked :: "('any \<Rightarrow> 'any sdk_msg option) \<Rightarrow> ('any sdk_msg \<Rightarrow> unit ante) \<Rightarrow> 'any sdk_msg \<Rightarrow> bool" where
  "msg_checked U f msg \<longleftrightarrow>
     (case msg of MsgExec inner \<Rightarrow> \<forall>v \<in> set inner. \<exists>m. U v = Some m \<and> f m = Inr () | _ \<Rightarrow> f msg = Inr ())"

lemma ante_msgs_ok:
  "ante_msgs U f next msgs = Inr r \<longleftrightarrow> next = Inr r \<and> (\<forall>m \<in> set msgs. msg_checked U f m)"
proof (induction msgs)
  case (Cons m ms)
  show ?case
  proof (cases "case m of MsgExec inner \<Rightarrow> validateAuthz U f inner | _ \<Rightarrow> f m")
    case (Inl e)
    moreover have "\<not> msg_checked U f m"
    proof
      assume c: "msg_checked U f m"
      have "(case m of MsgExec inner \<Rightarrow> validateAuthz U f inner | _ \<Rightarrow> f m) = Inr ()"
        using c by (cases m) (auto simp: msg_checked_def validateAuthz_ok)
      with Inl show False by simp
    qed
    ultimately show ?thesis by simp
  next
    case (Inr u)
    then have "msg_checked U f m"
      by (cases m) (auto simp: msg_checked_def validateAuthz_ok)
    with Inr Cons show ?thesis by simp
  qed
qed simp

definition commission_ok :: "'any sdk_msg \<Rightarrow> bool" where
  "commission_ok msg = (case msg of
      MsgCreateValidator rate \<Rightarrow> 5 * 10 ^ 16 \<le> rate
    | MsgEditValidator newRate \<Rightarrow> (case newRate of None \<Rightarrow> True | Some rate \<Rightarrow> 5 * 10 ^ 16 \<le> rate)
    | _ \<Rightarrow> True)"

lemma vcd_validateMsg_ok: "vcd_validateMsg m = Inr () \<longleftrightarrow> commission_ok m"
  by (cases m) (auto simp: vcd_validateMsg_def commission_ok_def minCommission_def split: option.splits)

lemma msg_checked_inner:
  "msg_checked U f (MsgExec inner) \<Longrightarrow> v \<in> set inner \<Longrightarrow> U v = Some m \<Longrightarrow> f m = Inr ()"
  by (force simp: msg_checked_def)

text \<open>A message sent directly or wrapped once in an authz execution.\<close>

definition sent :: "('any \<Rightarrow> 'any sdk_msg option) \<Rightarrow> 'any sdk_msg list \<Rightarrow> 'any sdk_msg \<Rightarrow> bool" where
  "sent U msgs m \<longleftrightarrow> m \<in> set msgs \<or> (\<exists>inner v. MsgExec inner \<in> set msgs \<and> v \<in> set inner \<and> U v = Some m)"

lemma ante_msgs_sent:
  assumes "ante_msgs U f next msgs = Inr r" and "sent U msgs m" and "\<And>inner. m \<noteq> MsgExec inner"
  shows "f m = Inr ()"
proof -
  have checked: "\<forall>m \<in> set msgs. msg_checked U f m" using assms(1) by (simp add: ante_msgs_ok)
  show ?thesis
    using assms(2) unfolding sent_def
  proof
    assume "m \<in> set msgs"
    with checked assms(3) show ?thesis by (cases m) (auto simp: msg_checked_def dest: bspec)
  next
    assume "\<exists>inner v. MsgExec inner \<in> set msgs \<and> v \<in> set inner \<and> U v = Some m"
    then obtain inner v where v: "MsgExec inner \<in> set msgs" "v \<in> set inner" "U v = Some m" by blast
    show ?thesis by (rule msg_checked_inner [OF bspec [OF checked v(1)] v(2,3)])
  qed
qed

lemma delegation_limit:
  assumes "VestingDelegation_AnteHandle C A S UnpackAny blockTime x next msgs = Inr r"
    and "sent UnpackAny msgs (MsgDelegate (a # as) coin)" and "GetAccount A x a = Some (ClawbackAcc va)"
  shows "Amt coin \<le> coins_AmountOf C (GetVestedOnly C va blockTime) (BondDenom S x)"
  using ante_msgs_sent [OF assms(1) [unfolded VestingDelegation_AnteHandle_def] assms(2)] assms(3)
  by (auto simp: vdd_validateMsg_def Let_def split: if_splits)

text \<open>The messages before the first one that is not sent by a clawback account, and what may end them: the
  end of the transaction or another account.\<close>

definition is_clawback :: "'x account_ops \<Rightarrow> 'x \<Rightarrow> 'any sdk_msg \<Rightarrow> bool" where
  "is_clawback A x m =
     (case m of MsgEthereumTx a \<Rightarrow> (case GetAccount A x a of Some (ClawbackAcc _) \<Rightarrow> True | _ \<Rightarrow> False) | _ \<Rightarrow> False)"

definition clawback_prefix :: "'x account_ops \<Rightarrow> 'x \<Rightarrow> 'any sdk_msg list \<Rightarrow> 'any sdk_msg list" where
  "clawback_prefix A x msgs = takeWhile (is_clawback A x) msgs"

definition prefix_ends :: "'x account_ops \<Rightarrow> 'x \<Rightarrow> 'any sdk_msg list \<Rightarrow> bool" where
  "prefix_ends A x msgs =
     (case dropWhile (is_clawback A x) msgs of
        [] \<Rightarrow> True
      | m # _ \<Rightarrow> (case m of MsgEthereumTx a \<Rightarrow> (case GetAccount A x a of Some (OtherAcc _) \<Rightarrow> True | _ \<Rightarrow> False) | _ \<Rightarrow> False))"

text \<open>Some coin has vested, and everything is unlocked.\<close>

definition may_spend :: "coins_ops \<Rightarrow> clawback_account \<Rightarrow> time \<Rightarrow> bool" where
  "may_spend C va t \<longleftrightarrow> (\<exists>d. coins_AmountOf C (GetVestedCoins C va t) d > 0) \<and>
     (\<forall>d. coins_AmountOf C (GetUnlockedOnly C va t) d = coins_AmountOf C (OriginalVesting (BVA va)) d)"

lemma is_clawback_iff: "is_clawback A x m \<longleftrightarrow> (\<exists>a va. m = MsgEthereumTx a \<and> GetAccount A x a = Some (ClawbackAcc va))"
  by (auto simp: is_clawback_def split: sdk_msg.splits option.splits account.splits)

lemma EthVesting_sound:
  assumes "EthVesting_AnteHandle C A t x next msgs = Inr r" and "MsgEthereumTx a \<in> set (clawback_prefix A x msgs)"
    and "GetAccount A x a = Some (ClawbackAcc va)"
  shows "GetVestedCoins C va t \<noteq> [] \<and> HasLockedCoins C va t = Some False"
  using assms
proof (induction msgs)
  case (Cons m ms)
  have "is_clawback A x m" using Cons.prems(2) by (auto simp: clawback_prefix_def split: if_splits)
  then obtain b vb where m: "m = MsgEthereumTx b" "GetAccount A x b = Some (ClawbackAcc vb)"
    by (auto simp: is_clawback_iff)
  then show ?case
    using Cons by (auto simp: clawback_prefix_def split: if_splits option.splits bool.splits)
qed (simp add: clawback_prefix_def)

context coins_laws
begin

lemma GetVestedCoins_empty:
  assumes "va_ok C va"
  shows "GetVestedCoins C va t = [] \<longleftrightarrow> (\<forall>d. amt (GetVestedCoins C va t) d = 0)"
  using GetVestedCoins_spec(1) [OF assms, of t] valid_no_amount amount_empty by metis

lemma HasLockedCoins_spec:
  assumes "va_ok C va"
  shows "HasLockedCoins C va t = Some (\<exists>d. unlocked_at C va (Unix t) d \<noteq> amt (OriginalVesting (BVA va)) d)"
proof -
  obtain c where c: "GetLockedOnly C va t = Some c" "valid c"
    "\<forall>d. amt c d = amt (OriginalVesting (BVA va)) d - unlocked_at C va (Unix t) d"
    using GetLockedOnly_spec [OF assms] by blast
  then have "coins_IsZero C c \<longleftrightarrow> (\<forall>d. unlocked_at C va (Unix t) d = amt (OriginalVesting (BVA va)) d)"
    using IsZero_iff [OF c(2)] by auto
  with c show ?thesis by (simp add: HasLockedCoins_def)
qed

lemma may_spend_iff:
  assumes "va_ok C va"
  shows "may_spend C va t \<longleftrightarrow> GetVestedCoins C va t \<noteq> [] \<and> HasLockedCoins C va t = Some False"
proof -
  have "GetVestedCoins C va t \<noteq> [] \<longleftrightarrow> (\<exists>d. amt (GetVestedCoins C va t) d > 0)"
    using GetVestedCoins_empty [OF assms, of t] amount_nonneg [OF GetVestedCoins_spec(1) [OF assms], of t]
    by (auto simp: order_less_le)
  then show ?thesis
    by (auto simp: may_spend_def HasLockedCoins_spec [OF assms] GetUnlockedOnly_amount [OF assms])
qed

lemma EthVesting_ok:
  assumes "\<And>a va. GetAccount A x a = Some (ClawbackAcc va) \<Longrightarrow> va_ok C va"
  shows "EthVesting_AnteHandle C A t x next msgs = Inr r \<longleftrightarrow> next = Inr r \<and> prefix_ends A x msgs \<and>
     (\<forall>a va. MsgEthereumTx a \<in> set (clawback_prefix A x msgs) \<longrightarrow> GetAccount A x a = Some (ClawbackAcc va) \<longrightarrow> may_spend C va t)"
proof (induction msgs)
  case (Cons m ms)
  show ?case
  proof (cases m)
    case (MsgEthereumTx a)
    show ?thesis
    proof (cases "\<exists>va. GetAccount A x a = Some (ClawbackAcc va)")
      case True
      then obtain va where va: "GetAccount A x a = Some (ClawbackAcc va)" by blast
      obtain b where "HasLockedCoins C va t = Some b" using HasLockedCoins_spec [OF assms [OF va]] by blast
      moreover have "is_clawback A x m" using MsgEthereumTx va by (simp add: is_clawback_def)
      ultimately show ?thesis
        using Cons MsgEthereumTx va may_spend_iff [OF assms [OF va], of t]
        by (cases b) (auto simp: clawback_prefix_def prefix_ends_def)
    next
      case False
      then have "\<not> is_clawback A x m" using MsgEthereumTx by (auto simp: is_clawback_def split: option.splits account.splits)
      then show ?thesis
        using False MsgEthereumTx by (auto simp: clawback_prefix_def prefix_ends_def split: option.splits account.splits)
    qed
  qed (simp_all add: prefix_ends_def is_clawback_def)
qed (simp add: clawback_prefix_def prefix_ends_def)

end

section \<open>Properties\<close>

datatype std_any = Pack "std_any sdk_msg"

fun std_unpack :: "std_any \<Rightarrow> std_any sdk_msg option" where
  "std_unpack (Pack m) = Some m"

definition ex_ante_world :: std_world where
  "ex_ante_world = \<lparr>w_accounts = [(''alice'', ClawbackAcc ex_account), (''bob'', OtherAcc (ex_base\<lparr>acc_Address := ''bob''\<rparr>))],
     w_denoms = [''aevmos''], w_balance = (\<lambda>a d. 0), w_supply = (\<lambda>d. 0)\<rparr>"

text \<open>C12.  The Ethereum vesting check, exactly and for every transaction.  It hands a transaction on if
  and only if each clawback account that sends a message before the first sender of another kind has
  some vested coin and nothing locked, and what follows these messages is the end of the transaction
  or a message of an existing account of another kind.  Behind that message nothing is checked: not
  the locked coins of further clawback accounts, not whether the senders exist, not the kind of the
  messages.\<close>

theorem EthVesting_exact:
  assumes "coins_laws C"
    and "\<And>a va. GetAccount A x a = Some (ClawbackAcc va) \<Longrightarrow> va_ok C va"
  shows "EthVesting_AnteHandle C A blockTime x next msgs = Inr r \<longleftrightarrow> next = Inr r \<and> prefix_ends A x msgs \<and>
     (\<forall>a va. MsgEthereumTx a \<in> set (clawback_prefix A x msgs) \<longrightarrow> GetAccount A x a = Some (ClawbackAcc va) \<longrightarrow>
        (\<exists>d. coins_AmountOf C (GetVestedCoins C va blockTime) d > 0) \<and>
        (\<forall>d. coins_AmountOf C (GetUnlockedOnly C va blockTime) d = coins_AmountOf C (OriginalVesting (BVA va)) d))"
  using coins_laws.EthVesting_ok [OF assms(1), of A x blockTime "next" msgs r] assms(2)
  unfolding may_spend_def by blast

lemma ex_ante_accounts:
  "GetAccount std_accounts ex_ante_world a =
     (if a = ''alice'' then Some (ClawbackAcc ex_account)
      else if a = ''bob'' then Some (OtherAcc (ex_base\<lparr>acc_Address := ''bob''\<rparr>)) else None)"
  by (simp add: ex_ante_world_def std_accounts_def kv_get_def ex_account_def ex_base_def)

theorem EthVesting_exact_witness:
  "EthVesting_AnteHandle std_coins std_accounts (time_Unix 131) ex_ante_world (Inr ()) [MsgEthereumTx ''alice'' :: std_any sdk_msg] = Inr ()
   \<and> EthVesting_AnteHandle std_coins std_accounts (time_Unix 112) ex_ante_world (Inr ()) [MsgEthereumTx ''alice'' :: std_any sdk_msg] \<noteq> Inr ()
   \<and> EthVesting_AnteHandle std_coins std_accounts (time_Unix 112) ex_ante_world (Inr ())
       [MsgEthereumTx ''bob'', MsgEthereumTx ''alice'', OtherMsg ''any'' :: std_any sdk_msg] = Inr ()"
proof -
  have ok: "\<And>a va. GetAccount std_accounts ex_ante_world a = Some (ClawbackAcc va) \<Longrightarrow> va_ok std_coins va"
    using ex_account_ok by (auto simp: ex_ante_accounts split: if_splits)
  have E: "EthVesting_AnteHandle std_coins std_accounts t ex_ante_world (Inr ()) msgs = Inr () \<longleftrightarrow>
      Inr () = (Inr () :: unit ante) \<and> prefix_ends std_accounts ex_ante_world msgs \<and>
      (\<forall>a va. MsgEthereumTx a \<in> set (clawback_prefix std_accounts ex_ante_world msgs) \<longrightarrow>
         GetAccount std_accounts ex_ante_world a = Some (ClawbackAcc va) \<longrightarrow>
         (\<exists>d. coins_AmountOf std_coins (GetVestedCoins std_coins va t) d > 0) \<and>
         (\<forall>d. coins_AmountOf std_coins (GetUnlockedOnly std_coins va t) d = coins_AmountOf std_coins (OriginalVesting (BVA va)) d))"
    for t and msgs :: "std_any sdk_msg list"
    by (rule EthVesting_exact [OF std.coins_laws_axioms]) (rule ok)
  note D = clawback_prefix_def prefix_ends_def is_clawback_def ex_ante_accounts
  have 1: "coins_AmountOf std_coins (GetVestedCoins std_coins ex_account (time_Unix 131)) ''aevmos'' > 0" by code_simp
  have 2: "GetUnlockedOnly std_coins ex_account (time_Unix 131) = OriginalVesting (BVA ex_account)" by code_simp
  have 3: "coins_AmountOf std_coins (GetUnlockedOnly std_coins ex_account (time_Unix 112)) ''aevmos''
      \<noteq> coins_AmountOf std_coins (OriginalVesting (BVA ex_account)) ''aevmos''" by code_simp
  show ?thesis unfolding E using 1 2 3 by (auto simp: D)
qed



text \<open>C14.  The commission decorator hands a transaction on exactly when every create- or
  edit-validator message sent directly, or wrapped once in an authz execution, sets a commission
  of at least five percent; an execution inside an execution is not looked into.\<close>

theorem ValidatorCommission_exact:
  "ValidatorCommission_AnteHandle UnpackAny next msgs = Inr r \<longleftrightarrow> next = Inr r \<and>
     (\<forall>m \<in> set msgs. case m of
        MsgExec inner \<Rightarrow> (\<forall>v \<in> set inner. \<exists>m'. UnpackAny v = Some m' \<and> commission_ok m')
      | _ \<Rightarrow> commission_ok m)"
  unfolding ValidatorCommission_AnteHandle_def ante_msgs_ok msg_checked_def vcd_validateMsg_ok ..

theorem ValidatorCommission_exact_witness:
  "ValidatorCommission_AnteHandle std_unpack (Inr ()) [MsgExec [Pack (MsgExec [Pack (MsgCreateValidator 0)])]] = Inr ()
   \<and> ValidatorCommission_AnteHandle std_unpack (Inr ()) [MsgExec [Pack (MsgCreateValidator 0)]] \<noteq> Inr ()"
  by (simp add: ValidatorCommission_exact commission_ok_def)

end
