(* ===== verification/Sdk_Dec.thy ===== *)
theory Sdk_Dec
  imports Sdk_Keepers
begin

text \<open>
  The SDK's fixed-point decimals \<open>sdk.Dec\<close>: an integer in units of \<open>10 ^ -18\<close>.  Addition,
  subtraction and comparison are exact on that integer and written directly; the rounded
  operations are a parameter \<open>dec_ops\<close>.  \<open>dec_laws\<close> states how far each may be off: \<open>Mul\<close> rounds
  to the nearest unit, \<open>Quo\<close> first truncates at 36 digits and then rounds, \<open>QuoInt\<close> and
  \<open>TruncateInt\<close> truncate.  Panics for results of more than 315 bits are outside the model.
\<close>

type_synonym dec = int

definition dec_one :: dec where
  "dec_one = 10 ^ 18"

lemma dec_one_pos [simp]: "0 < dec_one" "0 \<le> dec_one" "dec_one \<noteq> 0" "\<bar>dec_one\<bar> = dec_one"
  by (simp_all add: dec_one_def)

lemma dec_one_num: "dec_one = 1000000000000000000"
  by (simp add: dec_one_def)

lemma abs_via: "\<bar>x - z\<bar> \<le> \<bar>x - y\<bar> + \<bar>y - (z :: int)\<bar>"
  by linarith

definition NewDec :: "int \<Rightarrow> dec" where
  "NewDec n = n * dec_one"

record dec_ops =
  dec_Mul :: "dec \<Rightarrow> dec \<Rightarrow> dec"
  dec_Quo :: "dec \<Rightarrow> dec \<Rightarrow> dec option"
  dec_QuoInt :: "dec \<Rightarrow> int \<Rightarrow> dec option"
  dec_Power :: "dec \<Rightarrow> nat \<Rightarrow> dec"
  dec_TruncateInt :: "dec \<Rightarrow> int"
  dec_RoundInt :: "dec \<Rightarrow> int"

locale dec_laws =
  fixes F :: dec_ops
  assumes Mul_near: "2 * \<bar>dec_one * dec_Mul F a b - a * b\<bar> \<le> dec_one"
    and Quo_None: "dec_Quo F a b = None \<longleftrightarrow> b = 0"
    and Quo_near: "dec_Quo F a b = Some q \<Longrightarrow> 2 * \<bar>dec_one * (q * b) - dec_one * dec_one * a\<bar> \<le> (dec_one + 2) * \<bar>b\<bar>"
    and QuoInt_None: "dec_QuoInt F a n = None \<longleftrightarrow> n = 0"
    and QuoInt_floor: "0 \<le> a \<Longrightarrow> 0 < n \<Longrightarrow> dec_QuoInt F a n = Some (a div n)"
    and Power_0: "dec_Power F a 0 = dec_one"
    and Power_unit: "0 \<le> a \<Longrightarrow> a \<le> dec_one \<Longrightarrow> 0 \<le> dec_Power F a k \<and> dec_Power F a k \<le> dec_one"
    and Truncate_floor: "0 \<le> a \<Longrightarrow> dec_TruncateInt F a = a div dec_one"
    and Round_near: "2 * \<bar>dec_one * dec_RoundInt F a - a\<bar> \<le> dec_one"
begin

lemma Mul_exact:
  assumes "a * b = dec_one * c" shows "dec_Mul F a b = c"
proof -
  have "2 * (dec_one * \<bar>dec_Mul F a b - c\<bar>) \<le> dec_one"
    using Mul_near [of a b] by (simp add: assms abs_mult flip: right_diff_distrib)
  then have "2 * \<bar>dec_Mul F a b - c\<bar> \<le> 1"
    by (simp add: dec_one_def)
  then show ?thesis by arith
qed

lemma Mul_nonneg: "0 \<le> a \<Longrightarrow> 0 \<le> b \<Longrightarrow> 0 \<le> dec_Mul F a b"
proof (rule ccontr)
  assume "0 \<le> a" "0 \<le> b" and neg: "\<not> 0 \<le> dec_Mul F a b"
  then have "0 \<le> a * b" by simp
  with Mul_near [of a b] neg show False by (simp add: dec_one_def)
qed

lemma Mul_unit_le: "0 \<le> a \<Longrightarrow> 0 \<le> b \<Longrightarrow> b \<le> dec_one \<Longrightarrow> dec_Mul F a b \<le> a"
proof (rule ccontr)
  assume a: "0 \<le> a" "0 \<le> b" "b \<le> dec_one" and gt: "\<not> dec_Mul F a b \<le> a"
  then have "a * b \<le> a * dec_one" by (simp add: mult_left_mono)
  moreover have "dec_one * (a + 1) \<le> dec_one * dec_Mul F a b" using gt by (intro mult_left_mono) simp_all
  ultimately show False using Mul_near [of a b] by (simp add: dec_one_def algebra_simps)
qed

lemma Mul_NewDec: "dec_Mul F (NewDec n) b = n * b"
  by (rule Mul_exact) (simp add: NewDec_def)

lemma Quo_nonneg:
  assumes "0 \<le> a" "0 < b" "dec_Quo F a b = Some q" shows "0 \<le> q"
proof (rule ccontr)
  assume "\<not> 0 \<le> q"
  then have "q \<le> - 1" by simp
  then have "q * b \<le> - b" using assms(2) mult_right_mono [of q "-1" b] by simp
  with Quo_near [OF assms(3)] assms(1,2) show False by (simp add: dec_one_def)
qed

end

section \<open>An executable instance\<close>

text \<open>Rounding half to even, as the SDK does.\<close>

definition std_chop :: "int \<Rightarrow> int" where
  "std_chop x = (let a = \<bar>x\<bar>; q = a div dec_one; r = a mod dec_one;
                     v = (if 2 * r < dec_one then q else if 2 * r > dec_one then q + 1
                          else if even q then q else q + 1)
                 in if x < 0 then - v else v)"

definition std_quo :: "int \<Rightarrow> int \<Rightarrow> int" where
  "std_quo a b = (let q = \<bar>a\<bar> div \<bar>b\<bar> in if (a < 0) = (b < 0) then q else - q)"

fun std_power :: "dec \<Rightarrow> nat \<Rightarrow> dec" where
  "std_power a 0 = dec_one"
| "std_power a (Suc n) = std_chop (std_power a n * a)"

definition std_dec :: dec_ops where
  "std_dec = \<lparr>dec_Mul = (\<lambda>a b. std_chop (a * b)),
     dec_Quo = (\<lambda>a b. if b = 0 then None else Some (std_chop (std_quo (a * dec_one * dec_one) b))),
     dec_QuoInt = (\<lambda>a n. if n = 0 then None else Some (std_quo a n)),
     dec_Power = std_power,
     dec_TruncateInt = (\<lambda>a. std_quo a dec_one),
     dec_RoundInt = std_chop\<rparr>"

lemma std_chop_near: "2 * \<bar>dec_one * std_chop x - x\<bar> \<le> dec_one"
proof -
  let ?a = "\<bar>x\<bar>"
  define q r where "q = ?a div dec_one" and "r = ?a mod dec_one"
  have a: "?a = dec_one * q + r" by (simp add: q_def r_def)
  have r: "0 \<le> r" "r < dec_one" by (simp_all add: r_def dec_one_def)
  define v where "v = (if 2 * r < dec_one then q else if 2 * r > dec_one then q + 1 else if even q then q else q + 1)"
  have c: "std_chop x = (if x < 0 then - v else v)"
    by (simp add: std_chop_def Let_def v_def q_def r_def)
  have "2 * \<bar>dec_one * v - ?a\<bar> \<le> dec_one"
    using r by (auto simp: v_def a algebra_simps)
  moreover have "\<bar>dec_one * std_chop x - x\<bar> = \<bar>dec_one * v - ?a\<bar>"
    unfolding c by (cases "x < 0") (auto simp: abs_minus_commute [of _ x])
  ultimately show ?thesis by simp
qed

lemma std_quo_near: "b \<noteq> 0 \<Longrightarrow> \<bar>std_quo a b * b - a\<bar> \<le> \<bar>b\<bar>"
proof -
  assume b: "b \<noteq> 0"
  define q where "q = \<bar>a\<bar> div \<bar>b\<bar>"
  have "\<bar>b\<bar> * q + \<bar>a\<bar> mod \<bar>b\<bar> = \<bar>a\<bar>" by (simp add: q_def)
  moreover have "0 \<le> \<bar>a\<bar> mod \<bar>b\<bar>" "\<bar>a\<bar> mod \<bar>b\<bar> < \<bar>b\<bar>" using b by simp_all
  ultimately have "\<bar>b\<bar> * q \<le> \<bar>a\<bar>" "\<bar>a\<bar> \<le> \<bar>b\<bar> * q + \<bar>b\<bar>" by linarith+
  then show ?thesis
    unfolding std_quo_def Let_def q_def [symmetric]
    by (cases "a < 0"; cases "b < 0") (auto simp: mult.commute)
qed

interpretation stdd: dec_laws std_dec
proof
  have P: "0 < dec_one" by (simp add: dec_one_def)
  show "2 * \<bar>dec_one * dec_Mul std_dec a b - a * b\<bar> \<le> dec_one" for a b
    using std_chop_near by (simp add: std_dec_def)
  show "(dec_Quo std_dec a b = None) = (b = 0)" for a b by (simp add: std_dec_def)
  show "2 * \<bar>dec_one * (q * b) - dec_one * dec_one * a\<bar> \<le> (dec_one + 2) * \<bar>b\<bar>"
    if "dec_Quo std_dec a b = Some q" for a b q
  proof -
    define t where "t = std_quo (a * dec_one * dec_one) b"
    have b: "b \<noteq> 0" and q: "q = std_chop t" using that by (auto simp: std_dec_def t_def split: if_splits)
    have 1: "2 * \<bar>dec_one * q - t\<bar> \<le> dec_one" using std_chop_near q by simp
    have 2: "\<bar>t * b - a * dec_one * dec_one\<bar> \<le> \<bar>b\<bar>" using std_quo_near [OF b] t_def by simp
    have "2 * \<bar>dec_one * q * b - t * b\<bar> \<le> dec_one * \<bar>b\<bar>"
      using mult_right_mono [OF 1, of "\<bar>b\<bar>"] by (simp add: abs_mult flip: left_diff_distrib)
    with 2 abs_via [of "dec_one * q * b" "a * dec_one * dec_one" "t * b"]
    have "2 * \<bar>dec_one * q * b - a * dec_one * dec_one\<bar> \<le> dec_one * \<bar>b\<bar> + 2 * \<bar>b\<bar>" by linarith
    then show ?thesis by (simp add: algebra_simps)
  qed
  show "(dec_QuoInt std_dec a n = None) = (n = 0)" for a n by (simp add: std_dec_def)
  show "0 \<le> a \<Longrightarrow> 0 < n \<Longrightarrow> dec_QuoInt std_dec a n = Some (a div n)" for a n
    by (simp add: std_dec_def std_quo_def)
  show "dec_Power std_dec a 0 = dec_one" for a by (simp add: std_dec_def)
  show "0 \<le> dec_Power std_dec a n \<and> dec_Power std_dec a n \<le> dec_one" if "0 \<le> a" "a \<le> dec_one" for a n
  proof (induction n)
    case (Suc n)
    then have ih: "0 \<le> std_power a n" "std_power a n \<le> dec_one" by (auto simp: std_dec_def)
    have "0 \<le> std_power a n * a" "std_power a n * a \<le> dec_one * dec_one"
      using ih that by (auto intro: mult_mono)
    moreover define y z where "y = std_power a n * a" and "z = std_chop y"
    ultimately have "0 \<le> y" "y \<le> dec_one * dec_one" "2 * \<bar>dec_one * z - y\<bar> \<le> dec_one"
      using std_chop_near by simp_all
    then have "- 1 < z" "z < dec_one + 1" by (simp_all add: dec_one_def abs_le_iff)
    then have "0 \<le> z \<and> z \<le> dec_one" by simp
    then show ?case by (simp add: std_dec_def y_def z_def)
  qed (simp add: std_dec_def dec_one_def)
  show "0 \<le> a \<Longrightarrow> dec_TruncateInt std_dec a = a div dec_one" for a
    by (simp add: std_dec_def std_quo_def dec_one_def)
  show "2 * \<bar>dec_one * dec_RoundInt std_dec a - a\<bar> \<le> dec_one" for a
    using std_chop_near by (simp add: std_dec_def)
qed

end
