(* ===== verification/Evmos_Utils.thy ===== *)
theory Evmos_Utils
  imports Sdk_Dec
begin

text \<open>
  \<open>types/utils.go\<close> and \<open>ibc/utils.go\<close>: the chain identifiers, the supported public keys, bech32
  addresses of other chains and the data of an ICS-20 transfer packet.  Decoding bech32 and JSON
  is library code and a parameter.
\<close>

definition MainnetChainID :: string where "MainnetChainID = ''evmos_9001''"

definition TestnetChainID :: string where "TestnetChainID = ''evmos_9000''"

definition HasPrefix :: "string \<Rightarrow> string \<Rightarrow> bool" where
  "HasPrefix s p \<longleftrightarrow> take (length p) s = p"

definition IsMainnet :: "string \<Rightarrow> bool" where
  "IsMainnet chainID = HasPrefix chainID MainnetChainID"

definition IsTestnet :: "string \<Rightarrow> bool" where
  "IsTestnet chainID = HasPrefix chainID TestnetChainID"

datatype pubkey = EthSecp256k1 bytes | Ed25519 bytes | MultisigKey "pubkey list" | OtherKey bytes

fun supported_single :: "pubkey \<Rightarrow> bool" where
  "supported_single (EthSecp256k1 _) = True"
| "supported_single (Ed25519 _) = True"
| "supported_single _ = False"

fun IsSupportedKey :: "pubkey \<Rightarrow> bool" where
  "IsSupportedKey (EthSecp256k1 _) = True"
| "IsSupportedKey (Ed25519 _) = True"
| "IsSupportedKey (MultisigKey pks) = (if length pks = 0 then False else list_all supported_single pks)"
| "IsSupportedKey (OtherKey _) = False"

record ibc_ops =
  GetFromBech32 :: "string \<Rightarrow> string \<Rightarrow> addr option"
  VerifyAddressFormat :: "addr \<Rightarrow> bool"
  NewIntFromString :: "string \<Rightarrow> int option"

definition GetEvmosAddressFromBech32 :: "ibc_ops \<Rightarrow> string \<Rightarrow> addr outcome" where
  "GetEvmosAddressFromBech32 I address =
     (let bech32Prefix = takeWhile (\<lambda>c. c \<noteq> CHR ''1'') address in
      if bech32Prefix = address then Err ErrInvalidAddress else
      (case GetFromBech32 I address bech32Prefix of
         None \<Rightarrow> Err ErrInvalidAddress
       | Some addressBz \<Rightarrow>
           if \<not> VerifyAddressFormat I addressBz then Err (ErrExt ''VerifyAddressFormat'') else Ok addressBz))"

record ftpd =
  ft_Denom :: string
  ft_Amount :: string
  ft_Sender :: string
  ft_Receiver :: string

record packet =
  p_Data :: "ftpd option"
  p_SourcePort :: string
  p_SourceChannel :: string
  p_DestPort :: string
  p_DestChannel :: string

text \<open>\<open>p_Data\<close> is the packet's data as the JSON codec decodes it, \<open>None\<close> where it does not.\<close>

definition GetTransferSenderRecipient ::
  "ibc_ops \<Rightarrow> packet \<Rightarrow> (addr \<times> addr \<times> string \<times> string) outcome" where
  "GetTransferSenderRecipient I packet =
     (case p_Data packet of
        None \<Rightarrow> Err ErrUnknownRequest
      | Some data \<Rightarrow>
          bindO (GetEvmosAddressFromBech32 I (ft_Sender data)) (\<lambda>sender.
          bindO (GetEvmosAddressFromBech32 I (ft_Receiver data)) (\<lambda>recipient.
          Ok (sender, recipient, ft_Sender data, ft_Receiver data))))"

definition GetTransferAmount :: "ibc_ops \<Rightarrow> packet \<Rightarrow> string outcome" where
  "GetTransferAmount I packet =
     (case p_Data packet of
        None \<Rightarrow> Err ErrUnknownRequest
      | Some data \<Rightarrow>
          if ft_Amount data = [] then Err ErrInvalidCoins else
          if NewIntFromString I (ft_Amount data) = None then Err ErrInvalidCoins else
          Ok (ft_Amount data))"

lemma not_both_nets: "\<not> (IsMainnet c \<and> IsTestnet c)"
  by (auto simp: IsMainnet_def IsTestnet_def HasPrefix_def MainnetChainID_def TestnetChainID_def)

lemma GetTransferAmount_Ok:
  "GetTransferAmount I p = Ok a \<longleftrightarrow> (\<exists>data n. p_Data p = Some data \<and> a = ft_Amount data \<and> a \<noteq> [] \<and> NewIntFromString I a = Some n)"
  by (auto simp: GetTransferAmount_def split: option.splits)

lemma GetTransferSenderRecipient_Ok:
  "GetTransferSenderRecipient I p = Ok (s, r, sb, rb) \<longleftrightarrow>
     (\<exists>data. p_Data p = Some data \<and> sb = ft_Sender data \<and> rb = ft_Receiver data \<and>
        GetEvmosAddressFromBech32 I sb = Ok s \<and> GetEvmosAddressFromBech32 I rb = Ok r)"
  by (auto simp: GetTransferSenderRecipient_def bindO_Ok_iff split: option.splits)

section \<open>An executable instance\<close>

definition std_parse :: "string \<Rightarrow> int option" where
  "std_parse s = (if s \<noteq> [] \<and> list_all (\<lambda>c. 48 \<le> (of_char c :: int) \<and> (of_char c :: int) \<le> 57) s
                  then Some (foldl (\<lambda>n c. 10 * n + (of_char c - 48)) 0 s) else None)"

definition std_ibc :: ibc_ops where
  "std_ibc = \<lparr>GetFromBech32 = (\<lambda>s p. if take (length p + 1) s = p @ ''1'' then Some (drop (length p + 1) s) else None),
              VerifyAddressFormat = (\<lambda>a. a \<noteq> []), NewIntFromString = std_parse\<rparr>"

end
