(* ===== verification/Ante_Chains.thy ===== *)
theory Ante_Chains
  imports Ante Evmos_Utils
begin

text \<open>
  \<open>app/ante/handler_options.go\<close>, \<open>app/ante/ante.go\<close> and \<open>app/sigverify.go\<close>: the three chains of
  decorators in their order, the choice between them, and the gas of signature verification.  The
  decorators of the SDK, of Ethermint and of ibc-go are parameters; the decorators of this repository are
  those of \<open>Ante\<close>.  A transaction is a value of a type \<open>'tx\<close> with its messages and extension options.
\<close>

section \<open>Decorators\<close>

text \<open>A context holds the stores and the block header.  A decorator gets the transaction, the context and
  the rest of the chain; the whole chain gives an error or the last context.  The function of the SDK that
  makes a handler of a list of decorators is a parameter too.\<close>

type_synonym ('tx, 'c) decorator = "'tx \<Rightarrow> 'c \<Rightarrow> ('c \<Rightarrow> 'c ante) \<Rightarrow> 'c ante"

text \<open>The decorators of other packages, by the name of their constructor.\<close>

record ('tx, 'c) foreign_decorators =
  EthSetUpContext :: "('tx, 'c) decorator"
  EthMempoolFee :: "('tx, 'c) decorator"
  EthMinGasPrice :: "('tx, 'c) decorator"
  EthValidateBasic :: "('tx, 'c) decorator"
  EthSigVerification :: "('tx, 'c) decorator"
  EthAccountVerification :: "('tx, 'c) decorator"
  CanTransfer :: "('tx, 'c) decorator"
  EthGasConsume :: "('tx, 'c) decorator"
  EthIncrementSenderSequence :: "('tx, 'c) decorator"
  GasWanted :: "('tx, 'c) decorator"
  EthEmitEvent :: "('tx, 'c) decorator"
  RejectMessages :: "('tx, 'c) decorator"
  SetUpContext :: "('tx, 'c) decorator"
  RejectExtensionOptions :: "('tx, 'c) decorator"
  ValidateBasic :: "('tx, 'c) decorator"
  MempoolFee :: "('tx, 'c) decorator"
  MinGasPrice :: "('tx, 'c) decorator"
  TxTimeoutHeight :: "('tx, 'c) decorator"
  ValidateMemo :: "('tx, 'c) decorator"
  ConsumeGasForTxSize :: "('tx, 'c) decorator"
  DeductFee :: "('tx, 'c) decorator"
  SetPubKey :: "('tx, 'c) decorator"
  ValidateSigCount :: "('tx, 'c) decorator"
  SigGasConsume :: "('tx, 'c) decorator"
  SigVerification :: "('tx, 'c) decorator"
  Eip712SigVerification :: "('tx, 'c) decorator"
  IncrementSequence :: "('tx, 'c) decorator"
  IBCAnte :: "('tx, 'c) decorator"

text \<open>What the handler is built from: the keepers the decorators of the repository use, the codec, and how
  to read a context and a transaction.  The keepers that may be missing are optional.\<close>

record ('tx, 'any, 'x, 'c) ante_options =
  ao_C :: coins_ops
  ao_A :: "'x account_ops"
  ao_S :: "'x staking_ops"
  ao_UnpackAny :: "'any \<Rightarrow> 'any sdk_msg option"
  ao_F :: "('tx, 'c) foreign_decorators"
  ChainAnteDecorators :: "('tx, 'c) decorator list \<Rightarrow> 'tx \<Rightarrow> 'c \<Rightarrow> 'c ante"
  ao_GetMsgs :: "'tx \<Rightarrow> 'any sdk_msg list"
  ao_ExtensionOptions :: "'tx \<Rightarrow> string list option"
  ao_store :: "'c \<Rightarrow> 'x"
  ao_BlockTime :: "'c \<Rightarrow> time"

definition NewEthVestingTransactionDecorator :: "('tx, 'any, 'x, 'c) ante_options \<Rightarrow> ('tx, 'c) decorator" where
  "NewEthVestingTransactionDecorator options tx ctx next =
     EthVesting_AnteHandle (ao_C options) (ao_A options) (ao_BlockTime options ctx) (ao_store options ctx) (next ctx) (ao_GetMsgs options tx)"

definition NewVestingDelegationDecorator :: "('tx, 'any, 'x, 'c) ante_options \<Rightarrow> ('tx, 'c) decorator" where
  "NewVestingDelegationDecorator options tx ctx next =
     VestingDelegation_AnteHandle (ao_C options) (ao_A options) (ao_S options) (ao_UnpackAny options) (ao_BlockTime options ctx) (ao_store options ctx)
       (next ctx) (ao_GetMsgs options tx)"

definition NewValidatorCommissionDecorator :: "('tx, 'any, 'x, 'c) ante_options \<Rightarrow> ('tx, 'c) decorator" where
  "NewValidatorCommissionDecorator options tx ctx next =
     ValidatorCommission_AnteHandle (ao_UnpackAny options) (next ctx) (ao_GetMsgs options tx)"

section \<open>\<open>handler_options.go\<close>\<close>

text \<open>Which of the required keepers are set.\<close>

record handler_options =
  has_AccountKeeper :: bool
  has_BankKeeper :: bool
  has_StakingKeeper :: bool
  has_SignModeHandler :: bool
  has_FeeMarketKeeper :: bool
  has_EvmKeeper :: bool

definition handler_options_Validate :: "handler_options \<Rightarrow> unit outcome" where
  "handler_options_Validate options =
     (if \<not> has_AccountKeeper options then Err ErrLogic else
      if \<not> has_BankKeeper options then Err ErrLogic else
      if \<not> has_StakingKeeper options then Err ErrLogic else
      if \<not> has_SignModeHandler options then Err ErrLogic else
      if \<not> has_FeeMarketKeeper options then Err ErrLogic else
      if \<not> has_EvmKeeper options then Err ErrLogic else Ok ())"

definition newEthAnteHandler :: "('tx, 'any, 'x, 'c) ante_options \<Rightarrow> 'tx \<Rightarrow> 'c \<Rightarrow> 'c ante" where
  "newEthAnteHandler options = (let F = ao_F options in ChainAnteDecorators options
     [EthSetUpContext F, EthMempoolFee F, EthMinGasPrice F, EthValidateBasic F, EthSigVerification F,
      EthAccountVerification F, CanTransfer F, NewEthVestingTransactionDecorator options, EthGasConsume F,
      EthIncrementSenderSequence F, GasWanted F, EthEmitEvent F])"

definition newCosmosAnteHandler :: "('tx, 'any, 'x, 'c) ante_options \<Rightarrow> 'tx \<Rightarrow> 'c \<Rightarrow> 'c ante" where
  "newCosmosAnteHandler options = (let F = ao_F options in ChainAnteDecorators options
     [RejectMessages F, SetUpContext F, RejectExtensionOptions F, ValidateBasic F, MempoolFee F, MinGasPrice F,
      TxTimeoutHeight F, ValidateMemo F, ConsumeGasForTxSize F, DeductFee F, NewVestingDelegationDecorator options,
      NewValidatorCommissionDecorator options, SetPubKey F, ValidateSigCount F, SigGasConsume F, SigVerification F,
      IncrementSequence F, IBCAnte F, GasWanted F])"

definition newCosmosAnteHandlerEip712 :: "('tx, 'any, 'x, 'c) ante_options \<Rightarrow> 'tx \<Rightarrow> 'c \<Rightarrow> 'c ante" where
  "newCosmosAnteHandlerEip712 options = (let F = ao_F options in ChainAnteDecorators options
     [RejectMessages F, SetUpContext F, MempoolFee F, ValidateBasic F, MinGasPrice F, TxTimeoutHeight F,
      ValidateMemo F, ConsumeGasForTxSize F, DeductFee F, NewVestingDelegationDecorator options,
      NewValidatorCommissionDecorator options, SetPubKey F, ValidateSigCount F, SigGasConsume F, Eip712SigVerification F,
      IncrementSequence F, IBCAnte F, GasWanted F])"

section \<open>\<open>ante.go\<close>\<close>

text \<open>The chain is picked by the type URL of the first extension option; \<open>None\<close> is a transaction type
  without extension options.  Every transaction is an \<open>sdk.Tx\<close>, so the last branch of the source is never
  taken.\<close>

definition NewAnteHandler :: "('tx, 'any, 'x, 'c) ante_options \<Rightarrow> 'tx \<Rightarrow> 'c \<Rightarrow> 'c ante" where
  "NewAnteHandler options tx ctx =
     (case ao_ExtensionOptions options tx of
        Some (typeURL # _) \<Rightarrow>
          if typeURL = ''/ethermint.evm.v1.ExtensionOptionsEthereumTx'' then newEthAnteHandler options tx ctx
          else if typeURL = ''/ethermint.types.v1.ExtensionOptionsWeb3Tx'' then newCosmosAnteHandlerEip712 options tx ctx
          else Inl AnteUnknownExtensionOptions
      | _ \<Rightarrow> newCosmosAnteHandler options tx ctx)"

section \<open>\<open>sigverify.go\<close>\<close>

text \<open>A signature is single or a multisignature with its bit array.  \<open>ConsumeGas\<close> is the gas meter's, which
  panics when the gas runs out.  An index outside the keys or the signatures panics.\<close>

datatype sig_data = SingleSignatureData | MultiSignatureData "bool list" "sig_data list"

definition secp256k1VerifyCost :: int where "secp256k1VerifyCost = 21000"

function (sequential)
  SigVerificationGasConsumer :: "(int \<Rightarrow> ('g, unit) cmd) \<Rightarrow> int \<Rightarrow> pubkey \<Rightarrow> sig_data \<Rightarrow> ('g, unit) cmd" and
  ConsumeMultisignatureVerificationGas ::
    "(int \<Rightarrow> ('g, unit) cmd) \<Rightarrow> int \<Rightarrow> bool list \<Rightarrow> pubkey list \<Rightarrow> sig_data list \<Rightarrow> ('g, unit) cmd" where
  "SigVerificationGasConsumer consume costED25519 (EthSecp256k1 _) sig meter = consume secp256k1VerifyCost meter"
| "SigVerificationGasConsumer consume costED25519 (Ed25519 _) sig meter =
     bindS (consume costED25519) (\<lambda>_ m. (Err ErrInvalidPubKey, m)) meter"
| "SigVerificationGasConsumer consume costED25519 (MultisigKey pubkeys) (MultiSignatureData bits sigs) meter =
     ConsumeMultisignatureVerificationGas consume costED25519 bits pubkeys sigs meter"
| "SigVerificationGasConsumer consume costED25519 (MultisigKey pubkeys) sig meter =
     (Err (ErrPlain ''expected MultiSignatureData''), meter)"
| "SigVerificationGasConsumer consume costED25519 (OtherKey _) sig meter = (Err ErrInvalidPubKey, meter)"
| "ConsumeMultisignatureVerificationGas consume costED25519 [] pubkeys sigs meter = (Ok (), meter)"
| "ConsumeMultisignatureVerificationGas consume costED25519 (False # bits) pubkeys sigs meter =
     ConsumeMultisignatureVerificationGas consume costED25519 bits (tl pubkeys) sigs meter"
| "ConsumeMultisignatureVerificationGas consume costED25519 (True # bits) (pubkey # pubkeys) (sig # sigs) meter =
     bindS (SigVerificationGasConsumer consume costED25519 pubkey sig)
       (\<lambda>_. ConsumeMultisignatureVerificationGas consume costED25519 bits pubkeys sigs) meter"
| "ConsumeMultisignatureVerificationGas consume costED25519 (True # bits) pubkeys sigs meter = (Panic, meter)"
  by pat_completeness auto
termination
  by (relation "measures [case_sum (\<lambda>(_, _, _, sig, _). size sig) (\<lambda>(_, _, _, _, sigs, _). size_list size sigs),
                          case_sum (\<lambda>_. 0) (\<lambda>(_, _, bits, _, _, _). length bits)]") auto

section \<open>What a chain checks\<close>

text \<open>A later context keeps the block time, the bond denomination and, of every clawback account, what
  its vesting depends on.  Fees, public keys and sequence numbers may change.\<close>

definition same_schedule :: "clawback_account \<Rightarrow> clawback_account \<Rightarrow> bool" where
  "same_schedule va va' \<longleftrightarrow> StartTime va' = StartTime va \<and> LockupPeriods va' = LockupPeriods va \<and>
     VestingPeriods va' = VestingPeriods va \<and> EndTime (BVA va') = EndTime (BVA va) \<and>
     OriginalVesting (BVA va') = OriginalVesting (BVA va)"

definition keeps_vesting :: "('tx, 'any, 'x, 'c) ante_options \<Rightarrow> 'c \<Rightarrow> 'c \<Rightarrow> bool" where
  "keeps_vesting options c c' \<longleftrightarrow> ao_BlockTime options c' = ao_BlockTime options c \<and>
     BondDenom (ao_S options) (ao_store options c') = BondDenom (ao_S options) (ao_store options c) \<and>
     (\<forall>a va. GetAccount (ao_A options) (ao_store options c) a = Some (ClawbackAcc va) \<longrightarrow>
        (\<exists>va'. GetAccount (ao_A options) (ao_store options c') a = Some (ClawbackAcc va') \<and> same_schedule va va'))"

definition hands_on :: "('tx, 'any, 'x, 'c) ante_options \<Rightarrow> ('tx, 'c) decorator \<Rightarrow> bool" where
  "hands_on options d \<longleftrightarrow>
     (\<forall>tx c next r. d tx c next = Inr r \<longrightarrow> (\<exists>c'. next c' = Inr r \<and> keeps_vesting options c c'))"

definition foreign :: "('tx, 'c) foreign_decorators \<Rightarrow> ('tx, 'c) decorator list" where
  "foreign F =
     [EthSetUpContext F, EthMempoolFee F, EthMinGasPrice F, EthValidateBasic F, EthSigVerification F,
      EthAccountVerification F, CanTransfer F, EthGasConsume F, EthIncrementSenderSequence F, GasWanted F,
      EthEmitEvent F, RejectMessages F, SetUpContext F, RejectExtensionOptions F, ValidateBasic F, MempoolFee F,
      MinGasPrice F, TxTimeoutHeight F, ValidateMemo F, ConsumeGasForTxSize F, DeductFee F, SetPubKey F,
      ValidateSigCount F, SigGasConsume F, SigVerification F, Eip712SigVerification F, IncrementSequence F, IBCAnte F]"

text \<open>A decorator of another package never accepts a transaction on its own: it fails or hands over to the
  rest of the chain, with a context that keeps the vesting schedules.  A chain runs its first decorator with
  the chain of the others as what comes next.\<close>

locale ante_laws =
  fixes options :: "('tx, 'any, 'x, 'c) ante_options"
  assumes foreign_hands_on: "d \<in> set (foreign (ao_F options)) \<Longrightarrow> hands_on options d"
    and chain_step: "\<exists>next. ChainAnteDecorators options (d # ds) tx c = d tx c next \<and>
      (ds \<noteq> [] \<longrightarrow> next = ChainAnteDecorators options ds tx)"
    and coins: "coins_laws (ao_C options)"

lemma same_schedule_eq:
  assumes "same_schedule va va'"
  shows "GetVestedOnly C va' t = GetVestedOnly C va t" "GetUnlockedOnly C va' t = GetUnlockedOnly C va t"
    "GetVestedCoins C va' t = GetVestedCoins C va t" "may_spend C va' t = may_spend C va t" "va_ok C va' = va_ok C va"
  using assms
  by (simp_all add: same_schedule_def GetVestedOnly_def GetUnlockedOnly_def GetVestedCoins_def GetStartTime_def
      may_spend_def va_ok_def)

lemma keeps_vesting_refl: "keeps_vesting options c c"
  by (auto simp: keeps_vesting_def same_schedule_def)

lemma keeps_vesting_trans:
  assumes "keeps_vesting options a b" and "keeps_vesting options b c"
  shows "keeps_vesting options a c"
proof -
  have "\<exists>vc. GetAccount (ao_A options) (ao_store options c) x = Some (ClawbackAcc vc) \<and> same_schedule va vc"
    if va: "GetAccount (ao_A options) (ao_store options a) x = Some (ClawbackAcc va)" for x va
  proof -
    obtain vb where vb: "GetAccount (ao_A options) (ao_store options b) x = Some (ClawbackAcc vb)" "same_schedule va vb"
      using assms(1) va unfolding keeps_vesting_def by blast
    obtain vc where "GetAccount (ao_A options) (ao_store options c) x = Some (ClawbackAcc vc)" "same_schedule vb vc"
      using assms(2) vb(1) unfolding keeps_vesting_def by blast
    with vb(2) show ?thesis by (auto simp: same_schedule_def)
  qed
  with assms show ?thesis by (simp add: keeps_vesting_def)
qed

lemma hands_onI: "(\<And>tx c next r. d tx c next = Inr r \<Longrightarrow> next c = Inr r) \<Longrightarrow> hands_on options d"
  unfolding hands_on_def by (intro allI impI exI conjI) (assumption | rule keeps_vesting_refl | blast)+

lemma own_hand_on:
  "NewEthVestingTransactionDecorator options tx c next = Inr r \<Longrightarrow> next c = Inr r"
  "NewVestingDelegationDecorator options tx c next = Inr r \<Longrightarrow> next c = Inr r"
  "NewValidatorCommissionDecorator options tx c next = Inr r \<Longrightarrow> next c = Inr r"
proof -
  have "EthVesting_AnteHandle C A t x n msgs = Inr r \<Longrightarrow> n = Inr r" for C and A :: "'x account_ops" and t x n msgs
    by (induction msgs) (auto split: sdk_msg.splits option.splits account.splits bool.splits if_splits)
  then show "NewEthVestingTransactionDecorator options tx c next = Inr r \<Longrightarrow> next c = Inr r"
    "NewVestingDelegationDecorator options tx c next = Inr r \<Longrightarrow> next c = Inr r"
    "NewValidatorCommissionDecorator options tx c next = Inr r \<Longrightarrow> next c = Inr r"
    by (auto simp: NewEthVestingTransactionDecorator_def NewVestingDelegationDecorator_def NewValidatorCommissionDecorator_def
        VestingDelegation_AnteHandle_def ValidatorCommission_AnteHandle_def ante_msgs_ok)
qed

lemma own_hands_on:
  "hands_on options (NewEthVestingTransactionDecorator options)" "hands_on options (NewVestingDelegationDecorator options)"
  "hands_on options (NewValidatorCommissionDecorator options)"
  by (rule hands_onI, erule own_hand_on)+

context ante_laws
begin

text \<open>Every decorator of an accepting chain has run, on a context that keeps the vesting schedules.\<close>

lemma chain_runs_all:
  assumes "ChainAnteDecorators options ds tx c = Inr r" and "\<And>d. d \<in> set ds \<Longrightarrow> hands_on options d" and "d \<in> set ds"
  shows "\<exists>c' next. d tx c' next = Inr r \<and> keeps_vesting options c c'"
  using assms
proof (induction ds arbitrary: c)
  case (Cons e ds)
  obtain n where n: "ChainAnteDecorators options (e # ds) tx c = e tx c n"
    "ds \<noteq> [] \<longrightarrow> n = ChainAnteDecorators options ds tx" using chain_step [of e ds tx c] by blast
  with Cons.prems(1) have run: "e tx c n = Inr r" by simp
  show ?case
  proof (cases "d = e")
    case True
    then show ?thesis using run keeps_vesting_refl [of options c] by blast
  next
    case False
    then have d: "d \<in> set ds" "n = ChainAnteDecorators options ds tx" using Cons.prems(3) n(2) by auto
    have "hands_on options e" using Cons.prems(2) by simp
    then obtain c' where c': "ChainAnteDecorators options ds tx c' = Inr r" "keeps_vesting options c c'"
      using run unfolding hands_on_def d(2) by blast
    then obtain c'' m where "d tx c'' m = Inr r" "keeps_vesting options c' c''"
      using Cons.IH [of c'] Cons.prems(2) d(1) by auto
    then show ?thesis using keeps_vesting_trans [OF c'(2)] by blast
  qed
qed simp

lemma chain_checks:
  assumes "ChainAnteDecorators options ds tx c = Inr r" and "d \<in> set ds"
    and "set ds \<subseteq> set (foreign (ao_F options)) \<union> {NewEthVestingTransactionDecorator options,
           NewVestingDelegationDecorator options, NewValidatorCommissionDecorator options}"
  shows "\<exists>c' next. d tx c' next = Inr r \<and> keeps_vesting options c c'"
proof (rule chain_runs_all [OF assms(1) _ assms(2)])
  show "hands_on options e" if "e \<in> set ds" for e
  proof -
    have "e \<in> set (foreign (ao_F options)) \<union> {NewEthVestingTransactionDecorator options,
           NewVestingDelegationDecorator options, NewValidatorCommissionDecorator options}"
      using assms(3) that by (rule subsetD)
    then have "e \<in> set (foreign (ao_F options)) \<or> e = NewEthVestingTransactionDecorator options \<or>
        e = NewVestingDelegationDecorator options \<or> e = NewValidatorCommissionDecorator options"
      by (simp only: Un_iff insert_iff empty_iff simp_thms)
    then show ?thesis by (elim disjE) (simp_all only: foreign_hands_on own_hands_on)
  qed
qed

lemma eth_route:
  assumes "newEthAnteHandler options tx c = Inr r"
  shows "\<exists>c' next. NewEthVestingTransactionDecorator options tx c' next = Inr r \<and> keeps_vesting options c c'"
  by (rule chain_checks [OF assms [unfolded newEthAnteHandler_def Let_def]]) (simp_all add: foreign_def)

lemma cosmos_route:
  assumes "newCosmosAnteHandler options tx c = Inr r \<or> newCosmosAnteHandlerEip712 options tx c = Inr r"
  shows "\<exists>c' next. NewVestingDelegationDecorator options tx c' next = Inr r \<and> keeps_vesting options c c'"
    and "\<exists>c' next. NewValidatorCommissionDecorator options tx c' next = Inr r \<and> keeps_vesting options c c'"
proof -
  have "(\<exists>c' next. NewVestingDelegationDecorator options tx c' next = Inr r \<and> keeps_vesting options c c') \<and>
    (\<exists>c' next. NewValidatorCommissionDecorator options tx c' next = Inr r \<and> keeps_vesting options c c')"
    using assms
  proof
    assume "newCosmosAnteHandler options tx c = Inr r"
    note run = chain_checks [OF this [unfolded newCosmosAnteHandler_def Let_def]]
    show ?thesis by (rule conjI; rule run) (simp_all add: foreign_def)
  next
    assume "newCosmosAnteHandlerEip712 options tx c = Inr r"
    note run = chain_checks [OF this [unfolded newCosmosAnteHandlerEip712_def Let_def]]
    show ?thesis by (rule conjI; rule run) (simp_all add: foreign_def)
  qed
  then show "\<exists>c' next. NewVestingDelegationDecorator options tx c' next = Inr r \<and> keeps_vesting options c c'"
    "\<exists>c' next. NewValidatorCommissionDecorator options tx c' next = Inr r \<and> keeps_vesting options c c'" by blast+
qed

end

section \<open>The gas of a signature\<close>

text \<open>The Ethereum keys that sign, also inside nested multisignatures.\<close>

function (sequential)
  eth_signers :: "pubkey \<Rightarrow> sig_data \<Rightarrow> nat" and
  eth_signers_multi :: "bool list \<Rightarrow> pubkey list \<Rightarrow> sig_data list \<Rightarrow> nat" where
  "eth_signers (EthSecp256k1 _) sig = 1"
| "eth_signers (MultisigKey pubkeys) (MultiSignatureData bits sigs) = eth_signers_multi bits pubkeys sigs"
| "eth_signers _ _ = 0"
| "eth_signers_multi (False # bits) pubkeys sigs = eth_signers_multi bits (tl pubkeys) sigs"
| "eth_signers_multi (True # bits) (pubkey # pubkeys) (sig # sigs) = eth_signers pubkey sig + eth_signers_multi bits pubkeys sigs"
| "eth_signers_multi _ _ _ = 0"
  by pat_completeness auto
termination
  by (relation "measures [case_sum (\<lambda>(_, sig). size sig) (\<lambda>(_, _, sigs). size_list size sigs),
                          case_sum (\<lambda>_. 0) (\<lambda>(bits, _, _). length bits)]") auto

text \<open>A meter that counts up to a limit.\<close>

definition meter_to :: "int \<Rightarrow> int \<Rightarrow> (int, unit) cmd" where
  "meter_to limit n used = (if used + n \<le> limit then (Ok (), used + n) else (Panic, used + n))"

text \<open>An accepted signature has consumed 21000 units of gas for each Ethereum key that signs and nothing
  else: an ed25519 key is charged for and then rejected, wherever it stands.\<close>

lemma signature_gas:
  "SigVerificationGasConsumer (meter_to limit) cost pubkey sig used = (Ok (), used') \<Longrightarrow>
     used' = used + 21000 * int (eth_signers pubkey sig)"
  "ConsumeMultisignatureVerificationGas (meter_to limit) cost bits pubkeys sigs used = (Ok (), used') \<Longrightarrow>
     used' = used + 21000 * int (eth_signers_multi bits pubkeys sigs)"
proof (induction pubkey sig and bits pubkeys sigs arbitrary: used used' and used used' rule: eth_signers_eth_signers_multi.induct)
  case (1 k sig)
  then show ?case by (auto simp: meter_to_def secp256k1VerifyCost_def split: if_splits)
next
  case (5 bits pubkey pubkeys sig sigs)
  from "5.prems" obtain u where u: "SigVerificationGasConsumer (meter_to limit) cost pubkey sig used = (Ok (), u)"
    "ConsumeMultisignatureVerificationGas (meter_to limit) cost bits pubkeys sigs u = (Ok (), used')"
    by (auto simp: bindS_Ok_iff)
  then show ?case using "5.IH"(1) [OF u(1)] "5.IH"(2) [OF u(2)] by simp
qed (auto simp: bindS_Ok_iff)

section \<open>An executable instance\<close>

text \<open>Contexts are the world and the block time; messages and extension options are the transaction.  The
  message filters of the other packages are there, everything else lets a transaction pass.\<close>

type_synonym std_tx = "std_any sdk_msg list \<times> string list option"

definition pass :: "(std_tx, std_world \<times> time) decorator" where
  "pass tx ctx next = next ctx"

definition std_reject :: "(std_tx, std_world \<times> time) decorator" where
  "std_reject tx ctx next =
     (if list_ex (\<lambda>m. case m of MsgEthereumTx _ \<Rightarrow> True | _ \<Rightarrow> False) (fst tx) then Inl AnteUnknownRequest else next ctx)"

definition std_reject_options :: "(std_tx, std_world \<times> time) decorator" where
  "std_reject_options tx ctx next =
     (case snd tx of Some (_ # _) \<Rightarrow> Inl AnteUnknownExtensionOptions | _ \<Rightarrow> next ctx)"

definition std_foreign :: "(std_tx, std_world \<times> time) foreign_decorators" where
  "std_foreign =
     \<lparr>EthSetUpContext = pass, EthMempoolFee = pass, EthMinGasPrice = pass, EthValidateBasic = pass, EthSigVerification = pass,
      EthAccountVerification = pass, CanTransfer = pass, EthGasConsume = pass, EthIncrementSenderSequence = pass,
      GasWanted = pass, EthEmitEvent = pass, RejectMessages = std_reject, SetUpContext = pass,
      RejectExtensionOptions = std_reject_options, ValidateBasic = pass, MempoolFee = pass, MinGasPrice = pass,
      TxTimeoutHeight = pass, ValidateMemo = pass, ConsumeGasForTxSize = pass, DeductFee = pass, SetPubKey = pass,
      ValidateSigCount = pass, SigGasConsume = pass, SigVerification = pass, Eip712SigVerification = pass,
      IncrementSequence = pass, IBCAnte = pass\<rparr>"

fun std_chain :: "('tx, 'c) decorator list \<Rightarrow> 'tx \<Rightarrow> 'c \<Rightarrow> 'c ante" where
  "std_chain [] tx ctx = Inr ctx"
| "std_chain (d # ds) tx ctx = d tx ctx (std_chain ds tx)"

definition std_ante :: "(std_tx, std_any, std_world, std_world \<times> time) ante_options" where
  "std_ante = \<lparr>ao_C = std_coins, ao_A = std_accounts, ao_S = std_staking, ao_UnpackAny = std_unpack, ao_F = std_foreign,
               ChainAnteDecorators = std_chain,
               ao_GetMsgs = fst, ao_ExtensionOptions = snd, ao_store = fst, ao_BlockTime = snd\<rparr>"

lemma std_ante_sel [simp]:
  "ao_C std_ante = std_coins" "ao_A std_ante = std_accounts" "ao_S std_ante = std_staking" "ao_UnpackAny std_ante = std_unpack"
  "ao_F std_ante = std_foreign" "ChainAnteDecorators std_ante = std_chain" "ao_GetMsgs std_ante = fst" "ao_ExtensionOptions std_ante = snd" "ao_store std_ante = fst"
  "ao_BlockTime std_ante = snd"
  by (simp_all add: std_ante_def)

interpretation stda: ante_laws std_ante
proof (rule ante_laws.intro)
  fix d
  assume "d \<in> set (foreign (ao_F std_ante))"
  then have "d = pass \<or> d = std_reject \<or> d = std_reject_options" by (auto simp: foreign_def std_foreign_def)
  moreover have "d tx c next = Inr r \<Longrightarrow> next c = Inr r" if "d = pass \<or> d = std_reject \<or> d = std_reject_options" for tx c "next" r
    using that by (auto simp: pass_def std_reject_def std_reject_options_def split: if_splits option.splits list.splits)
  ultimately show "hands_on std_ante d" by (intro hands_onI) blast
next
  show "\<exists>next. ChainAnteDecorators std_ante (d # ds) tx c = d tx c next \<and>
      (ds \<noteq> [] \<longrightarrow> next = ChainAnteDecorators std_ante ds tx)" for d ds tx c
    by (intro exI [of _ "std_chain ds tx"]) simp
qed (simp_all add: std.coins_laws_axioms)

section \<open>Properties\<close>

lemma prefix_kept:
  assumes "keeps_vesting options c c'"
  shows "set (clawback_prefix (ao_A options) (ao_store options c) msgs)
     \<subseteq> set (clawback_prefix (ao_A options) (ao_store options c') msgs)"
proof -
  have "is_clawback (ao_A options) (ao_store options c') m" if "is_clawback (ao_A options) (ao_store options c) m"
    for m :: "'e sdk_msg"
    using that assms unfolding is_clawback_iff keeps_vesting_def by blast
  then have "set (takeWhile (is_clawback (ao_A options) (ao_store options c)) msgs)
      \<subseteq> set (takeWhile (is_clawback (ao_A options) (ao_store options c')) msgs)"
    by (induction msgs) auto
  then show ?thesis by (simp add: clawback_prefix_def)
qed

text \<open>C11. What the whole ante handler guarantees, whatever the decorators of the other packages do as long as they
  fail or hand over.  An accepted transaction of the Ethereum route has, before the first sender of
  another kind, only clawback accounts that may spend.  An accepted transaction of the other two routes
  sets no validator commission below five percent and lets no clawback account delegate more than it has
  vested, directly or wrapped once in an authz execution.  A first extension option of any other type is
  never accepted.  The accounts are those before the first decorator runs.\<close>

theorem ante_handler_guards:
  fixes options :: "('tx, 'any, 'x, 'c) ante_options"
  assumes "ante_laws options" and "NewAnteHandler options tx c = Inr r"
  shows "(let msgs = ao_GetMsgs options tx; C = ao_C options; t = ao_BlockTime options c; x = ao_store options c;
              account = GetAccount (ao_A options) x; route = ao_ExtensionOptions options tx in
     if \<exists>us. route = Some (''/ethermint.evm.v1.ExtensionOptionsEthereumTx'' # us)
     then \<forall>a va. MsgEthereumTx a \<in> set (clawback_prefix (ao_A options) x msgs) \<longrightarrow> account a = Some (ClawbackAcc va) \<longrightarrow>
            va_ok C va \<longrightarrow> may_spend C va t
     else (\<forall>m. sent (ao_UnpackAny options) msgs m \<longrightarrow> commission_ok m) \<and>
       (\<forall>a as coin va. sent (ao_UnpackAny options) msgs (MsgDelegate (a # as) coin) \<longrightarrow> account a = Some (ClawbackAcc va) \<longrightarrow>
          Amt coin \<le> coins_AmountOf C (GetVestedOnly C va t) (BondDenom (ao_S options) x)) \<and>
       (\<forall>u us. route = Some (u # us) \<longrightarrow> u = ''/ethermint.types.v1.ExtensionOptionsWeb3Tx''))"
proof (cases "\<exists>us. ao_ExtensionOptions options tx = Some (''/ethermint.evm.v1.ExtensionOptionsEthereumTx'' # us)")
  case True
  then have "newEthAnteHandler options tx c = Inr r" using assms(2) by (auto simp: NewAnteHandler_def)
  from ante_laws.eth_route [OF assms(1) this] obtain c' n where
    run: "NewEthVestingTransactionDecorator options tx c' n = Inr r" and kept: "keeps_vesting options c c'" by blast
  have "may_spend (ao_C options) va (ao_BlockTime options c)"
    if m: "MsgEthereumTx a \<in> set (clawback_prefix (ao_A options) (ao_store options c) (ao_GetMsgs options tx))"
      and va: "GetAccount (ao_A options) (ao_store options c) a = Some (ClawbackAcc va)" "va_ok (ao_C options) va" for a va
  proof -
    obtain va' where va': "GetAccount (ao_A options) (ao_store options c') a = Some (ClawbackAcc va')" "same_schedule va va'"
      and t: "ao_BlockTime options c' = ao_BlockTime options c"
      using kept va(1) by (auto simp: keeps_vesting_def)
    have "MsgEthereumTx a \<in> set (clawback_prefix (ao_A options) (ao_store options c') (ao_GetMsgs options tx))"
      using m prefix_kept [OF kept] by blast
    from EthVesting_sound [OF run [unfolded NewEthVestingTransactionDecorator_def] this va'(1)]
    show ?thesis
      using coins_laws.may_spend_iff [OF ante_laws.coins [OF assms(1)], of va'] va(2) t
      by (simp add: same_schedule_eq [OF va'(2)])
  qed
  with True show ?thesis by (simp add: Let_def)
next
  case False
  then have chain: "newCosmosAnteHandler options tx c = Inr r \<or> newCosmosAnteHandlerEip712 options tx c = Inr r"
    and url: "\<forall>u us. ao_ExtensionOptions options tx = Some (u # us) \<longrightarrow> u = ''/ethermint.types.v1.ExtensionOptionsWeb3Tx''"
    using assms(2) by (auto simp: NewAnteHandler_def split: option.splits list.splits if_splits)
  note routes = ante_laws.cosmos_route [OF assms(1) chain]
  obtain c1 n1 where c1: "NewVestingDelegationDecorator options tx c1 n1 = Inr r" "keeps_vesting options c c1" using routes(1) by blast
  obtain c2 n2 where c2: "NewValidatorCommissionDecorator options tx c2 n2 = Inr r" using routes(2) by blast
  have com: "commission_ok m" if "sent (ao_UnpackAny options) (ao_GetMsgs options tx) m" for m
    using ante_msgs_sent [OF c2 [unfolded NewValidatorCommissionDecorator_def ValidatorCommission_AnteHandle_def] that]
    by (cases m) (auto simp: vcd_validateMsg_ok commission_ok_def)
  have del: "Amt coin \<le> coins_AmountOf (ao_C options) (GetVestedOnly (ao_C options) va (ao_BlockTime options c)) (BondDenom (ao_S options) (ao_store options c))"
    if s: "sent (ao_UnpackAny options) (ao_GetMsgs options tx) (MsgDelegate (a # as) coin)"
      and va: "GetAccount (ao_A options) (ao_store options c) a = Some (ClawbackAcc va)" for a as coin va
  proof -
    obtain va' where va': "GetAccount (ao_A options) (ao_store options c1) a = Some (ClawbackAcc va')" "same_schedule va va'"
      using c1(2) va by (auto simp: keeps_vesting_def)
    from delegation_limit [OF c1(1) [unfolded NewVestingDelegationDecorator_def] s va'(1)] show ?thesis
      using c1(2) by (simp add: same_schedule_eq [OF va'(2)] keeps_vesting_def)
  qed
  show ?thesis using False com del url by (simp add: Let_def)
qed

theorem ante_handler_guards_witness:
  "NewAnteHandler std_ante ([MsgDelegate [''alice''] (oneCoin ''aevmos'' 4), MsgCreateValidator (10 ^ 17)], None) (ex_ante_world, time_Unix 112)
     = Inr (ex_ante_world, time_Unix 112)
   \<and> (4::int) \<le> coins_AmountOf std_coins (GetVestedOnly std_coins ex_account (time_Unix 112)) ''aevmos''
   \<and> commission_ok (MsgCreateValidator (10 ^ 17) :: std_any sdk_msg)"
proof -
  let ?tx = "([MsgDelegate [''alice''] (oneCoin ''aevmos'' 4), MsgCreateValidator (10 ^ 17)], None) :: std_tx"
  let ?c = "(ex_ante_world, time_Unix 112)"
  have "vdd_signers std_coins std_accounts std_staking (time_Unix 112) ex_ante_world 4 [''alice''] = Inr ()" by code_simp
  then have run: "NewAnteHandler std_ante ?tx ?c = Inr ?c"
    by (simp add: NewAnteHandler_def newCosmosAnteHandler_def std_foreign_def pass_def std_reject_def std_reject_options_def
        NewVestingDelegationDecorator_def NewValidatorCommissionDecorator_def VestingDelegation_AnteHandle_def
        ValidatorCommission_AnteHandle_def vdd_validateMsg_def vcd_validateMsg_def minCommission_def del: vdd_signers.simps)
  show ?thesis
    using ante_handler_guards [OF stda.ante_laws_axioms run] run
    by (auto simp: Let_def sent_def ex_ante_accounts std_staking_def)
qed

end
