(* ===== verification/Epochs.thy ===== *)
theory Epochs
  imports Evm_Prelude
begin

text \<open>
  \<open>x/epochs\<close>: the store of epoch infos, the begin blocker that starts and ends epochs, the hooks it
  calls, genesis and the queries.  The module's state is its key/value store together with \<open>'x\<close>, the
  state of the modules whose hooks it calls; the hooks are a list of parameters.  Go's hooks return
  nothing, so a hook either succeeds or panics.
\<close>

section \<open>State\<close>

record epoch_info =
  Identifier :: string
  ei_StartTime :: time
  Duration :: duration
  CurrentEpoch :: int
  CurrentEpochStartTime :: time
  EpochCountingStarted :: bool
  CurrentEpochStartHeight :: int

record 'x epochs_state =
  es_infos :: "epoch_info kv"
  es_ext :: 'x

record 'x epoch_hooks =
  AfterEpochEnd_hook :: "string \<Rightarrow> int \<Rightarrow> ('x, unit) cmd"
  BeforeEpochStart_hook :: "string \<Rightarrow> int \<Rightarrow> ('x, unit) cmd"

section \<open>Types\<close>

definition StartInitialEpoch :: "epoch_info \<Rightarrow> epoch_info" where
  "StartInitialEpoch ei = ei\<lparr>EpochCountingStarted := True, CurrentEpoch := 1,
                             CurrentEpochStartTime := ei_StartTime ei\<rparr>"

definition EndEpoch :: "epoch_info \<Rightarrow> epoch_info" where
  "EndEpoch ei = ei\<lparr>CurrentEpoch := i64 (CurrentEpoch ei + 1),
                    CurrentEpochStartTime := CurrentEpochStartTime ei + Duration ei\<rparr>"

definition epoch_Validate :: "epoch_info \<Rightarrow> unit outcome" where
  "epoch_Validate ei =
     (if blank (Identifier ei) then Err (ErrPlain ''epoch identifier cannot be blank'') else
      if Duration ei = 0 then Err (ErrPlain ''epoch duration cannot be 0'') else
      if CurrentEpoch ei < 0 then Err (ErrPlain ''current epoch cannot be negative'') else
      if CurrentEpochStartHeight ei < 0
      then Err (ErrPlain ''current epoch start height cannot be negative'') else Ok ())"

definition ValidateEpochIdentifierString :: "string \<Rightarrow> unit outcome" where
  "ValidateEpochIdentifierString s = (if blank s then Err (ErrPlain ''blank epoch identifier'') else Ok ())"

definition WeekEpochID :: string where "WeekEpochID = ''week''"

definition DayEpochID :: string where "DayEpochID = ''day''"

definition Hour :: duration where "Hour = 3600 * Second"

definition DefaultGenesisState :: "epoch_info list" where
  "DefaultGenesisState =
     [\<lparr>Identifier = WeekEpochID, ei_StartTime = zero_time, Duration = Hour * 24 * 7, CurrentEpoch = 0,
       CurrentEpochStartTime = zero_time, EpochCountingStarted = False, CurrentEpochStartHeight = 0\<rparr>,
      \<lparr>Identifier = DayEpochID, ei_StartTime = zero_time, Duration = Hour * 24, CurrentEpoch = 0,
       CurrentEpochStartTime = zero_time, EpochCountingStarted = False, CurrentEpochStartHeight = 0\<rparr>]"

fun epochs_genesis_Validate :: "string list \<Rightarrow> epoch_info list \<Rightarrow> unit outcome" where
  "epochs_genesis_Validate seen [] = Ok ()"
| "epochs_genesis_Validate seen (epoch # epochs) =
     (if Identifier epoch \<in> set seen then Err (ErrPlain ''duplicated epoch entry'')
      else bindO (epoch_Validate epoch)
             (\<lambda>_. epochs_genesis_Validate (Identifier epoch # seen) epochs))"

section \<open>Keeper\<close>

definition GetEpochInfo :: "'x epochs_state \<Rightarrow> string \<Rightarrow> epoch_info option" where
  "GetEpochInfo s identifier = kv_get (es_infos s) identifier"

definition SetEpochInfo :: "epoch_info \<Rightarrow> 'x epochs_state \<Rightarrow> 'x epochs_state" where
  "SetEpochInfo epoch s = s\<lparr>es_infos := kv_set (es_infos s) (Identifier epoch) epoch\<rparr>"

definition DeleteEpochInfo :: "string \<Rightarrow> 'x epochs_state \<Rightarrow> 'x epochs_state" where
  "DeleteEpochInfo identifier s = s\<lparr>es_infos := kv_del (es_infos s) identifier\<rparr>"

text \<open>The iterator walks the entries that are in the store when it is opened.\<close>

fun iterate_epochs ::
  "(int \<Rightarrow> epoch_info \<Rightarrow> ('x epochs_state, bool) cmd) \<Rightarrow> int \<Rightarrow> epoch_info list \<Rightarrow> ('x epochs_state, unit) cmd" where
  "iterate_epochs fn i [] s = (Ok (), s)"
| "iterate_epochs fn i (epoch # epochs) s =
     bindS (fn i epoch) (\<lambda>stop. if stop then (\<lambda>t. (Ok (), t)) else iterate_epochs fn (i64 (i + 1)) epochs) s"

definition IterateEpochInfo ::
  "(int \<Rightarrow> epoch_info \<Rightarrow> ('x epochs_state, bool) cmd) \<Rightarrow> ('x epochs_state, unit) cmd" where
  "IterateEpochInfo fn s = iterate_epochs fn 0 (map snd (es_infos s)) s"

definition AllEpochInfos :: "'x epochs_state \<Rightarrow> epoch_info list" where
  "AllEpochInfos s = map snd (es_infos s)"

fun multi_hooks :: "('x epoch_hooks \<Rightarrow> string \<Rightarrow> int \<Rightarrow> ('x, unit) cmd) \<Rightarrow> 'x epoch_hooks list \<Rightarrow> string \<Rightarrow> int \<Rightarrow> ('x, unit) cmd" where
  "multi_hooks sel [] identifier epochNumber x = (Ok (), x)"
| "multi_hooks sel (h # hs) identifier epochNumber x =
     bindS (sel h identifier epochNumber) (\<lambda>_. multi_hooks sel hs identifier epochNumber) x"

definition on_ext :: "('x, 'a) cmd \<Rightarrow> ('x epochs_state, 'a) cmd" where
  "on_ext c s = (case c (es_ext s) of (r, x) \<Rightarrow> (r, s\<lparr>es_ext := x\<rparr>))"

definition AfterEpochEnd :: "'x epoch_hooks list \<Rightarrow> string \<Rightarrow> int \<Rightarrow> ('x epochs_state, unit) cmd" where
  "AfterEpochEnd hooks identifier epochNumber = on_ext (multi_hooks AfterEpochEnd_hook hooks identifier epochNumber)"

definition BeforeEpochStart :: "'x epoch_hooks list \<Rightarrow> string \<Rightarrow> int \<Rightarrow> ('x epochs_state, unit) cmd" where
  "BeforeEpochStart hooks identifier epochNumber = on_ext (multi_hooks BeforeEpochStart_hook hooks identifier epochNumber)"

section \<open>Begin blocker\<close>

definition begin_epoch ::
  "'x epoch_hooks list \<Rightarrow> time \<Rightarrow> int \<Rightarrow> int \<Rightarrow> epoch_info \<Rightarrow> ('x epochs_state, bool) cmd" where
  "begin_epoch hooks blockTime blockHeight i epochInfo s =
     (let shouldInitialEpochStart = (\<not> EpochCountingStarted epochInfo \<and> \<not> ei_StartTime epochInfo > blockTime);
          epochEndTime = CurrentEpochStartTime epochInfo + Duration epochInfo;
          shouldEpochEnd = (blockTime > epochEndTime \<and> \<not> shouldInitialEpochStart \<and> \<not> ei_StartTime epochInfo > blockTime);
          epochInfo = epochInfo\<lparr>CurrentEpochStartHeight := blockHeight\<rparr> in
      if shouldInitialEpochStart then
        (let epochInfo = StartInitialEpoch epochInfo in
         bindS (BeforeEpochStart hooks (Identifier epochInfo) (CurrentEpoch epochInfo))
           (\<lambda>_ t. (Ok False, t)) (SetEpochInfo epochInfo s))
      else if shouldEpochEnd then
        (let epochInfo = EndEpoch epochInfo in
         bindS (AfterEpochEnd hooks (Identifier epochInfo) (CurrentEpoch epochInfo))
           (\<lambda>_ t. bindS (BeforeEpochStart hooks (Identifier epochInfo) (CurrentEpoch epochInfo))
                    (\<lambda>_ u. (Ok False, u)) (SetEpochInfo epochInfo t)) s)
      else (Ok False, s))"

definition BeginBlocker :: "'x epoch_hooks list \<Rightarrow> time \<Rightarrow> int \<Rightarrow> ('x epochs_state, unit) cmd" where
  "BeginBlocker hooks blockTime blockHeight = IterateEpochInfo (begin_epoch hooks blockTime blockHeight)"

section \<open>Genesis and queries\<close>

fun epochs_InitGenesis :: "time \<Rightarrow> int \<Rightarrow> epoch_info list \<Rightarrow> 'x epochs_state \<Rightarrow> 'x epochs_state" where
  "epochs_InitGenesis blockTime blockHeight [] s = s"
| "epochs_InitGenesis blockTime blockHeight (epoch # epochs) s =
     (let epoch1 = (if ei_StartTime epoch = zero_time then epoch\<lparr>ei_StartTime := blockTime\<rparr> else epoch)
      in epochs_InitGenesis blockTime blockHeight epochs
           (SetEpochInfo (epoch1\<lparr>CurrentEpochStartHeight := blockHeight\<rparr>) s))"

definition epochs_ExportGenesis :: "'x epochs_state \<Rightarrow> epoch_info list" where
  "epochs_ExportGenesis s = AllEpochInfos s"

definition CurrentEpoch_query :: "string option \<Rightarrow> 'x epochs_state \<Rightarrow> int outcome" where
  "CurrentEpoch_query req s =
     (case req of
        None \<Rightarrow> Err ErrInvalidArgument
      | Some identifier \<Rightarrow>
          (case GetEpochInfo s identifier of
             None \<Rightarrow> Err ErrNotFound
           | Some info \<Rightarrow> Ok (CurrentEpoch info)))"

section \<open>What a block does to one epoch\<close>

definition epoch_tick :: "time \<Rightarrow> int \<Rightarrow> epoch_info \<Rightarrow> epoch_info" where
  "epoch_tick now height e =
     (if \<not> EpochCountingStarted e \<and> ei_StartTime e \<le> now
      then e\<lparr>CurrentEpochStartHeight := height, EpochCountingStarted := True, CurrentEpoch := 1,
              CurrentEpochStartTime := ei_StartTime e\<rparr>
      else if CurrentEpochStartTime e + Duration e < now \<and> ei_StartTime e \<le> now
      then e\<lparr>CurrentEpochStartHeight := height, CurrentEpoch := i64 (CurrentEpoch e + 1),
              CurrentEpochStartTime := CurrentEpochStartTime e + Duration e\<rparr>
      else e)"

definition infos_ok :: "epoch_info kv \<Rightarrow> bool" where
  "infos_ok m \<longleftrightarrow> kv_ok m \<and> (\<forall>k e. (k, e) \<in> set m \<longrightarrow> Identifier e = k)"

lemma tick_id [simp]: "Identifier (epoch_tick now h e) = Identifier e"
  by (simp add: epoch_tick_def)

text \<open>The hooks run on the state of the other modules.  They keep an invariant of it when each of them
  succeeds wherever the invariant holds and leaves it true.\<close>

definition hooks_keep :: "('x \<Rightarrow> bool) \<Rightarrow> 'x epoch_hooks list \<Rightarrow> bool" where
  "hooks_keep I hooks \<longleftrightarrow> (\<forall>h \<in> set hooks. \<forall>i n x. I x \<longrightarrow>
     (\<exists>x'. AfterEpochEnd_hook h i n x = (Ok (), x') \<and> I x') \<and> (\<exists>x'. BeforeEpochStart_hook h i n x = (Ok (), x') \<and> I x'))"

lemma multi_hooks_keep:
  "(\<And>h x. h \<in> set hs \<Longrightarrow> I x \<Longrightarrow> \<exists>x'. sel h i n x = (Ok (), x') \<and> I x') \<Longrightarrow> I x \<Longrightarrow>
   \<exists>x'. multi_hooks sel hs i n x = (Ok (), x') \<and> I x'"
proof (induction hs arbitrary: x)
  case (Cons h hs)
  obtain x1 where "sel h i n x = (Ok (), x1)" "I x1" using Cons.prems by fastforce
  with Cons show ?case by (simp add: bindS_def)
qed simp

lemma AfterEpochEnd_keep:
  "hooks_keep I hooks \<Longrightarrow> I (es_ext s) \<Longrightarrow> \<exists>x'. AfterEpochEnd hooks i n s = (Ok (), s\<lparr>es_ext := x'\<rparr>) \<and> I x'"
  using multi_hooks_keep [of hooks I AfterEpochEnd_hook i n "es_ext s"]
  by (auto simp: AfterEpochEnd_def on_ext_def hooks_keep_def)

lemma BeforeEpochStart_keep:
  "hooks_keep I hooks \<Longrightarrow> I (es_ext s) \<Longrightarrow> \<exists>x'. BeforeEpochStart hooks i n s = (Ok (), s\<lparr>es_ext := x'\<rparr>) \<and> I x'"
  using multi_hooks_keep [of hooks I BeforeEpochStart_hook i n "es_ext s"]
  by (auto simp: BeforeEpochStart_def on_ext_def hooks_keep_def)

lemma begin_epoch_spec:
  assumes "hooks_keep I hooks" and "kv_get (es_infos s) (Identifier e) = Some e" and "I (es_ext s)"
  shows "\<exists>s'. begin_epoch hooks now h i e s = (Ok False, s') \<and>
     (\<forall>k. kv_get (es_infos s') k = (if k = Identifier e then Some (epoch_tick now h e) else kv_get (es_infos s) k)) \<and>
     (kv_ok (es_infos s) \<longrightarrow> kv_ok (es_infos s')) \<and> I (es_ext s')"
proof -
  let ?e1 = "StartInitialEpoch (e\<lparr>CurrentEpochStartHeight := h\<rparr>)" and ?e2 = "EndEpoch (e\<lparr>CurrentEpochStartHeight := h\<rparr>)"
  obtain x1 where 1: "BeforeEpochStart hooks (Identifier e) 1 (SetEpochInfo ?e1 s) = (Ok (), (SetEpochInfo ?e1 s)\<lparr>es_ext := x1\<rparr>)" "I x1"
    using BeforeEpochStart_keep [OF assms(1), of "SetEpochInfo ?e1 s"] assms(3) by (auto simp: SetEpochInfo_def)
  obtain x2 where 2: "AfterEpochEnd hooks (Identifier e) (CurrentEpoch ?e2) s = (Ok (), s\<lparr>es_ext := x2\<rparr>)" "I x2"
    using AfterEpochEnd_keep [OF assms(1,3)] by blast
  obtain x3 where 3: "BeforeEpochStart hooks (Identifier e) (CurrentEpoch ?e2) (SetEpochInfo ?e2 (s\<lparr>es_ext := x2\<rparr>))
      = (Ok (), (SetEpochInfo ?e2 (s\<lparr>es_ext := x2\<rparr>))\<lparr>es_ext := x3\<rparr>)" "I x3"
    using BeforeEpochStart_keep [OF assms(1), of "SetEpochInfo ?e2 (s\<lparr>es_ext := x2\<rparr>)"] 2(2) by (auto simp: SetEpochInfo_def)
  show ?thesis
    using assms(2,3) 1 2 3
    by (auto simp: begin_epoch_def epoch_tick_def Let_def bindS_def StartInitialEpoch_def EndEpoch_def
        SetEpochInfo_def kv_get_set kv_ok_set not_less)
qed

lemma iterate_begin_epoch:
  assumes "hooks_keep I hooks" and "distinct (map Identifier es)"
    and "\<And>e. e \<in> set es \<Longrightarrow> kv_get (es_infos s) (Identifier e) = Some e" and "I (es_ext s)"
  shows "\<exists>s'. iterate_epochs (begin_epoch hooks now h) i es s = (Ok (), s') \<and>
     (\<forall>k. kv_get (es_infos s') k = (if k \<in> Identifier ` set es then map_option (epoch_tick now h) (kv_get (es_infos s) k)
                                    else kv_get (es_infos s) k)) \<and>
     (kv_ok (es_infos s) \<longrightarrow> kv_ok (es_infos s')) \<and> I (es_ext s')"
  using assms(2-4)
proof (induction es arbitrary: s i)
  case (Cons e es)
  obtain s1 where s1: "begin_epoch hooks now h i e s = (Ok False, s1)"
    "\<And>k. kv_get (es_infos s1) k = (if k = Identifier e then Some (epoch_tick now h e) else kv_get (es_infos s) k)"
    "kv_ok (es_infos s) \<longrightarrow> kv_ok (es_infos s1)" "I (es_ext s1)"
    using begin_epoch_spec [OF assms(1) Cons.prems(2,3), of e now h i] by auto
  have "\<And>e'. e' \<in> set es \<Longrightarrow> kv_get (es_infos s1) (Identifier e') = Some e'"
    using Cons.prems by (auto simp: s1(2) image_iff)
  then obtain s2 where s2: "iterate_epochs (begin_epoch hooks now h) (i64 (i + 1)) es s1 = (Ok (), s2)"
    "\<And>k. kv_get (es_infos s2) k = (if k \<in> Identifier ` set es then map_option (epoch_tick now h) (kv_get (es_infos s1) k)
                                    else kv_get (es_infos s1) k)" "kv_ok (es_infos s1) \<longrightarrow> kv_ok (es_infos s2)" "I (es_ext s2)"
    using Cons.IH [of s1 "i64 (i + 1)"] Cons.prems s1(4) by auto
  have "Identifier e \<notin> Identifier ` set es" using Cons.prems by auto
  moreover have "kv_get (es_infos s) (Identifier e) = Some e" using Cons.prems by simp
  ultimately show ?case using s1 s2 by (auto simp: bindS_def)
qed simp

lemma infos_ok_snapshot:
  assumes "infos_ok m"
  shows "distinct (map Identifier (map snd m))" and "e \<in> set (map snd m) \<Longrightarrow> kv_get m (Identifier e) = Some e"
    and "k \<in> Identifier ` set (map snd m) \<longleftrightarrow> kv_get m k \<noteq> None"
proof -
  have ids: "map Identifier (map snd m) = map fst m"
    using assms by (auto simp: infos_ok_def)
  then show "distinct (map Identifier (map snd m))"
    using assms by (simp only: infos_ok_def kv_ok_distinct)
  show "e \<in> set (map snd m) \<Longrightarrow> kv_get m (Identifier e) = Some e"
    using assms by (auto simp: infos_ok_def kv_get_mem)
  show "k \<in> Identifier ` set (map snd m) \<longleftrightarrow> kv_get m k \<noteq> None"
    using arg_cong [OF ids, of set] by (simp add: kv_get_None image_comp)
qed

lemma BeginBlocker_spec:
  assumes "hooks_keep I hooks" and "infos_ok (es_infos s)" and "I (es_ext s)"
  shows "\<exists>s'. BeginBlocker hooks now h s = (Ok (), s') \<and> infos_ok (es_infos s') \<and> I (es_ext s') \<and>
     (\<forall>k. GetEpochInfo s' k = map_option (epoch_tick now h) (GetEpochInfo s k))"
proof -
  note snap = infos_ok_snapshot [OF assms(2)]
  obtain s' where s': "BeginBlocker hooks now h s = (Ok (), s')" "kv_ok (es_infos s')" "I (es_ext s')"
    "\<And>k. kv_get (es_infos s') k = map_option (epoch_tick now h) (kv_get (es_infos s) k)"
    using iterate_begin_epoch [OF assms(1) snap(1) snap(2) assms(3), of now h 0] assms(2)
    unfolding BeginBlocker_def IterateEpochInfo_def snap(3) by (force simp: infos_ok_def)
  have "Identifier e = k" if "(k, e) \<in> set (es_infos s')" for k e
  proof -
    from that s'(2) have "kv_get (es_infos s') k = Some e" by (simp add: kv_get_mem)
    then obtain e0 where "kv_get (es_infos s) k = Some e0" "e = epoch_tick now h e0" by (auto simp: s'(4))
    then show ?thesis using assms(2) by (auto simp: infos_ok_def kv_get_mem)
  qed
  with s' show ?thesis by (auto simp: infos_ok_def GetEpochInfo_def)
qed

section \<open>The invariant of an epoch\<close>

text \<open>Once counting has started, the current epoch starts a whole number of durations after the
  first one.\<close>

definition epoch_inv :: "epoch_info \<Rightarrow> bool" where
  "epoch_inv e \<longleftrightarrow>
     (EpochCountingStarted e \<longrightarrow> 1 \<le> CurrentEpoch e \<and>
        CurrentEpochStartTime e = ei_StartTime e + (CurrentEpoch e - 1) * Duration e)"

lemma epoch_tick_inv:
  assumes "epoch_inv e" and "0 \<le> CurrentEpoch e" and "CurrentEpoch e < 2 ^ 63 - 1"
  shows "epoch_inv (epoch_tick now h e)" and "CurrentEpoch e \<le> CurrentEpoch (epoch_tick now h e) \<or> \<not> EpochCountingStarted e"
    and "CurrentEpoch (epoch_tick now h e) \<le> CurrentEpoch e + 1" and "0 \<le> CurrentEpoch (epoch_tick now h e)"
    and "ei_StartTime (epoch_tick now h e) = ei_StartTime e" and "Duration (epoch_tick now h e) = Duration e"
proof -
  have "i64 (CurrentEpoch e + 1) = CurrentEpoch e + 1"
    using assms(2,3) by (intro i64_id) (auto simp: in_i64_def)
  with assms show "epoch_inv (epoch_tick now h e)" "CurrentEpoch e \<le> CurrentEpoch (epoch_tick now h e) \<or> \<not> EpochCountingStarted e"
    "CurrentEpoch (epoch_tick now h e) \<le> CurrentEpoch e + 1" "0 \<le> CurrentEpoch (epoch_tick now h e)"
    "ei_StartTime (epoch_tick now h e) = ei_StartTime e" "Duration (epoch_tick now h e) = Duration e"
    by (auto simp: epoch_inv_def epoch_tick_def algebra_simps)
qed

text \<open>The states a chain goes through, block after block, whatever the block times are.\<close>

inductive blocks :: "'x epoch_hooks list \<Rightarrow> nat \<Rightarrow> 'x epochs_state \<Rightarrow> 'x epochs_state \<Rightarrow> bool"
  for hooks where
  blocks_none: "blocks hooks 0 s s"
| blocks_more: "blocks hooks n s s1 \<Longrightarrow> BeginBlocker hooks now h s1 = (Ok (), s2) \<Longrightarrow> blocks hooks (Suc n) s s2"

inductive_cases blocks_SucE: "blocks hooks (Suc n) s s'"

lemma blocks_spec:
  assumes "blocks hooks n s s'" and "hooks_keep I hooks" and "infos_ok (es_infos s)" and "I (es_ext s)"
    and "\<And>k e. GetEpochInfo s k = Some e \<Longrightarrow> epoch_inv e \<and> 0 \<le> CurrentEpoch e \<and> CurrentEpoch e \<le> N"
    and "N + int n < 2 ^ 63"
  shows "infos_ok (es_infos s') \<and> I (es_ext s') \<and> (\<forall>k. (GetEpochInfo s' k = None) = (GetEpochInfo s k = None)) \<and>
     (\<forall>k e'. GetEpochInfo s' k = Some e' \<longrightarrow> epoch_inv e' \<and> 0 \<le> CurrentEpoch e' \<and> CurrentEpoch e' \<le> N + int n \<and>
        (\<exists>e. GetEpochInfo s k = Some e \<and> ei_StartTime e' = ei_StartTime e \<and> Duration e' = Duration e))"
  using assms
proof (induction rule: blocks.induct)
  case (blocks_more n s s1 now h s2)
  then have IH: "infos_ok (es_infos s1)" "I (es_ext s1)" "\<forall>k. (GetEpochInfo s1 k = None) = (GetEpochInfo s k = None)"
    "\<forall>k e'. GetEpochInfo s1 k = Some e' \<longrightarrow> epoch_inv e' \<and> 0 \<le> CurrentEpoch e' \<and> CurrentEpoch e' \<le> N + int n \<and>
        (\<exists>e. GetEpochInfo s k = Some e \<and> ei_StartTime e' = ei_StartTime e \<and> Duration e' = Duration e)" by auto
  from BeginBlocker_spec [OF blocks_more.prems(1) IH(1,2), of now h] blocks_more.hyps(2)
  have step: "infos_ok (es_infos s2)" "I (es_ext s2)" "\<forall>k. GetEpochInfo s2 k = map_option (epoch_tick now h) (GetEpochInfo s1 k)" by auto
  have "epoch_inv e' \<and> 0 \<le> CurrentEpoch e' \<and> CurrentEpoch e' \<le> N + int (Suc n) \<and>
        (\<exists>e. GetEpochInfo s k = Some e \<and> ei_StartTime e' = ei_StartTime e \<and> Duration e' = Duration e)"
    if e': "GetEpochInfo s2 k = Some e'" for k e'
  proof -
    from e' step(3) obtain e1 where e1: "GetEpochInfo s1 k = Some e1" "e' = epoch_tick now h e1" by auto
    with IH(4) have i1: "epoch_inv e1" "0 \<le> CurrentEpoch e1" "CurrentEpoch e1 \<le> N + int n"
      "\<exists>e. GetEpochInfo s k = Some e \<and> ei_StartTime e1 = ei_StartTime e \<and> Duration e1 = Duration e" by auto
    have "CurrentEpoch e1 < 2 ^ 63 - 1" using i1(3) blocks_more.prems(5) by simp
    note T = epoch_tick_inv [OF i1(1,2) this, of now h]
    show ?thesis using T(1,3-6) i1(3,4) by (simp add: e1(2))
  qed
  with step IH(3) show ?case by simp
qed simp

section \<open>Every epoch comes\<close>

text \<open>A chain from a state on: block \<open>n\<close> runs the begin blocker at time \<open>T n\<close> and height \<open>H n\<close>, and the
  rest of the block changes the other modules' state by \<open>tx n\<close>.  The epochs module has no message, so
  the rest of a block leaves its own store alone.\<close>

fun chain_blocks ::
  "'x epoch_hooks list \<Rightarrow> (nat \<Rightarrow> time) \<Rightarrow> (nat \<Rightarrow> int) \<Rightarrow> (nat \<Rightarrow> 'x \<Rightarrow> 'x) \<Rightarrow> nat \<Rightarrow> ('x epochs_state, unit) cmd" where
  "chain_blocks hooks T H tx 0 s = (Ok (), s)"
| "chain_blocks hooks T H tx (Suc n) s =
     bindS (chain_blocks hooks T H tx n) (\<lambda>_.
     bindS (BeginBlocker hooks (T n) (H n)) (\<lambda>_ t. (Ok (), t\<lparr>es_ext := tx n (es_ext t)\<rparr>))) s"

fun ticks :: "(nat \<Rightarrow> time) \<Rightarrow> (nat \<Rightarrow> int) \<Rightarrow> nat \<Rightarrow> epoch_info \<Rightarrow> epoch_info" where
  "ticks T H 0 e = e"
| "ticks T H (Suc n) e = epoch_tick (T n) (H n) (ticks T H n e)"

lemma chain_blocks_spec:
  assumes "hooks_keep I hooks" and "\<And>n x. I x \<Longrightarrow> I (tx n x)" and "infos_ok (es_infos s)" and "I (es_ext s)"
  shows "\<exists>s'. chain_blocks hooks T H tx n s = (Ok (), s') \<and> infos_ok (es_infos s') \<and> I (es_ext s') \<and>
     (\<forall>k. GetEpochInfo s' k = map_option (ticks T H n) (GetEpochInfo s k))"
proof (induction n)
  case 0
  then show ?case using assms(3,4) by (simp add: option.map_ident)
next
  case (Suc n)
  then obtain s1 where s1: "chain_blocks hooks T H tx n s = (Ok (), s1)" "infos_ok (es_infos s1)" "I (es_ext s1)"
    "\<forall>k. GetEpochInfo s1 k = map_option (ticks T H n) (GetEpochInfo s k)" by blast
  obtain s2 where s2: "BeginBlocker hooks (T n) (H n) s1 = (Ok (), s2)" "infos_ok (es_infos s2)" "I (es_ext s2)"
    "\<forall>k. GetEpochInfo s2 k = map_option (epoch_tick (T n) (H n)) (GetEpochInfo s1 k)"
    using BeginBlocker_spec [OF assms(1) s1(2,3)] by blast
  then show ?case using s1 assms(2)
    by (simp add: bindS_def GetEpochInfo_def option.map_comp comp_def)
qed

lemma ticks_wait:
  assumes "\<And>i. n \<le> i \<Longrightarrow> i < j \<Longrightarrow> epoch_tick (T i) (H i) (ticks T H n e) = ticks T H n e" and "n \<le> j"
  shows "ticks T H j e = ticks T H n e"
  using assms(2,1) by (induction j rule: dec_induct) auto

text \<open>The first block from block \<open>n\<close> on that is later than \<open>b\<close>.\<close>

lemma first_after:
  fixes T :: "nat \<Rightarrow> time"
  assumes "\<exists>j\<ge>n. b < T j"
  shows "\<exists>j\<ge>n. b < T j \<and> (\<forall>i. n \<le> i \<and> i < j \<longrightarrow> T i \<le> b)"
proof -
  define j where "j = (LEAST j. n \<le> j \<and> b < T j)"
  have "n \<le> j \<and> b < T j" unfolding j_def by (rule LeastI_ex) (use assms in blast)
  moreover have "T i \<le> b" if "n \<le> i" "i < j" for i
    using not_less_Least [of i "\<lambda>j. n \<le> j \<and> b < T j"] that by (auto simp: j_def)
  ultimately show ?thesis by blast
qed

lemma ticks_inv:
  assumes "epoch_inv e" and "EpochCountingStarted e" and "0 < Duration e"
    and "CurrentEpochStartTime e + Duration e < now" and "CurrentEpoch e + 1 < 2 ^ 63"
  shows "epoch_inv (epoch_tick now h e)" and "EpochCountingStarted (epoch_tick now h e)"
    and "CurrentEpoch (epoch_tick now h e) = CurrentEpoch e + 1"
    and "ei_StartTime (epoch_tick now h e) = ei_StartTime e" and "Duration (epoch_tick now h e) = Duration e"
proof -
  have c: "1 \<le> CurrentEpoch e" "CurrentEpochStartTime e = ei_StartTime e + (CurrentEpoch e - 1) * Duration e"
    using assms(1,2) by (auto simp: epoch_inv_def)
  moreover have "0 \<le> (CurrentEpoch e - 1) * Duration e" using c(1) assms(3) by simp
  ultimately have "ei_StartTime e \<le> now" using assms(3,4) by linarith
  moreover have "i64 (CurrentEpoch e + 1) = CurrentEpoch e + 1"
    using assms(5) c(1) by (intro i64_id) (auto simp: in_i64_def)
  ultimately show "epoch_inv (epoch_tick now h e)" "EpochCountingStarted (epoch_tick now h e)"
    "CurrentEpoch (epoch_tick now h e) = CurrentEpoch e + 1"
    "ei_StartTime (epoch_tick now h e) = ei_StartTime e" "Duration (epoch_tick now h e) = Duration e"
    using assms c by (auto simp: epoch_tick_def epoch_inv_def algebra_simps)
qed

lemma ticks_start:
  assumes late: "\<And>b n. \<exists>j\<ge>n. b < (T j :: time)" and "epoch_inv e"
  shows "\<exists>n. EpochCountingStarted (ticks T H n e) \<and> epoch_inv (ticks T H n e) \<and>
    CurrentEpoch (ticks T H n e) = (if EpochCountingStarted e then CurrentEpoch e else 1) \<and>
    ei_StartTime (ticks T H n e) = ei_StartTime e \<and> Duration (ticks T H n e) = Duration e"
proof (cases "EpochCountingStarted e")
  case True
  then show ?thesis using assms(2) by (intro exI [of _ 0]) simp
next
  case False
  obtain j where j: "ei_StartTime e - 1 < T j" "\<forall>i. i < j \<longrightarrow> T i \<le> ei_StartTime e - 1"
    using first_after [OF late, of 0 "ei_StartTime e - 1"] by auto
  have "ticks T H j e = ticks T H 0 e"
    by (rule ticks_wait) (use j False in \<open>force simp: epoch_tick_def\<close>)+
  then show ?thesis using j(1) False by (intro exI [of _ "Suc j"]) (auto simp: epoch_tick_def epoch_inv_def)
qed

lemma ticks_reach:
  assumes late: "\<And>b n. \<exists>j\<ge>n. b < (T j :: time)" and "epoch_inv e" and "0 < Duration e"
    and start: "c = (if EpochCountingStarted e then CurrentEpoch e else 1)" and "c + int m < 2 ^ 63"
  shows "\<exists>n. EpochCountingStarted (ticks T H n e) \<and> epoch_inv (ticks T H n e) \<and>
    CurrentEpoch (ticks T H n e) = c + int m \<and>
    ei_StartTime (ticks T H n e) = ei_StartTime e \<and> Duration (ticks T H n e) = Duration e"
  using assms(5)
proof (induction m)
  case 0
  then show ?case using ticks_start [OF assms(1,2)] start by simp
next
  case (Suc m)
  then obtain n where n: "EpochCountingStarted (ticks T H n e)" "epoch_inv (ticks T H n e)"
    "CurrentEpoch (ticks T H n e) = c + int m"
    "ei_StartTime (ticks T H n e) = ei_StartTime e" "Duration (ticks T H n e) = Duration e" by auto
  let ?b = "CurrentEpochStartTime (ticks T H n e) + Duration (ticks T H n e)"
  obtain j where j: "n \<le> j" "?b < T j" "\<forall>i. n \<le> i \<and> i < j \<longrightarrow> T i \<le> ?b" using first_after [OF late] by blast
  have eq: "ticks T H j e = ticks T H n e"
    by (rule ticks_wait [OF _ j(1)]) (use j(3) n(1) in \<open>force simp: epoch_tick_def\<close>)
  have "0 < Duration (ticks T H n e)" "CurrentEpoch (ticks T H n e) + 1 < 2 ^ 63" using n assms(3) Suc.prems by simp_all
  note t = ticks_inv [OF n(2,1) this(1) j(2) this(2), of "H j"]
  show ?case by (rule exI [of _ "Suc j"]) (use t n eq in simp)
qed

section \<open>Properties\<close>

definition ex_hook :: "(string \<times> string \<times> int) list epoch_hooks" where
  "ex_hook = \<lparr>AfterEpochEnd_hook = (\<lambda>i n x. (Ok (), x @ [(''after'', i, n)])),
              BeforeEpochStart_hook = (\<lambda>i n x. (Ok (), x @ [(''before'', i, n)]))\<rparr>"

definition ex_day :: epoch_info where
  "ex_day = \<lparr>Identifier = ''day'', ei_StartTime = 100, Duration = 10, CurrentEpoch = 3,
             CurrentEpochStartTime = 120, EpochCountingStarted = True, CurrentEpochStartHeight = 7\<rparr>"

definition ex_epochs :: "(string \<times> string \<times> int) list epochs_state" where
  "ex_epochs = \<lparr>es_infos = [(''day'', ex_day)], es_ext = []\<rparr>"

lemma ex_epochs_ok:
  "hooks_keep (\<lambda>_. True) [ex_hook]" "infos_ok (es_infos ex_epochs)" "(\<lambda>_. True) (es_ext ex_epochs)"
  "GetEpochInfo ex_epochs k = Some e \<Longrightarrow> epoch_inv e \<and> 0 \<le> CurrentEpoch e \<and> CurrentEpoch e \<le> 3"
  by (auto simp: hooks_keep_def ex_hook_def infos_ok_def ex_epochs_def ex_day_def kv_ok_def GetEpochInfo_def kv_get_def
      epoch_inv_def split: if_splits)





text \<open>When an epoch ends, the hook that runs after its end is called with the number of the
  epoch that starts, the same number the hook before the new epoch gets, and it runs before the
  new epoch info is stored.\<close>

lemma AfterEpochEnd_number:
  assumes "EpochCountingStarted e" and "ei_StartTime e \<le> blockTime" and "CurrentEpochStartTime e + Duration e < blockTime"
    and "CurrentEpoch e < 2 ^ 63 - 1" and "0 \<le> CurrentEpoch e"
  shows "begin_epoch hooks blockTime blockHeight i e s =
     bindS (AfterEpochEnd hooks (Identifier e) (CurrentEpoch e + 1))
       (\<lambda>_ t. bindS (BeforeEpochStart hooks (Identifier e) (CurrentEpoch e + 1)) (\<lambda>_ u. (Ok False, u))
                (SetEpochInfo (epoch_tick blockTime blockHeight e) t)) s"
proof -
  have "i64 (CurrentEpoch e + 1) = CurrentEpoch e + 1" using assms by (intro i64_id) (simp add: in_i64_def)
  then show ?thesis
    using assms by (simp add: begin_epoch_def epoch_tick_def EndEpoch_def Let_def)
qed

end
