(* ===== verification/Inflation.thy ===== *)
theory Inflation
  imports Evmos_Utils Epochs
begin

text \<open>
  \<open>x/inflation\<close>: parameters and their validation, the exponential mint provision, minting and
  allocation, the hook that runs when an epoch ends, genesis and the queries.  The store's single
  values are optional fields, as an absent key reads as empty bytes; \<open>'x\<close> is the state of the bank,
  staking and distribution keepers.  Telemetry and events are left out.
\<close>

section \<open>Parameters\<close>

record exponential_calculation =
  ec_A :: dec
  ec_R :: dec
  ec_C :: dec
  ec_BondingTarget :: dec
  ec_MaxVariance :: dec

record inflation_distribution =
  StakingRewards :: dec
  UsageIncentives :: dec
  CommunityPool :: dec

record inflation_params =
  MintDenom :: denom
  ExponentialCalculation :: exponential_calculation
  InflationDistribution :: inflation_distribution
  EnableInflation :: bool

definition NewDecWithPrec :: "int \<Rightarrow> nat \<Rightarrow> dec" where
  "NewDecWithPrec n prec = n * 10 ^ (18 - prec)"

definition infl_DefaultParams :: "denom \<Rightarrow> inflation_params" where
  "infl_DefaultParams denom =
     \<lparr>MintDenom = denom,
      ExponentialCalculation = \<lparr>ec_A = NewDec 300000000, ec_R = NewDecWithPrec 50 2, ec_C = NewDec 9375000,
                                ec_BondingTarget = NewDecWithPrec 66 2, ec_MaxVariance = 0\<rparr>,
      InflationDistribution = \<lparr>StakingRewards = NewDecWithPrec 533333334 9, UsageIncentives = NewDecWithPrec 333333333 9,
                               CommunityPool = NewDecWithPrec 133333333 9\<rparr>,
      EnableInflation = True\<rparr>"

definition validateMintDenom :: "coins_ops \<Rightarrow> denom \<Rightarrow> unit outcome" where
  "validateMintDenom C v =
     (if blank v then Err (ErrPlain ''mint denom cannot be blank'') else
      if \<not> coins_ValidDenom C v then Err (ErrExt ''ValidateDenom'') else Ok ())"

definition validateExponentialCalculation :: "exponential_calculation \<Rightarrow> unit outcome" where
  "validateExponentialCalculation v =
     (if ec_A v < 0 then Err (ErrPlain ''initial value cannot be negative'') else
      if ec_R v > NewDec 1 then Err (ErrPlain ''reduction factor cannot be greater than 1'') else
      if ec_R v < 0 then Err (ErrPlain ''reduction factor cannot be negative'') else
      if ec_C v < 0 then Err (ErrPlain ''long term inflation cannot be negative'') else
      if ec_BondingTarget v > NewDec 1 then Err (ErrPlain ''bonded target cannot be greater than 1'') else
      if \<not> ec_BondingTarget v > 0 then Err (ErrPlain ''bonded target cannot be zero or negative'') else
      if ec_MaxVariance v < 0 then Err (ErrPlain ''max variance cannot be negative'') else Ok ())"

definition validateInflationDistribution :: "inflation_distribution \<Rightarrow> unit outcome" where
  "validateInflationDistribution v =
     (if StakingRewards v < 0 then Err (ErrPlain ''staking distribution ratio must not be negative'') else
      if UsageIncentives v < 0 then Err (ErrPlain ''pool incentives distribution ratio must not be negative'') else
      if CommunityPool v < 0 then Err (ErrPlain ''community pool distribution ratio must not be negative'') else
      if StakingRewards v + UsageIncentives v + CommunityPool v \<noteq> NewDec 1
      then Err (ErrPlain ''total distributions ratio should be 1'') else Ok ())"

definition infl_params_Validate :: "coins_ops \<Rightarrow> inflation_params \<Rightarrow> unit outcome" where
  "infl_params_Validate C p =
     bindO (validateMintDenom C (MintDenom p)) (\<lambda>_.
     bindO (validateExponentialCalculation (ExponentialCalculation p)) (\<lambda>_.
     validateInflationDistribution (InflationDistribution p)))"

section \<open>The mint provision\<close>

definition PowerReduction :: int where "PowerReduction = 10 ^ 18"

definition CalculateEpochMintProvision ::
  "dec_ops \<Rightarrow> inflation_params \<Rightarrow> int \<Rightarrow> int \<Rightarrow> dec \<Rightarrow> dec option" where
  "CalculateEpochMintProvision F params period epochsPerPeriod bondedRatio =
     (let x = period;
          a = ec_A (ExponentialCalculation params);
          r = ec_R (ExponentialCalculation params);
          c = ec_C (ExponentialCalculation params);
          bTarget = ec_BondingTarget (ExponentialCalculation params);
          maxVariance = ec_MaxVariance (ExponentialCalculation params);
          decay = dec_one - r;
          exponentialDecay = dec_Mul F a (dec_Power F decay (nat x)) + c;
          bondedRatio = (if bondedRatio \<ge> bTarget then bTarget else bondedRatio) in
      Option.bind (dec_Quo F maxVariance bTarget) (\<lambda>slope.
      let sub = dec_Mul F bondedRatio slope;
          bondingIncentive = dec_one + maxVariance - sub;
          periodProvision = dec_Mul F exponentialDecay bondingIncentive in
      Option.bind (dec_Quo F periodProvision (NewDec epochsPerPeriod)) (\<lambda>epochProvision.
      Some (dec_Mul F epochProvision (NewDec PowerReduction)))))"

section \<open>State\<close>

record 'x inflation_state =
  infl_params :: inflation_params
  infl_period :: "int option"
  infl_epochIdentifier :: string
  infl_epochsPerPeriod :: "int option"
  infl_skipped :: "int option"
  infl_provision :: "dec option"
  infl_ext :: 'x

definition infl_GetPeriod :: "'x inflation_state \<Rightarrow> int" where
  "infl_GetPeriod s = (case infl_period s of None \<Rightarrow> 0 | Some p \<Rightarrow> p)"

definition infl_SetPeriod :: "int \<Rightarrow> 'x inflation_state \<Rightarrow> 'x inflation_state" where
  "infl_SetPeriod period s = s\<lparr>infl_period := Some period\<rparr>"

definition infl_GetEpochIdentifier :: "'x inflation_state \<Rightarrow> string" where
  "infl_GetEpochIdentifier s = infl_epochIdentifier s"

definition infl_SetEpochIdentifier :: "string \<Rightarrow> 'x inflation_state \<Rightarrow> 'x inflation_state" where
  "infl_SetEpochIdentifier e s = s\<lparr>infl_epochIdentifier := e\<rparr>"

definition infl_GetEpochsPerPeriod :: "'x inflation_state \<Rightarrow> int" where
  "infl_GetEpochsPerPeriod s = (case infl_epochsPerPeriod s of None \<Rightarrow> 0 | Some n \<Rightarrow> i64 (u64 n))"

definition infl_SetEpochsPerPeriod :: "int \<Rightarrow> 'x inflation_state \<Rightarrow> 'x inflation_state" where
  "infl_SetEpochsPerPeriod n s = s\<lparr>infl_epochsPerPeriod := Some (u64 n)\<rparr>"

definition infl_GetSkippedEpochs :: "'x inflation_state \<Rightarrow> int" where
  "infl_GetSkippedEpochs s = (case infl_skipped s of None \<Rightarrow> 0 | Some n \<Rightarrow> n)"

definition infl_SetSkippedEpochs :: "int \<Rightarrow> 'x inflation_state \<Rightarrow> 'x inflation_state" where
  "infl_SetSkippedEpochs n s = s\<lparr>infl_skipped := Some n\<rparr>"

definition infl_GetEpochMintProvision :: "'x inflation_state \<Rightarrow> dec option" where
  "infl_GetEpochMintProvision s = infl_provision s"

definition infl_SetEpochMintProvision :: "dec \<Rightarrow> 'x inflation_state \<Rightarrow> 'x inflation_state" where
  "infl_SetEpochMintProvision d s = s\<lparr>infl_provision := Some d\<rparr>"

lemma infl_frame [simp]:
  "infl_GetPeriod (s\<lparr>infl_ext := x\<rparr>) = infl_GetPeriod s"
  "infl_GetEpochsPerPeriod (s\<lparr>infl_ext := x\<rparr>) = infl_GetEpochsPerPeriod s"
  "infl_GetSkippedEpochs (s\<lparr>infl_ext := x\<rparr>) = infl_GetSkippedEpochs s"
  "infl_GetPeriod (infl_SetPeriod p s) = p"
  "infl_ext (infl_SetPeriod p s) = infl_ext s"
  by (simp_all add: infl_GetPeriod_def infl_GetEpochsPerPeriod_def infl_GetSkippedEpochs_def infl_SetPeriod_def)

section \<open>Minting and allocation\<close>

record 'x infl_keepers =
  ik_C :: coins_ops
  ik_F :: dec_ops
  ik_A :: "'x account_ops"
  ik_B :: "'x bank_ops"
  ik_D :: "'x distr_ops"
  ik_S :: "'x staking_ops"
  ik_feeCollector :: string
  ik_ModuleAccount :: "'x \<Rightarrow> string \<Rightarrow> bool"

definition infl_MintCoins :: "'x infl_keepers \<Rightarrow> coin \<Rightarrow> ('x, unit) cmd" where
  "infl_MintCoins K coin x =
     (case coins_New (ik_C K) [coin] of
        None \<Rightarrow> (Panic, x)
      | Some coins \<Rightarrow> if coins = [] then (Ok (), x) else MintCoins (ik_B K) ''inflation'' coins x)"

definition GetProportions :: "'x infl_keepers \<Rightarrow> coin \<Rightarrow> dec \<Rightarrow> coin option" where
  "GetProportions K coin distribution =
     NewCoin (ik_C K) (Denom coin) (dec_TruncateInt (ik_F K) (dec_Mul (ik_F K) (NewDec (Amt coin)) distribution))"

definition newCoins1 :: "coins_ops \<Rightarrow> coin option \<Rightarrow> coins option" where
  "newCoins1 C c = Option.bind c (\<lambda>k. coins_New C [k])"

definition AllocateExponentialInflation ::
  "'x infl_keepers \<Rightarrow> inflation_params \<Rightarrow> coin \<Rightarrow> ('x, coins \<times> coins \<times> coins) cmd" where
  "AllocateExponentialInflation K params mintedCoin x =
     (let proportions = InflationDistribution params in
      case newCoins1 (ik_C K) (GetProportions K mintedCoin (StakingRewards proportions)) of
        None \<Rightarrow> (Panic, x)
      | Some staking \<Rightarrow>
          bindS (SendCoinsFromModuleToModule (ik_B K) ''inflation'' (ik_feeCollector K) staking) (\<lambda>_ y.
          case newCoins1 (ik_C K) (GetProportions K mintedCoin (UsageIncentives proportions)) of
            None \<Rightarrow> (Panic, y)
          | Some incentives \<Rightarrow>
              bindS (SendCoinsFromModuleToModule (ik_B K) ''inflation'' ''incentives'' incentives) (\<lambda>_ z.
              let moduleAddr = GetModuleAddress (ik_A K) ''inflation'';
                  communityPool = GetAllBalances (ik_B K) z moduleAddr in
              bindS (FundCommunityPool (ik_D K) communityPool moduleAddr)
                (\<lambda>_ w. (Ok (staking, incentives, communityPool), w)) z) y) x)"

definition MintAndAllocateInflation ::
  "'x infl_keepers \<Rightarrow> inflation_params \<Rightarrow> coin \<Rightarrow> ('x, coins \<times> coins \<times> coins) cmd" where
  "MintAndAllocateInflation K params coin =
     bindS (infl_MintCoins K coin) (\<lambda>_. AllocateExponentialInflation K params coin)"

definition teamAlloc :: int where "teamAlloc = 200000000 * PowerReduction"

definition BondedRatio :: "'x infl_keepers \<Rightarrow> string \<Rightarrow> 'x \<Rightarrow> dec option" where
  "BondedRatio K chainID x =
     (let stakeSupply = StakingTokenSupply (ik_S K) x;
          isMainnet = IsMainnet chainID in
      if \<not> stakeSupply > 0 \<or> (isMainnet \<and> stakeSupply \<le> teamAlloc) then Some 0 else
      let stakeSupply = (if isMainnet then stakeSupply - teamAlloc else stakeSupply) in
      dec_QuoInt (ik_F K) (NewDec (TotalBondedTokens (ik_S K) x)) stakeSupply)"

definition GetCirculatingSupply :: "'x infl_keepers \<Rightarrow> string \<Rightarrow> 'x inflation_state \<Rightarrow> dec" where
  "GetCirculatingSupply K chainID s =
     (let circulatingSupply = NewDec (GetSupply (ik_B K) (infl_ext s) (MintDenom (infl_params s))) in
      if IsMainnet chainID then circulatingSupply - NewDec teamAlloc else circulatingSupply)"

definition GetInflationRate :: "'x infl_keepers \<Rightarrow> string \<Rightarrow> 'x inflation_state \<Rightarrow> dec option" where
  "GetInflationRate K chainID s =
     (let epochMintProvision = (case infl_GetEpochMintProvision s of None \<Rightarrow> 0 | Some d \<Rightarrow> d) in
      if epochMintProvision = 0 then Some 0 else
      let epp = infl_GetEpochsPerPeriod s in
      if epp = 0 then Some 0 else
      let circulatingSupply = GetCirculatingSupply K chainID s in
      if circulatingSupply = 0 then Some 0 else
      map_option (\<lambda>q. dec_Mul (ik_F K) q (NewDec 100))
        (dec_Quo (ik_F K) (dec_Mul (ik_F K) epochMintProvision (NewDec epp)) circulatingSupply))"

section \<open>The epoch hook\<close>

definition infl_AfterEpochEnd ::
  "'x infl_keepers \<Rightarrow> string \<Rightarrow> string \<Rightarrow> int \<Rightarrow> ('x inflation_state, unit) cmd" where
  "infl_AfterEpochEnd K chainID epochIdentifier epochNumber s =
     (let params = infl_params s;
          skippedEpochs = infl_GetSkippedEpochs s in
      if \<not> EnableInflation params then
        (if epochIdentifier \<noteq> DayEpochID then (Ok (), s)
         else (Ok (), infl_SetSkippedEpochs (u64 (skippedEpochs + 1)) s))
      else if epochIdentifier \<noteq> infl_GetEpochIdentifier s then (Ok (), s) else
      (case infl_GetEpochMintProvision s of
         None \<Rightarrow> (Panic, s)
       | Some epochMintProvision \<Rightarrow>
      (case NewCoin (ik_C K) (MintDenom params) (dec_TruncateInt (ik_F K) epochMintProvision) of
         None \<Rightarrow> (Panic, s)
       | Some mintedCoin \<Rightarrow>
      (case MintAndAllocateInflation K params mintedCoin (infl_ext s) of
         (Err e, x) \<Rightarrow> (Panic, s\<lparr>infl_ext := x\<rparr>)
       | (Panic, x) \<Rightarrow> (Panic, s\<lparr>infl_ext := x\<rparr>)
       | (Ok _, x) \<Rightarrow>
           let s = s\<lparr>infl_ext := x\<rparr>;
               period = infl_GetPeriod s;
               epochsPerPeriod = infl_GetEpochsPerPeriod s in
           if i64 (i64 (epochNumber - i64 (epochsPerPeriod * i64 period)) - i64 skippedEpochs) > epochsPerPeriod then
             (let s = infl_SetPeriod (u64 (period + 1)) s;
                  period = infl_GetPeriod s in
              case BondedRatio K chainID (infl_ext s) of
                None \<Rightarrow> (Panic, s)
              | Some bondedRatio \<Rightarrow>
                  (case CalculateEpochMintProvision (ik_F K) params period epochsPerPeriod bondedRatio of
                     None \<Rightarrow> (Panic, s)
                   | Some newProvision \<Rightarrow> (Ok (), infl_SetEpochMintProvision newProvision s)))
           else (Ok (), s)))))"

definition infl_BeforeEpochStart :: "string \<Rightarrow> int \<Rightarrow> ('x inflation_state, unit) cmd" where
  "infl_BeforeEpochStart epochIdentifier epochNumber s = (Ok (), s)"

section \<open>Genesis\<close>

record inflation_genesis =
  ig_Params :: inflation_params
  ig_Period :: int
  ig_EpochIdentifier :: string
  ig_EpochsPerPeriod :: int
  ig_SkippedEpochs :: int

definition infl_DefaultGenesisState :: "denom \<Rightarrow> inflation_genesis" where
  "infl_DefaultGenesisState denom =
     \<lparr>ig_Params = infl_DefaultParams denom, ig_Period = 0, ig_EpochIdentifier = DayEpochID,
      ig_EpochsPerPeriod = 365, ig_SkippedEpochs = 0\<rparr>"

definition validateEpochsPerPeriod :: "int \<Rightarrow> unit outcome" where
  "validateEpochsPerPeriod v = (if v \<le> 0 then Err (ErrPlain ''epochs per period must be positive'') else Ok ())"

definition infl_genesis_Validate :: "coins_ops \<Rightarrow> inflation_genesis \<Rightarrow> unit outcome" where
  "infl_genesis_Validate C gs =
     bindO (ValidateEpochIdentifierString (ig_EpochIdentifier gs)) (\<lambda>_.
     bindO (validateEpochsPerPeriod (ig_EpochsPerPeriod gs)) (\<lambda>_.
     infl_params_Validate C (ig_Params gs)))"

definition infl_InitGenesis ::
  "'x infl_keepers \<Rightarrow> string \<Rightarrow> inflation_genesis \<Rightarrow> ('x inflation_state, unit) cmd" where
  "infl_InitGenesis K chainID data s =
     (if \<not> ik_ModuleAccount K (infl_ext s) ''inflation'' then (Panic, s) else
      let s = infl_SetSkippedEpochs (ig_SkippedEpochs data)
               (infl_SetEpochsPerPeriod (ig_EpochsPerPeriod data)
               (infl_SetEpochIdentifier (ig_EpochIdentifier data)
               (infl_SetPeriod (ig_Period data) (s\<lparr>infl_params := ig_Params data\<rparr>)))) in
      case BondedRatio K chainID (infl_ext s) of
        None \<Rightarrow> (Panic, s)
      | Some bondedRatio \<Rightarrow>
          (case CalculateEpochMintProvision (ik_F K) (ig_Params data) (ig_Period data) (ig_EpochsPerPeriod data) bondedRatio of
             None \<Rightarrow> (Panic, s)
           | Some p \<Rightarrow> (Ok (), infl_SetEpochMintProvision p s)))"

definition infl_ExportGenesis :: "'x inflation_state \<Rightarrow> inflation_genesis" where
  "infl_ExportGenesis s =
     \<lparr>ig_Params = infl_params s, ig_Period = infl_GetPeriod s, ig_EpochIdentifier = infl_GetEpochIdentifier s,
      ig_EpochsPerPeriod = infl_GetEpochsPerPeriod s, ig_SkippedEpochs = infl_GetSkippedEpochs s\<rparr>"

section \<open>The period counts the epochs that minted\<close>

text \<open>
  After the hook for epoch number \<open>n\<close>, with \<open>s\<close> epochs skipped, the period is the number of whole
  periods in the \<open>n - 1 - s\<close> epochs that minted.
\<close>

definition period_inv :: "int \<Rightarrow> 'x inflation_state \<Rightarrow> bool" where
  "period_inv n s \<longleftrightarrow>
     0 < infl_GetEpochsPerPeriod s \<and> 0 \<le> infl_GetSkippedEpochs s \<and> infl_GetSkippedEpochs s \<le> n - 1 \<and>
     infl_GetPeriod s = (n - 1 - infl_GetSkippedEpochs s) div infl_GetEpochsPerPeriod s"

lemma div_step:
  fixes e m :: int
  assumes "0 < e" and "0 \<le> m"
  shows "(m + 1) div e = (if e * (m div e) + e \<le> m + 1 then m div e + 1 else m div e)"
proof (cases "m mod e = e - 1")
  case True
  then have "m + 1 = e * (m div e + 1)" using mult_div_mod_eq [of e m]
    unfolding distrib_left by linarith
  then show ?thesis using assms by (simp add: algebra_simps)
next
  case False
  then have lt: "m mod e + 1 < e" using assms pos_mod_bound [of e m] by linarith
  have m: "m + 1 = e * (m div e) + (m mod e + 1)" by simp
  have "(m + 1) div e = m div e"
    by (subst m, subst div_mult_self4) (use lt assms in \<open>auto simp: div_pos_pos_trivial\<close>)
  moreover have "\<not> e * (m div e) + e \<le> m + 1" using m lt by linarith
  ultimately show ?thesis by simp
qed

lemma period_bounds:
  assumes "period_inv n s" and "n < 2 ^ 62" and "infl_GetEpochsPerPeriod s < 2 ^ 62"
  shows "0 \<le> infl_GetPeriod s" "infl_GetEpochsPerPeriod s * infl_GetPeriod s \<le> n - 1 - infl_GetSkippedEpochs s"
    "infl_GetPeriod s < 2 ^ 62" "0 \<le> infl_GetEpochsPerPeriod s * infl_GetPeriod s"
proof -
  let ?e = "infl_GetEpochsPerPeriod s" and ?m = "n - 1 - infl_GetSkippedEpochs s"
  have p: "infl_GetPeriod s = ?m div ?e" "0 < ?e" "0 \<le> ?m" using assms by (auto simp: period_inv_def)
  then show 0: "0 \<le> infl_GetPeriod s" by (simp add: pos_imp_zdiv_nonneg_iff)
  show le: "?e * infl_GetPeriod s \<le> ?m" unfolding p(1) using mult_div_mod_eq [of ?e ?m] pos_mod_sign [OF p(2), of ?m] by linarith
  have "?m div ?e \<le> ?e * (?m div ?e)"
    using mult_right_mono [of 1 ?e "?m div ?e"] 0 p(1,2) by simp
  with le have "?m div ?e \<le> ?m" unfolding p(1) by linarith
  then show "infl_GetPeriod s < 2 ^ 62" using p assms by (auto simp: period_inv_def)
  show "0 \<le> ?e * infl_GetPeriod s" using 0 p by simp
qed

lemma infl_AfterEpochEnd_period:
  assumes "period_inv n s" and "n < 2 ^ 62 - 1" and "infl_GetEpochsPerPeriod s < 2 ^ 62"
    and "infl_GetEpochIdentifier s = DayEpochID"
    and "infl_AfterEpochEnd K chainID DayEpochID (n + 1) s = (Ok u, s')"
  shows "period_inv (n + 1) s' \<and> infl_GetEpochsPerPeriod s' = infl_GetEpochsPerPeriod s \<and>
     infl_GetEpochIdentifier s' = DayEpochID \<and> infl_params s' = infl_params s \<and>
     (if EnableInflation (infl_params s) then infl_GetSkippedEpochs s' = infl_GetSkippedEpochs s
      else infl_GetSkippedEpochs s' = infl_GetSkippedEpochs s + 1 \<and> infl_ext s' = infl_ext s)"
proof (cases "EnableInflation (infl_params s)")
  case False
  have "u64 (infl_GetSkippedEpochs s + 1) = infl_GetSkippedEpochs s + 1"
    using assms(1,2) by (intro u64_id) (auto simp: period_inv_def)
  with False assms(1,4,5) show ?thesis
    by (auto simp: infl_AfterEpochEnd_def Let_def period_inv_def infl_GetSkippedEpochs_def infl_SetSkippedEpochs_def
        infl_GetPeriod_def infl_GetEpochsPerPeriod_def infl_GetEpochIdentifier_def algebra_simps)
next
  case True
  define e p sk where "e = infl_GetEpochsPerPeriod s" and "p = infl_GetPeriod s" and "sk = infl_GetSkippedEpochs s"
  have inv: "0 < e" "0 \<le> sk" "sk \<le> n - 1" "p = (n - 1 - sk) div e"
    using assms(1) by (auto simp: period_inv_def e_def p_def sk_def)
  have b: "0 \<le> p" "e * p \<le> n - 1 - sk" "p < 2 ^ 62" "0 \<le> e * p"
    using period_bounds [OF assms(1) _ assms(3)] assms(2) by (auto simp: e_def p_def sk_def)
  have w: "i64 p = p" "i64 (e * p) = e * p" "i64 sk = sk" "i64 (n + 1 - e * p) = n + 1 - e * p"
      "i64 (n + 1 - e * p - sk) = n + 1 - e * p - sk" "u64 (p + 1) = p + 1"
    using b inv(1-3) assms(2) by (auto intro!: i64_id u64_id simp: in_i64_def simp del: mult_nonneg_nonneg zero_le_mult_iff)
  have step: "(n + 1 - 1 - sk) div e = (if n + 1 - e * p - sk > e then p + 1 else p)"
    using div_step [of e "n - 1 - sk"] inv by (auto simp: algebra_simps)
  obtain m x where run: "MintAndAllocateInflation K (infl_params s) m (infl_ext s) = (Ok x, infl_ext s')"
    "if n + 1 - e * p - sk > e then infl_period s' = Some (p + 1) else infl_period s' = infl_period s"
    "infl_epochsPerPeriod s' = infl_epochsPerPeriod s" "infl_skipped s' = infl_skipped s"
    "infl_epochIdentifier s' = infl_epochIdentifier s" "infl_params s' = infl_params s"
    using assms(4,5) True
    by (simp add: infl_AfterEpochEnd_def Let_def e_def [symmetric] p_def [symmetric] sk_def [symmetric] w
        split: option.splits prod.splits outcome.splits if_splits)
      (auto simp: infl_SetPeriod_def infl_SetEpochMintProvision_def)
  then have "infl_GetPeriod s' = (if n + 1 - e * p - sk > e then p + 1 else p)"
    "infl_GetEpochsPerPeriod s' = e" "infl_GetSkippedEpochs s' = sk"
    by (auto simp: infl_GetPeriod_def infl_GetEpochsPerPeriod_def infl_GetSkippedEpochs_def e_def p_def sk_def split: if_splits)
  then show ?thesis
    using run(5,6) inv step True assms(4) by (simp add: period_inv_def e_def sk_def infl_GetEpochIdentifier_def)
qed

section \<open>The size of the provision\<close>

lemma validateExponentialCalculation_Ok:
  "validateExponentialCalculation v = Ok () \<longleftrightarrow> 0 \<le> ec_A v \<and> 0 \<le> ec_R v \<and> ec_R v \<le> dec_one \<and> 0 \<le> ec_C v \<and>
     0 < ec_BondingTarget v \<and> ec_BondingTarget v \<le> dec_one \<and> 0 \<le> ec_MaxVariance v"
  by (auto simp: validateExponentialCalculation_def NewDec_def)

definition exponential_decay :: "dec_ops \<Rightarrow> inflation_params \<Rightarrow> int \<Rightarrow> dec" where
  "exponential_decay F params period =
     dec_Mul F (ec_A (ExponentialCalculation params)) (dec_Power F (dec_one - ec_R (ExponentialCalculation params)) (nat period))
     + ec_C (ExponentialCalculation params)"

context dec_laws
begin

lemma exponential_decay_bounds:
  assumes "validateExponentialCalculation (ExponentialCalculation params) = Ok ()"
  shows "0 \<le> exponential_decay F params period"
    and "exponential_decay F params period \<le> ec_A (ExponentialCalculation params) + ec_C (ExponentialCalculation params)"
proof -
  let ?v = "ExponentialCalculation params"
  have v: "0 \<le> ec_A ?v" "0 \<le> ec_C ?v" "0 \<le> dec_one - ec_R ?v" "dec_one - ec_R ?v \<le> dec_one"
    using assms by (auto simp: validateExponentialCalculation_Ok)
  note p = Power_unit [OF v(3,4), of "nat period"]
  show "0 \<le> exponential_decay F params period"
    using Mul_nonneg [OF v(1)] p v(2) by (simp add: exponential_decay_def)
  show "exponential_decay F params period \<le> ec_A ?v + ec_C ?v"
    using Mul_unit_le [OF v(1)] p by (simp add: exponential_decay_def)
qed

lemma bonding_incentive_nonneg:
  assumes "0 \<le> b" "b \<le> t" "0 < t" "t \<le> dec_one" "0 \<le> v" "dec_Quo F v t = Some q"
  shows "dec_Mul F b q \<le> v + 1"
proof (rule ccontr)
  assume "\<not> dec_Mul F b q \<le> v + 1"
  then have gt: "dec_one * (v + 2) \<le> dec_one * dec_Mul F b q" by (intro mult_left_mono) simp_all
  have q: "0 \<le> q" by (rule Quo_nonneg [OF assms(5,3,6)])
  have "2 * (dec_one * (q * t)) \<le> 2 * (dec_one * dec_one * v) + (dec_one + 2) * t"
    using Quo_near [OF assms(6)] assms(3) abs_ge_self [of "dec_one * (q * t) - dec_one * dec_one * v"]
    by (simp add: algebra_simps)
  also have "\<dots> \<le> 2 * (dec_one * dec_one * v) + (dec_one + 2) * dec_one"
    using assms(4) by (intro add_left_mono mult_left_mono) simp_all
  finally have "dec_one * (2 * (q * t)) \<le> dec_one * (2 * dec_one * v + dec_one + 2)" by (simp add: algebra_simps)
  then have qt: "2 * (q * t) \<le> 2 * dec_one * v + dec_one + 2" by simp
  have "b * q \<le> q * t" unfolding mult.commute [of q t] by (rule mult_right_mono [OF assms(2) q])
  with qt gt Mul_near [of b q] show False by (simp add: dec_one_def algebra_simps)
qed

lemma CalculateEpochMintProvision_ok:
  assumes "validateExponentialCalculation (ExponentialCalculation params) = Ok ()" and "0 \<le> ratio" and "0 < epp"
  shows "\<exists>p. CalculateEpochMintProvision F params period epp ratio = Some p \<and> 0 \<le> p"
proof -
  let ?v = "ExponentialCalculation params"
  define b where "b = (if ratio \<ge> ec_BondingTarget ?v then ec_BondingTarget ?v else ratio)"
  have v: "0 < ec_BondingTarget ?v" "ec_BondingTarget ?v \<le> dec_one" "0 \<le> ec_MaxVariance ?v"
    and b: "0 \<le> b" "b \<le> ec_BondingTarget ?v"
    using assms by (auto simp: validateExponentialCalculation_Ok b_def)
  obtain q where q: "dec_Quo F (ec_MaxVariance ?v) (ec_BondingTarget ?v) = Some q"
    using Quo_None v(1) by (metis less_irrefl not_Some_eq)
  define inc where "inc = dec_one + ec_MaxVariance ?v - dec_Mul F b q"
  have "0 \<le> inc" using bonding_incentive_nonneg [OF b v q] by (simp add: inc_def dec_one_def)
  then have pp: "0 \<le> dec_Mul F (exponential_decay F params period) inc"
    using exponential_decay_bounds(1) [OF assms(1)] by (rule Mul_nonneg [rotated])
  have e: "0 < NewDec epp" using assms(3) by (simp add: NewDec_def)
  obtain r where r: "dec_Quo F (dec_Mul F (exponential_decay F params period) inc) (NewDec epp) = Some r"
    using Quo_None e by (metis less_irrefl not_Some_eq)
  have "0 \<le> r" by (rule Quo_nonneg [OF pp e r])
  then have "0 \<le> dec_Mul F r (NewDec PowerReduction)"
    by (intro Mul_nonneg) (simp_all add: NewDec_def PowerReduction_def)
  then show ?thesis
    using q r by (simp add: CalculateEpochMintProvision_def Let_def b_def [symmetric] inc_def [symmetric]
        exponential_decay_def [symmetric])
qed

lemma CalculateEpochMintProvision_exact:
  assumes "validateExponentialCalculation (ExponentialCalculation params) = Ok ()" and "0 < epp"
    and "ec_MaxVariance (ExponentialCalculation params) = 0"
    and "CalculateEpochMintProvision F params period epp ratio = Some p"
  shows "2 * \<bar>p * epp - exponential_decay F params period * PowerReduction\<bar> \<le> epp * (PowerReduction + 2)"
proof -
  let ?v = "ExponentialCalculation params" and ?E = "exponential_decay F params period"
  have t: "0 < ec_BondingTarget ?v" using assms(1) by (simp add: validateExponentialCalculation_Ok)
  obtain q r where q: "dec_Quo F 0 (ec_BondingTarget ?v) = Some q"
    and r: "dec_Quo F (dec_Mul F ?E (dec_one - dec_Mul F (if ratio \<ge> ec_BondingTarget ?v then ec_BondingTarget ?v else ratio) q))
              (NewDec epp) = Some r"
    and p: "p = dec_Mul F r (NewDec PowerReduction)"
    using assms(3,4) by (auto simp: CalculateEpochMintProvision_def Let_def exponential_decay_def bind_eq_Some_conv)
  have "2 * (dec_one * (\<bar>q\<bar> * ec_BondingTarget ?v)) \<le> (dec_one + 2) * ec_BondingTarget ?v"
    using Quo_near [OF q] t by (simp add: abs_mult)
  then have "(2 * dec_one * \<bar>q\<bar>) * ec_BondingTarget ?v \<le> (dec_one + 2) * ec_BondingTarget ?v" by (simp add: ac_simps)
  then have "2 * dec_one * \<bar>q\<bar> \<le> dec_one + 2" using t by simp
  then have q0: "q = 0" by (simp add: dec_one_def)
  have "dec_Mul F ?E (dec_one - dec_Mul F (if ratio \<ge> ec_BondingTarget ?v then ec_BondingTarget ?v else ratio) q) = ?E"
    by (rule Mul_exact) (simp add: q0 Mul_exact [of _ 0 0])
  with r have r': "dec_Quo F ?E (NewDec epp) = Some r" by simp
  have "2 * \<bar>dec_one * (r * (epp * dec_one)) - dec_one * dec_one * ?E\<bar> \<le> (dec_one + 2) * (epp * dec_one)"
    using Quo_near [OF r'] assms(2) by (simp add: NewDec_def abs_mult)
  moreover have "dec_one * (r * (epp * dec_one)) - dec_one * dec_one * ?E = dec_one * dec_one * (r * epp - ?E)"
    by (simp add: algebra_simps)
  ultimately have "dec_one * (2 * (dec_one * \<bar>r * epp - ?E\<bar>)) \<le> dec_one * ((dec_one + 2) * epp)"
    by (simp add: abs_mult ac_simps)
  then have near: "2 * (dec_one * \<bar>r * epp - ?E\<bar>) \<le> (dec_one + 2) * epp" by simp
  have "p = r * PowerReduction"
    unfolding p by (rule Mul_exact) (simp add: NewDec_def)
  then have eq: "p * epp - ?E * PowerReduction = dec_one * (r * epp - ?E)"
    by (simp add: PowerReduction_def dec_one_def algebra_simps)
  have "2 * \<bar>p * epp - ?E * PowerReduction\<bar> = 2 * (dec_one * \<bar>r * epp - ?E\<bar>)"
    unfolding eq abs_mult by simp
  also have "\<dots> \<le> (dec_one + 2) * epp" by (rule near)
  finally show ?thesis by (simp add: PowerReduction_def dec_one_def mult.commute)
qed

end

section \<open>The allocation\<close>

locale infl_laws =
  fixes K :: "'x infl_keepers" and reg :: "string set"
  assumes keepers: "keeper_laws (ik_C K) (ik_A K) (ik_B K) (ik_D K) reg"
    and decs: "dec_laws (ik_F K)"
    and accounts: "''inflation'' \<in> reg" "''incentives'' \<in> reg" "ik_feeCollector K \<in> reg"
    and feeCollector: "ik_feeCollector K \<notin> {''inflation'', ''incentives'', ''distribution''}"

sublocale infl_laws \<subseteq> kl: keeper_laws "ik_C K" "ik_A K" "ik_B K" "ik_D K" reg
  by (rule keepers)

sublocale infl_laws \<subseteq> dl: dec_laws "ik_F K"
  by (rule decs)

definition share :: "int \<Rightarrow> dec \<Rightarrow> int" where
  "share n ratio = n * ratio div dec_one"

lemma share_bounds:
  assumes "0 \<le> n" "0 \<le> a" "0 \<le> b" "a + b \<le> dec_one"
  shows "0 \<le> share n a" "0 \<le> share n b" "share n a + share n b \<le> n"
proof -
  show "0 \<le> share n a" "0 \<le> share n b"
    using assms by (simp_all add: share_def pos_imp_zdiv_nonneg_iff)
  have "dec_one * share n a + dec_one * share n b \<le> n * a + n * b"
    unfolding share_def using assms by (intro add_mono) (simp_all add: minus_mod_eq_mult_div [symmetric])
  also have "\<dots> \<le> n * dec_one"
    using assms by (simp add: distrib_left [symmetric] mult_left_mono)
  finally have "dec_one * (share n a + share n b) \<le> dec_one * n" by (simp add: algebra_simps)
  then show "share n a + share n b \<le> n" by simp
qed

context infl_laws
begin

abbreviation "bal x m d \<equiv> GetBalance (ik_B K) x (GetModuleAddress (ik_A K) m) d"

lemma proportion_coins:
  assumes "coins_ValidDenom (ik_C K) d" "0 \<le> n" "0 \<le> r"
  shows "\<exists>c. newCoins1 (ik_C K) (GetProportions K \<lparr>Denom = d, Amt = n\<rparr> r) = Some c \<and> coins_IsValid (ik_C K) c \<and>
           (\<forall>d'. coins_AmountOf (ik_C K) c d' = (if d' = d then share n r else 0))"
proof -
  have "0 \<le> n * r" using assms(2,3) by simp
  then have "GetProportions K \<lparr>Denom = d, Amt = n\<rparr> r = Some (oneCoin d (share n r))" and "0 \<le> share n r"
    using assms(1) by (simp_all add: GetProportions_def dl.Mul_NewDec dl.Truncate_floor NewCoin_def share_def
        pos_imp_zdiv_nonneg_iff)
  then show ?thesis using kl.New_one [OF assms(1)] by (simp add: newCoins1_def)
qed

lemma module_eq [simp]: "GetModuleAddress (ik_A K) m = GetModuleAddress (ik_A K) m' \<longleftrightarrow> m = m'"
  using kl.module_inj by auto

lemma allocation:
  assumes "validateInflationDistribution (InflationDistribution params) = Ok ()"
    and d: "coins_ValidDenom (ik_C K) d" and n: "0 \<le> n"
    and funds: "\<And>d'. 0 \<le> bal x ''inflation'' d'" "n \<le> bal x ''inflation'' d"
  shows "\<exists>r x'. AllocateExponentialInflation K params \<lparr>Denom = d, Amt = n\<rparr> x = (Ok r, x') \<and>
    (\<forall>d'. bal x' ''inflation'' d' = 0 \<and>
          bal x' (ik_feeCollector K) d' = bal x (ik_feeCollector K) d'
            + (if d' = d then share n (StakingRewards (InflationDistribution params)) else 0) \<and>
          bal x' ''incentives'' d' = bal x ''incentives'' d'
            + (if d' = d then share n (UsageIncentives (InflationDistribution params)) else 0) \<and>
          bal x' ''distribution'' d' = bal x ''distribution'' d' + bal x ''inflation'' d'
            - (if d' = d then share n (StakingRewards (InflationDistribution params))
                              + share n (UsageIncentives (InflationDistribution params)) else 0) \<and>
          GetSupply (ik_B K) x' d' = GetSupply (ik_B K) x d')"
proof -
  let ?p = "InflationDistribution params"
  let ?a = "share n (StakingRewards ?p)" and ?b = "share n (UsageIncentives ?p)"
  have p: "0 \<le> StakingRewards ?p" "0 \<le> UsageIncentives ?p" "StakingRewards ?p + UsageIncentives ?p \<le> dec_one"
    using assms(1) by (auto simp: validateInflationDistribution_def NewDec_def split: if_splits)
  note ab = share_bounds [OF n p]
  obtain c1 where c1: "newCoins1 (ik_C K) (GetProportions K \<lparr>Denom = d, Amt = n\<rparr> (StakingRewards ?p)) = Some c1"
    "coins_IsValid (ik_C K) c1" "\<And>d'. coins_AmountOf (ik_C K) c1 d' = (if d' = d then ?a else 0)"
    using proportion_coins [OF d n p(1)] by blast
  obtain c2 where c2: "newCoins1 (ik_C K) (GetProportions K \<lparr>Denom = d, Amt = n\<rparr> (UsageIncentives ?p)) = Some c2"
    "coins_IsValid (ik_C K) c2" "\<And>d'. coins_AmountOf (ik_C K) c2 d' = (if d' = d then ?b else 0)"
    using proportion_coins [OF d n p(2)] by blast
  have le1: "coins_AmountOf (ik_C K) c1 d' \<le> bal x ''inflation'' d'" for d'
    using funds ab by (auto simp: c1(3))
  obtain y where y: "SendCoinsFromModuleToModule (ik_B K) ''inflation'' (ik_feeCollector K) c1 x = (Ok (), y)"
    using kl.ModuleToModule_ok [OF accounts(1,3) c1(2) le1] by blast
  note my = kl.ModuleToModule_moved [OF c1(2) y, unfolded moved_def]
  have infl_y: "bal y ''inflation'' d' = bal x ''inflation'' d' - (if d' = d then ?a else 0)" for d'
    using my feeCollector by (auto simp: c1(3))
  have le2: "coins_AmountOf (ik_C K) c2 d' \<le> bal y ''inflation'' d'" for d'
    using funds ab by (auto simp: c2(3) infl_y)
  obtain z where z: "SendCoinsFromModuleToModule (ik_B K) ''inflation'' ''incentives'' c2 y = (Ok (), z)"
    using kl.ModuleToModule_ok [OF accounts(1,2) c2(2) le2] by blast
  note mz = kl.ModuleToModule_moved [OF c2(2) z, unfolded moved_def]
  have infl_z: "bal z ''inflation'' d' = bal y ''inflation'' d' - (if d' = d then ?b else 0)" for d'
    using mz by (auto simp: c2(3))
  let ?c = "GetAllBalances (ik_B K) z (GetModuleAddress (ik_A K) ''inflation'')"
  have "0 \<le> bal z ''inflation'' d'" for d' using le2 [of d'] by (simp add: infl_z c2(3) split: if_splits)
  then have c: "coins_IsValid (ik_C K) ?c" "\<And>d'. coins_AmountOf (ik_C K) ?c d' = bal z ''inflation'' d'"
    using kl.GetAllBalances_amount [of z "GetModuleAddress (ik_A K) ''inflation''"] by auto
  obtain w where w: "FundCommunityPool (ik_D K) ?c (GetModuleAddress (ik_A K) ''inflation'') z = (Ok (), w)"
    using kl.Fund_ok [OF accounts(1) refl c(1)] c(2) by fastforce
  note mw = kl.Fund_moved [OF c(1) w, unfolded moved_def]
  have "AllocateExponentialInflation K params \<lparr>Denom = d, Amt = n\<rparr> x = (Ok (c1, c2, ?c), w)"
    by (simp add: AllocateExponentialInflation_def Let_def c1(1) c2(1) bindS_def y z w)
  moreover have "bal w ''inflation'' d' = 0 \<and>
      bal w (ik_feeCollector K) d' = bal x (ik_feeCollector K) d' + (if d' = d then ?a else 0) \<and>
      bal w ''incentives'' d' = bal x ''incentives'' d' + (if d' = d then ?b else 0) \<and>
      bal w ''distribution'' d' = bal x ''distribution'' d' + bal x ''inflation'' d' - (if d' = d then ?a + ?b else 0) \<and>
      GetSupply (ik_B K) w d' = GetSupply (ik_B K) x d'" for d'
    using mw mz my feeCollector by (auto simp: c(2) c2(3) c1(3))
  ultimately show ?thesis by blast
qed

end

section \<open>Runs of the hook\<close>

text \<open>
  The states the module passes through when the hook is called for one epoch after the other, for
  other epoch identifiers in between, and while governance changes the parameters.  The second
  argument is the number the last call for the day epoch carried.
\<close>

inductive infl_run :: "'x infl_keepers \<Rightarrow> string \<Rightarrow> 'x inflation_state \<Rightarrow> int \<Rightarrow> 'x inflation_state \<Rightarrow> bool"
  for K chainID s0 where
  start: "infl_run K chainID s0 1 s0"
| day: "infl_run K chainID s0 n s \<Longrightarrow> infl_AfterEpochEnd K chainID DayEpochID (n + 1) s = (Ok (), s') \<Longrightarrow>
    infl_run K chainID s0 (n + 1) s'"
| other: "infl_run K chainID s0 n s \<Longrightarrow> ident \<noteq> DayEpochID \<Longrightarrow>
    infl_AfterEpochEnd K chainID ident m s = (Ok (), s') \<Longrightarrow> infl_run K chainID s0 n s'"
| params: "infl_run K chainID s0 n s \<Longrightarrow> infl_run K chainID s0 n (s\<lparr>infl_params := p\<rparr>)"

lemma infl_AfterEpochEnd_other:
  assumes "ident \<noteq> DayEpochID" "infl_GetEpochIdentifier s = DayEpochID"
    "infl_AfterEpochEnd K chainID ident m s = (Ok (), s')"
  shows "s' = s"
  using assms by (auto simp: infl_AfterEpochEnd_def Let_def split: if_splits)

lemma infl_run_inv:
  assumes "infl_run K chainID s0 n s" and "n < 2 ^ 62"
    and "period_inv 1 s0" "infl_GetEpochsPerPeriod s0 < 2 ^ 62" "infl_GetEpochIdentifier s0 = DayEpochID"
  shows "period_inv n s \<and> infl_GetEpochsPerPeriod s = infl_GetEpochsPerPeriod s0 \<and> infl_GetEpochIdentifier s = DayEpochID"
  using assms(1,2)
proof induction
  case start
  then show ?case using assms by simp
next
  case (day n s s')
  then have "period_inv n s" "n < 2 ^ 62 - 1" "infl_GetEpochsPerPeriod s < 2 ^ 62" "infl_GetEpochIdentifier s = DayEpochID"
    "infl_GetEpochsPerPeriod s = infl_GetEpochsPerPeriod s0"
    using assms by auto
  with infl_AfterEpochEnd_period [OF this(1-4) day.hyps(2)] show ?case by simp
next
  case (other n s ident m s')
  then show ?case using infl_AfterEpochEnd_other [of ident s K chainID m s'] by simp
next
  case (params n s p)
  then show ?case
    by (simp add: period_inv_def infl_GetPeriod_def infl_GetEpochsPerPeriod_def infl_GetSkippedEpochs_def
        infl_GetEpochIdentifier_def)
qed

context infl_laws
begin

lemma minted:
  assumes "coins_ValidDenom (ik_C K) d" and "0 \<le> n" and "infl_MintCoins K \<lparr>Denom = d, Amt = n\<rparr> x = (Ok (), y)"
  shows "GetBalance (ik_B K) y a d' = GetBalance (ik_B K) x a d' +
           (if a = GetModuleAddress (ik_A K) ''inflation'' \<and> d' = d then n else 0)"
    and "GetSupply (ik_B K) y d' = GetSupply (ik_B K) x d' + (if d' = d then n else 0)"
proof -
  obtain c where c: "coins_New (ik_C K) [\<lparr>Denom = d, Amt = n\<rparr>] = Some c" "coins_IsValid (ik_C K) c"
    "\<And>d'. coins_AmountOf (ik_C K) c d' = (if d' = d then n else 0)"
    using kl.New_one [OF assms(1,2)] by auto
  have "c = [] \<Longrightarrow> n = 0" using c(3) [of d] kl.amount_empty by simp
  with assms(3) c show "GetBalance (ik_B K) y a d' = GetBalance (ik_B K) x a d' +
      (if a = GetModuleAddress (ik_A K) ''inflation'' \<and> d' = d then n else 0)"
    "GetSupply (ik_B K) y d' = GetSupply (ik_B K) x d' + (if d' = d then n else 0)"
    by (auto simp: infl_MintCoins_def kl.Mint_balance kl.Mint_supply split: if_splits)
qed

end

section \<open>An executable instance\<close>

definition std_infl :: "std_world infl_keepers" where
  "std_infl = \<lparr>ik_C = std_coins, ik_F = std_dec, ik_A = std_accounts, ik_B = std_bank, ik_D = std_distr, ik_S = std_staking,
               ik_feeCollector = ''fee_collector'', ik_ModuleAccount = (\<lambda>_ _. True)\<rparr>"

interpretation stdi: infl_laws std_infl UNIV
  by (rule infl_laws.intro)
    (simp_all add: std_infl_def stdk.keeper_laws_axioms stdd.dec_laws_axioms)

definition ex_infl_world :: std_world where
  "ex_infl_world = \<lparr>w_accounts = [], w_denoms = [], w_balance = (\<lambda>_ _. 0), w_supply = (\<lambda>_. 0)\<rparr>"

definition ex_infl :: "std_world inflation_state" where
  "ex_infl = \<lparr>infl_params = infl_DefaultParams ''aevmos'', infl_period = Some 0, infl_epochIdentifier = DayEpochID,
              infl_epochsPerPeriod = Some 1, infl_skipped = Some 0, infl_provision = Some (NewDec 1000),
              infl_ext = ex_infl_world\<rparr>"

lemma std_infl_sel [simp]:
  "ik_A std_infl = std_accounts" "ik_B std_infl = std_bank" "ik_feeCollector std_infl = ''fee_collector''"
  "GetModuleAddress std_accounts = std_module_addr" "GetBalance std_bank ex_infl_world a d = 0"
  by (simp_all add: std_infl_def std_accounts_def std_bank_def ex_infl_world_def std_balance_def)

section \<open>Properties\<close>

text \<open>C17. Minting \<open>n\<close> coins and allocating them succeeds once the bank has minted, raises the supply by
  \<open>n\<close>, pays the staking share to the fee collector and the usage share to the incentives module (both
  rounded down), sends everything else the inflation module holds to the community pool and leaves the
  inflation module with nothing.\<close>

theorem MintAndAllocateInflation_splits:
  assumes "infl_laws K reg"
    and "validateInflationDistribution (InflationDistribution params) = Ok ()"
    and "coins_ValidDenom (ik_C K) d" and "0 \<le> n"
    and "\<And>d'. 0 \<le> GetBalance (ik_B K) x (GetModuleAddress (ik_A K) ''inflation'') d'"
    and "infl_MintCoins K \<lparr>Denom = d, Amt = n\<rparr> x = (Ok (), y)"
  shows "\<exists>r x'. MintAndAllocateInflation K params \<lparr>Denom = d, Amt = n\<rparr> x = (Ok r, x') \<and>
    (let bal = \<lambda>w m. GetBalance (ik_B K) w (GetModuleAddress (ik_A K) m);
         staking = n * StakingRewards (InflationDistribution params) div 10 ^ 18;
         usage = n * UsageIncentives (InflationDistribution params) div 10 ^ 18 in
     \<forall>d'. bal x' ''inflation'' d' = 0 \<and>
          bal x' (ik_feeCollector K) d' = bal x (ik_feeCollector K) d' + (if d' = d then staking else 0) \<and>
          bal x' ''incentives'' d' = bal x ''incentives'' d' + (if d' = d then usage else 0) \<and>
          bal x' ''distribution'' d' = bal x ''distribution'' d' + bal x ''inflation'' d'
            + (if d' = d then n - staking - usage else 0) \<and>
          GetSupply (ik_B K) x' d' = GetSupply (ik_B K) x d' + (if d' = d then n else 0))"
proof -
  note minted = infl_laws.minted [OF assms(1,3,4,6)]
  have names: "ik_feeCollector K \<noteq> ''inflation''"
    using infl_laws.feeCollector [OF assms(1)] by auto
  have funds: "\<And>d'. 0 \<le> GetBalance (ik_B K) y (GetModuleAddress (ik_A K) ''inflation'') d'"
    "n \<le> GetBalance (ik_B K) y (GetModuleAddress (ik_A K) ''inflation'') d"
    using assms(4,5) by (simp_all add: minted)
  obtain r x' where run: "AllocateExponentialInflation K params \<lparr>Denom = d, Amt = n\<rparr> y = (Ok r, x')"
    and split: "\<forall>d'. GetBalance (ik_B K) x' (GetModuleAddress (ik_A K) ''inflation'') d' = 0 \<and>
      GetBalance (ik_B K) x' (GetModuleAddress (ik_A K) (ik_feeCollector K)) d'
        = GetBalance (ik_B K) y (GetModuleAddress (ik_A K) (ik_feeCollector K)) d'
          + (if d' = d then share n (StakingRewards (InflationDistribution params)) else 0) \<and>
      GetBalance (ik_B K) x' (GetModuleAddress (ik_A K) ''incentives'') d'
        = GetBalance (ik_B K) y (GetModuleAddress (ik_A K) ''incentives'') d'
          + (if d' = d then share n (UsageIncentives (InflationDistribution params)) else 0) \<and>
      GetBalance (ik_B K) x' (GetModuleAddress (ik_A K) ''distribution'') d'
        = GetBalance (ik_B K) y (GetModuleAddress (ik_A K) ''distribution'') d'
          + GetBalance (ik_B K) y (GetModuleAddress (ik_A K) ''inflation'') d'
          - (if d' = d then share n (StakingRewards (InflationDistribution params))
                            + share n (UsageIncentives (InflationDistribution params)) else 0) \<and>
      GetSupply (ik_B K) x' d' = GetSupply (ik_B K) y d'"
    using infl_laws.allocation [OF assms(1-4) funds] by blast
  have "MintAndAllocateInflation K params \<lparr>Denom = d, Amt = n\<rparr> x = (Ok r, x')"
    using assms(6) run by (simp add: MintAndAllocateInflation_def bindS_def)
  then show ?thesis
    using split infl_laws.module_eq [OF assms(1)] names
    by (intro exI [of _ r] exI [of _ x']) (simp add: minted Let_def share_def dec_one_def)
qed

theorem MintAndAllocateInflation_splits_witness:
  "\<exists>r x'. MintAndAllocateInflation std_infl (infl_DefaultParams ''aevmos'') \<lparr>Denom = ''aevmos'', Amt = 1000\<rparr> ex_infl_world = (Ok r, x') \<and>
     GetBalance std_bank x' (std_module_addr ''fee_collector'') ''aevmos'' = 533 \<and>
     GetBalance std_bank x' (std_module_addr ''incentives'') ''aevmos'' = 333 \<and>
     GetBalance std_bank x' (std_module_addr ''distribution'') ''aevmos'' = 134"
proof -
  have "fst (infl_MintCoins std_infl \<lparr>Denom = ''aevmos'', Amt = 1000\<rparr> ex_infl_world) = Ok ()" by code_simp
  then obtain y where y: "infl_MintCoins std_infl \<lparr>Denom = ''aevmos'', Amt = 1000\<rparr> ex_infl_world = (Ok (), y)"
    by (metis prod.collapse)
  have v: "validateInflationDistribution (InflationDistribution (infl_DefaultParams ''aevmos'')) = Ok ()" by code_simp
  have d: "coins_ValidDenom (ik_C std_infl) ''aevmos''" by code_simp
  have b: "0 \<le> GetBalance (ik_B std_infl) ex_infl_world a d'" for a d' by simp
  obtain r x' where run: "MintAndAllocateInflation std_infl (infl_DefaultParams ''aevmos'') \<lparr>Denom = ''aevmos'', Amt = 1000\<rparr> ex_infl_world = (Ok r, x')"
    and res: "let bal = \<lambda>w m. GetBalance std_bank w (std_module_addr m);
         staking = 1000 * StakingRewards (InflationDistribution (infl_DefaultParams ''aevmos'')) div 10 ^ 18;
         usage = 1000 * UsageIncentives (InflationDistribution (infl_DefaultParams ''aevmos'')) div 10 ^ 18 in
      \<forall>d'. bal x' ''inflation'' d' = 0 \<and>
          bal x' ''fee_collector'' d' = bal ex_infl_world ''fee_collector'' d' + (if d' = ''aevmos'' then staking else 0) \<and>
          bal x' ''incentives'' d' = bal ex_infl_world ''incentives'' d' + (if d' = ''aevmos'' then usage else 0) \<and>
          bal x' ''distribution'' d' = bal ex_infl_world ''distribution'' d' + bal ex_infl_world ''inflation'' d'
            + (if d' = ''aevmos'' then 1000 - staking - usage else 0) \<and>
          GetSupply std_bank x' d' = GetSupply std_bank ex_infl_world d' + (if d' = ''aevmos'' then 1000 else 0)"
    using MintAndAllocateInflation_splits [OF stdi.infl_laws_axioms v d _ b y] unfolding std_infl_sel by auto
  show ?thesis
    by (intro exI [of _ r] exI [of _ x']) (use run res in \<open>simp add: infl_DefaultParams_def NewDecWithPrec_def\<close>)
qed

text \<open>C18. With validated parameters and a positive number of epochs per period the mint provision never
  panics and is never negative; when the variance is zero (the default), a whole period mints the
  exponential curve \<open>a * (1 - r) ^ x + c\<close> in base units, up to one rounding of each epoch.\<close>

theorem CalculateEpochMintProvision_correct:
  assumes "dec_laws F"
    and "validateExponentialCalculation (ExponentialCalculation params) = Ok ()"
    and "0 \<le> bondedRatio" and "0 < epochsPerPeriod"
  shows "\<exists>p. CalculateEpochMintProvision F params period epochsPerPeriod bondedRatio = Some p \<and> 0 \<le> p \<and>
    (ec_MaxVariance (ExponentialCalculation params) = 0 \<longrightarrow>
       2 * \<bar>p * epochsPerPeriod
            - (dec_Mul F (ec_A (ExponentialCalculation params))
                 (dec_Power F (dec_one - ec_R (ExponentialCalculation params)) (nat period))
               + ec_C (ExponentialCalculation params)) * PowerReduction\<bar>
       \<le> epochsPerPeriod * (PowerReduction + 2))"
  using dec_laws.CalculateEpochMintProvision_ok [OF assms, of period]
    dec_laws.CalculateEpochMintProvision_exact [OF assms(1,2,4), of period bondedRatio]
  by (auto simp: exponential_decay_def)

theorem CalculateEpochMintProvision_correct_witness:
  "\<exists>p. CalculateEpochMintProvision std_dec (infl_DefaultParams ''aevmos'') 0 365 (NewDecWithPrec 5 1) = Some p \<and> 0 \<le> p \<and>
     2 * \<bar>p * 365 - (NewDec 300000000 + NewDec 9375000) * 10 ^ 18\<bar> \<le> 365 * (10 ^ 18 + 2)"
proof -
  have v: "validateExponentialCalculation (ExponentialCalculation (infl_DefaultParams ''aevmos'')) = Ok ()" by code_simp
  have m: "dec_Mul std_dec (NewDec 300000000) dec_one = NewDec 300000000" by code_simp
  show ?thesis
    using CalculateEpochMintProvision_correct [OF stdd.dec_laws_axioms v, of "NewDecWithPrec 5 1" 365 0] m
    by (simp add: infl_DefaultParams_def NewDecWithPrec_def PowerReduction_def stdd.Power_0)
qed

text \<open>C19. Starting from a fresh chain, after any run of the hook over consecutive day epochs, with
  inflation switched on and off by governance in between, the stored period is the number of whole periods in
  the day epochs that minted, and the skipped epochs are the others.\<close>

theorem infl_period_counts_minted_epochs:
  assumes "infl_run K chainID s0 n s" and "n < 2 ^ 62"
    and "infl_GetPeriod s0 = 0" "infl_GetSkippedEpochs s0 = 0" "infl_GetEpochIdentifier s0 = DayEpochID"
    and "0 < infl_GetEpochsPerPeriod s0" "infl_GetEpochsPerPeriod s0 < 2 ^ 62"
  shows "infl_GetPeriod s = (n - 1 - infl_GetSkippedEpochs s) div infl_GetEpochsPerPeriod s0 \<and>
         0 \<le> infl_GetSkippedEpochs s \<and> infl_GetSkippedEpochs s \<le> n - 1"
  using infl_run_inv [OF assms(1,2) _ assms(7,5)] assms(3,4,6) by (auto simp: period_inv_def)

theorem infl_period_counts_minted_epochs_witness:
  "\<exists>s. infl_run std_infl ''evmos_9001-2'' ex_infl 2 s \<and> infl_GetPeriod s = 1"
proof -
  have "fst (infl_AfterEpochEnd std_infl ''evmos_9001-2'' DayEpochID 2 ex_infl) = Ok ()" by code_simp
  then obtain s where "infl_AfterEpochEnd std_infl ''evmos_9001-2'' DayEpochID (1 + 1) ex_infl = (Ok (), s)"
    by (metis one_add_one prod.collapse)
  from infl_run.day [OF infl_run.start this]
  have run: "infl_run std_infl ''evmos_9001-2'' ex_infl 2 s" by simp
  have sk: "infl_GetSkippedEpochs s = 0"
  proof -
    have "infl_GetSkippedEpochs (snd (infl_AfterEpochEnd std_infl ''evmos_9001-2'' DayEpochID 2 ex_infl)) = 0" by code_simp
    then show ?thesis using \<open>infl_AfterEpochEnd _ _ _ _ _ = _\<close> by simp
  qed
  have g: "infl_GetPeriod ex_infl = 0" "infl_GetSkippedEpochs ex_infl = 0" "infl_GetEpochIdentifier ex_infl = DayEpochID"
    "infl_GetEpochsPerPeriod ex_infl = 1" by code_simp+
  show ?thesis
    using infl_period_counts_minted_epochs [OF run] run sk g by auto
qed

end
