(* ===== verification/Claims.thy ===== *)
theory Claims
  imports Evmos_Utils
begin

text \<open>
  \<open>x/claims\<close>: the airdrop.  Claims records and parameters with their validation, the claimable amount
  and its decay, claiming, merging and migrating records, the staking, governance, EVM and IBC
  callbacks, the end of the airdrop, genesis and the module's own invariant.  Balances and accounts
  belong to the keepers the module calls; \<open>'x\<close> is their state.  Logging and events are left out.
  An action is the number the protocol buffer enumeration gives it; \<open>None\<close> as the amount of a record
  is a nil \<open>sdk.Int\<close>.
\<close>

section \<open>Records\<close>

type_synonym action = nat

definition ActionUnspecified :: action where "ActionUnspecified = 0"
definition ActionVote :: action where "ActionVote = 1"
definition ActionDelegate :: action where "ActionDelegate = 2"
definition ActionEVM :: action where "ActionEVM = 3"
definition ActionIBCTransfer :: action where "ActionIBCTransfer = 4"

definition numActions :: nat where "numActions = 4"

lemmas action_defs = ActionUnspecified_def ActionVote_def ActionDelegate_def ActionEVM_def ActionIBCTransfer_def numActions_def

record claims_record =
  InitialClaimableAmount :: "int option"
  ActionsCompleted :: "bool list"

record claims_record_address =
  cra_Address :: string
  cra_InitialClaimableAmount :: "int option"
  cra_ActionsCompleted :: "bool list"

definition IBCTriggerAmt :: string where "IBCTriggerAmt = ''63743''"

definition NewClaimsRecord :: "int option \<Rightarrow> claims_record" where
  "NewClaimsRecord initialClaimableAmt =
     \<lparr>InitialClaimableAmount = initialClaimableAmt, ActionsCompleted = [False, False, False, False]\<rparr>"

definition cr_Validate :: "claims_record \<Rightarrow> unit outcome" where
  "cr_Validate cr =
     (case InitialClaimableAmount cr of
        None \<Rightarrow> Err (ErrPlain ''initial claimable amount is nil'')
      | Some n \<Rightarrow>
          if \<not> n > 0 then Err (ErrPlain ''initial claimable amount is not positive'') else
          if length (ActionsCompleted cr) = 0 \<or> numActions \<noteq> length (ActionsCompleted cr)
          then Err (ErrPlain ''action length mismatch'') else Ok ())"

definition MarkClaimed :: "action \<Rightarrow> claims_record \<Rightarrow> claims_record" where
  "MarkClaimed action cr =
     (if length (ActionsCompleted cr) \<noteq> numActions then cr else
      if action = ActionUnspecified \<or> action > numActions then cr else
      cr\<lparr>ActionsCompleted := (ActionsCompleted cr)[action - 1 := True]\<rparr>)"

definition HasClaimedAction :: "claims_record \<Rightarrow> action \<Rightarrow> bool" where
  "HasClaimedAction cr action =
     (if length (ActionsCompleted cr) \<noteq> numActions then False else
      if action = 0 \<or> action > numActions then False else
      ActionsCompleted cr ! (action - 1))"

fun any_completed :: "bool list \<Rightarrow> bool" where
  "any_completed [] = False"
| "any_completed (completed # rest) = (if completed then True else any_completed rest)"

definition HasClaimedAny :: "claims_record \<Rightarrow> bool" where
  "HasClaimedAny cr = any_completed (ActionsCompleted cr)"

fun all_completed :: "bool list \<Rightarrow> bool" where
  "all_completed [] = True"
| "all_completed (completed # rest) = (if \<not> completed then False else all_completed rest)"

definition HasClaimedAll :: "claims_record \<Rightarrow> bool" where
  "HasClaimedAll cr = (if length (ActionsCompleted cr) = 0 then False else all_completed (ActionsCompleted cr))"

definition NewClaimsRecordAddress :: "bech32_ops \<Rightarrow> addr \<Rightarrow> int option \<Rightarrow> claims_record_address" where
  "NewClaimsRecordAddress H address initialClaimableAmt =
     \<lparr>cra_Address = acc_String H address, cra_InitialClaimableAmount = initialClaimableAmt,
      cra_ActionsCompleted = [False, False, False, False]\<rparr>"

definition cra_Validate :: "bech32_ops \<Rightarrow> claims_record_address \<Rightarrow> unit outcome" where
  "cra_Validate H cra =
     (if AccAddressFromBech32 H (cra_Address cra) = None then Err (ErrExt ''AccAddressFromBech32'') else
      case cra_InitialClaimableAmount cra of
        None \<Rightarrow> Err (ErrPlain ''initial claimable amount is nil'')
      | Some n \<Rightarrow>
          if \<not> n > 0 then Err (ErrPlain ''initial claimable amount is not positive'') else
          if numActions \<noteq> length (cra_ActionsCompleted cra)
          then Err (ErrPlain ''action length mismatch'') else Ok ())"

section \<open>Parameters\<close>

record claims_params =
  EnableClaims :: bool
  AirdropStartTime :: time
  DurationUntilDecay :: duration
  DurationOfDecay :: duration
  ClaimsDenom :: denom
  AuthorizedChannels :: "string list"
  EVMChannels :: "string list"

definition claims_DefaultParams :: claims_params where
  "claims_DefaultParams =
     \<lparr>EnableClaims = True, AirdropStartTime = zero_time, DurationUntilDecay = 2629800 * Second,
      DurationOfDecay = 2 * (2629800 * Second), ClaimsDenom = ''aevmos'',
      AuthorizedChannels = [''channel-0'', ''channel-3''], EVMChannels = [''channel-2'']\<rparr>"

definition validateDuration :: "duration \<Rightarrow> unit outcome" where
  "validateDuration v = (if v \<le> 0 then Err (ErrPlain ''duration must be positive'') else Ok ())"

fun ValidateChannels :: "(string \<Rightarrow> bool) \<Rightarrow> string list \<Rightarrow> unit outcome" where
  "ValidateChannels validChannel [] = Ok ()"
| "ValidateChannels validChannel (channel # channels) =
     (if \<not> validChannel channel then Err (ErrExt ''invalid channel identifier'')
      else ValidateChannels validChannel channels)"

definition claims_params_Validate :: "coins_ops \<Rightarrow> (string \<Rightarrow> bool) \<Rightarrow> claims_params \<Rightarrow> unit outcome" where
  "claims_params_Validate C validChannel p =
     (if DurationOfDecay p \<le> 0 then Err (ErrPlain ''duration of decay must be positive'') else
      if DurationUntilDecay p \<le> 0 then Err (ErrPlain ''duration until decay must be positive'') else
      if \<not> coins_ValidDenom C (ClaimsDenom p) then Err (ErrExt ''ValidateDenom'') else
      bindO (ValidateChannels validChannel (AuthorizedChannels p)) (\<lambda>_.
      ValidateChannels validChannel (EVMChannels p)))"

definition DecayStartTime :: "claims_params \<Rightarrow> time" where
  "DecayStartTime p = AirdropStartTime p + DurationUntilDecay p"

definition AirdropEndTime :: "claims_params \<Rightarrow> time" where
  "AirdropEndTime p = (AirdropStartTime p + DurationUntilDecay p) + DurationOfDecay p"

definition IsClaimsActive :: "claims_params \<Rightarrow> time \<Rightarrow> bool" where
  "IsClaimsActive p blockTime =
     (if \<not> EnableClaims p \<or> blockTime < AirdropStartTime p \<or> blockTime > AirdropEndTime p then False else True)"

fun has_channel :: "string \<Rightarrow> string list \<Rightarrow> bool" where
  "has_channel channel [] = False"
| "has_channel channel (c # cs) = (if channel = c then True else has_channel channel cs)"

definition IsAuthorizedChannel :: "claims_params \<Rightarrow> string \<Rightarrow> bool" where
  "IsAuthorizedChannel p channel = has_channel channel (AuthorizedChannels p)"

definition IsEVMChannel :: "claims_params \<Rightarrow> string \<Rightarrow> bool" where
  "IsEVMChannel p channel = has_channel channel (EVMChannels p)"

section \<open>State\<close>

record 'x claims_state =
  cl_params :: claims_params
  cl_records :: "claims_record kv"
  cl_ext :: 'x

record 'x claims_keepers =
  clk_C :: coins_ops
  clk_F :: dec_ops
  clk_H :: bech32_ops
  clk_I :: ibc_ops
  clk_A :: "'x account_ops"
  clk_B :: "'x bank_ops"
  clk_D :: "'x distr_ops"
  clk_GetSequence :: "'x \<Rightarrow> addr \<Rightarrow> int option"
  clk_RemoveAccount :: "account \<Rightarrow> 'x \<Rightarrow> 'x"
  clk_IsVesting :: "account \<Rightarrow> bool"
  clk_ModuleAccount :: "'x \<Rightarrow> string \<Rightarrow> bool"

definition cl_call :: "('x, 'a) cmd \<Rightarrow> ('x claims_state, 'a) cmd" where
  "cl_call m s = (case m (cl_ext s) of (r, x) \<Rightarrow> (r, s\<lparr>cl_ext := x\<rparr>))"

definition cl_SetParams :: "claims_params \<Rightarrow> 'x claims_state \<Rightarrow> 'x claims_state" where
  "cl_SetParams params s = s\<lparr>cl_params := params\<rparr>"

definition GetClaimsRecord :: "'x claims_state \<Rightarrow> addr \<Rightarrow> claims_record option" where
  "GetClaimsRecord s a = kv_get (cl_records s) a"

definition HasClaimsRecord :: "'x claims_state \<Rightarrow> addr \<Rightarrow> bool" where
  "HasClaimsRecord s a = kv_has (cl_records s) a"

definition SetClaimsRecord :: "addr \<Rightarrow> claims_record \<Rightarrow> 'x claims_state \<Rightarrow> 'x claims_state" where
  "SetClaimsRecord a claimsRecord s = s\<lparr>cl_records := kv_set (cl_records s) a claimsRecord\<rparr>"

definition DeleteClaimsRecord :: "addr \<Rightarrow> 'x claims_state \<Rightarrow> 'x claims_state" where
  "DeleteClaimsRecord a s = s\<lparr>cl_records := kv_del (cl_records s) a\<rparr>"

text \<open>The iterator visits the records that were there when it was opened; the callback gives back the
  state and whether to stop.\<close>

fun iterate_claims :: "(addr \<Rightarrow> claims_record \<Rightarrow> ('s, bool) cmd) \<Rightarrow> claims_record kv \<Rightarrow> ('s, unit) cmd" where
  "iterate_claims handlerFn [] s = (Ok (), s)"
| "iterate_claims handlerFn ((a, cr) # rest) s =
     bindS (handlerFn a cr) (\<lambda>stop t. if stop then (Ok (), t) else iterate_claims handlerFn rest t) s"

definition GetClaimsRecords :: "bech32_ops \<Rightarrow> 'x claims_state \<Rightarrow> claims_record_address list" where
  "GetClaimsRecords H s =
     map (\<lambda>(a, cr). \<lparr>cra_Address = acc_String H a, cra_InitialClaimableAmount = InitialClaimableAmount cr,
                       cra_ActionsCompleted = ActionsCompleted cr\<rparr>) (cl_records s)"

definition GetModuleAccountAddress :: "'x claims_keepers \<Rightarrow> addr" where
  "GetModuleAccountAddress K = GetModuleAddress (clk_A K) ''claims''"

definition GetModuleAccountBalances :: "'x claims_keepers \<Rightarrow> 'x \<Rightarrow> coins" where
  "GetModuleAccountBalances K x = GetAllBalances (clk_B K) x (GetModuleAccountAddress K)"

section \<open>Claiming\<close>

text \<open>\<open>sdk.Int.Quo\<close> truncates towards zero.\<close>

definition Int_Quo :: "int \<Rightarrow> int \<Rightarrow> int" where
  "Int_Quo a b = sgn a * sgn b * (\<bar>a\<bar> div \<bar>b\<bar>)"

lemma Int_Quo_nonneg [simp]: "0 \<le> a \<Longrightarrow> 0 < b \<Longrightarrow> Int_Quo a b = a div b"
  by (auto simp: Int_Quo_def sgn_if)

definition ClaimableAmountForAction ::
  "dec_ops \<Rightarrow> time \<Rightarrow> claims_record \<Rightarrow> action \<Rightarrow> claims_params \<Rightarrow> (int \<times> int) option" where
  "ClaimableAmountForAction F blockTime claimsRecord action params =
     (case InitialClaimableAmount claimsRecord of
        None \<Rightarrow> Some (0, 0)
      | Some initial \<Rightarrow>
          if initial = 0 then Some (0, 0) else
          if HasClaimedAction claimsRecord action then Some (0, 0) else
          let initialClaimablePerAction = Int_Quo initial (int numActions);
              decayStartTime = DecayStartTime params in
          if \<not> blockTime > decayStartTime then Some (initialClaimablePerAction, 0) else
          let elapsedDecay = time_Sub blockTime decayStartTime in
          Option.bind (dec_QuoInt F (NewDec elapsedDecay) (DurationOfDecay params)) (\<lambda>elapsedDecayRatio.
          let claimableRatio = dec_one - elapsedDecayRatio;
              claimableCoins = dec_RoundInt F (dec_Mul F (NewDec initialClaimablePerAction) claimableRatio);
              remainder = initialClaimablePerAction - claimableCoins in
          Some (claimableCoins, remainder)))"

definition GetClaimableAmountForAction ::
  "dec_ops \<Rightarrow> time \<Rightarrow> claims_record \<Rightarrow> action \<Rightarrow> claims_params \<Rightarrow> (int \<times> int) option" where
  "GetClaimableAmountForAction F blockTime claimsRecord action params =
     (if \<not> IsClaimsActive params blockTime then Some (0, 0)
      else ClaimableAmountForAction F blockTime claimsRecord action params)"

definition ClaimCoinsForAction ::
  "'x claims_keepers \<Rightarrow> time \<Rightarrow> addr \<Rightarrow> claims_record \<Rightarrow> action \<Rightarrow> claims_params \<Rightarrow> ('x claims_state, int) cmd" where
  "ClaimCoinsForAction K blockTime a claimsRecord action params s =
     (if action = ActionUnspecified \<or> action > ActionIBCTransfer then (Err ErrInvalidAction, s) else
      if \<not> IsClaimsActive params blockTime then (Ok 0, s) else
      if HasClaimedAction claimsRecord action then (Ok 0, s) else
      case GetClaimableAmountForAction (clk_F K) blockTime claimsRecord action params of
        None \<Rightarrow> (Panic, s)
      | Some (claimableAmount, remainderAmount) \<Rightarrow>
          if claimableAmount = 0 then (Ok 0, s) else
          let claimedCoins = [\<lparr>Denom = ClaimsDenom params, Amt = claimableAmount\<rparr>];
              remainderCoins = [\<lparr>Denom = ClaimsDenom params, Amt = remainderAmount\<rparr>] in
          bindS (cl_call (SendCoinsFromModuleToAccount (clk_B K) ''claims'' a claimedCoins)) (\<lambda>_.
          bindS (if remainderAmount \<noteq> 0
                 then cl_call (FundCommunityPool (clk_D K) remainderCoins (GetModuleAccountAddress K))
                 else (\<lambda>t. (Ok (), t))) (\<lambda>_ t.
          (Ok claimableAmount, SetClaimsRecord a (MarkClaimed action claimsRecord) t))) s)"

text \<open>The loop of \<open>MergeClaimsRecords\<close> over the actions, with what is claimed and left over so far.\<close>

fun merge_actions ::
  "dec_ops \<Rightarrow> time \<Rightarrow> claims_record \<Rightarrow> claims_record \<Rightarrow> claims_params \<Rightarrow> action list \<Rightarrow>
   int \<Rightarrow> int \<Rightarrow> claims_record \<Rightarrow> (int \<times> int \<times> claims_record) outcome" where
  "merge_actions F blockTime sender recipient params [] claimedAmt remainderAmt mergedRecord =
     Ok (claimedAmt, remainderAmt, mergedRecord)"
| "merge_actions F blockTime sender recipient params (action # actions) claimedAmt remainderAmt mergedRecord =
     (if HasClaimedAction sender action then Err ErrNotSupported else
      let recipientCompleted = HasClaimedAction recipient action in
      if recipientCompleted then
        bindO (orPanic (GetClaimableAmountForAction F blockTime sender action params)) (\<lambda>(amt, remainder).
        merge_actions F blockTime sender recipient params actions
          (claimedAmt + amt) (remainderAmt + remainder) (MarkClaimed action mergedRecord))
      else if action \<noteq> ActionIBCTransfer then
        merge_actions F blockTime sender recipient params actions claimedAmt remainderAmt mergedRecord
      else
        bindO (orPanic (GetClaimableAmountForAction F blockTime recipient action params)) (\<lambda>(amtIBCRecipient, remainderRecipient).
        bindO (orPanic (GetClaimableAmountForAction F blockTime sender action params)) (\<lambda>(amtIBCSender, remainderSender).
        merge_actions F blockTime sender recipient params actions
          (claimedAmt + amtIBCRecipient + amtIBCSender) (remainderAmt + remainderRecipient + remainderSender)
          (MarkClaimed action mergedRecord))))"

definition MergeClaimsRecords ::
  "'x claims_keepers \<Rightarrow> time \<Rightarrow> addr \<Rightarrow> claims_record \<Rightarrow> claims_record \<Rightarrow> claims_params \<Rightarrow> ('x claims_state, claims_record) cmd" where
  "MergeClaimsRecords K blockTime recipient senderClaimsRecord recipientClaimsRecord params s =
     (case (InitialClaimableAmount senderClaimsRecord, InitialClaimableAmount recipientClaimsRecord) of
        (Some n, Some m) \<Rightarrow>
          (case merge_actions (clk_F K) blockTime senderClaimsRecord recipientClaimsRecord params
                  [ActionVote, ActionDelegate, ActionEVM, ActionIBCTransfer] 0 0 (NewClaimsRecord (Some (n + m))) of
             Panic \<Rightarrow> (Panic, s)
           | Err e \<Rightarrow> (Err e, s)
           | Ok (claimedAmt, remainderAmt, mergedRecord) \<Rightarrow>
               if claimedAmt = 0 then (Ok mergedRecord, s) else
               bindS (cl_call (SendCoinsFromModuleToAccount (clk_B K) ''claims'' recipient
                        [\<lparr>Denom = ClaimsDenom params, Amt = claimedAmt\<rparr>])) (\<lambda>_ t.
               let remainderCoins = [\<lparr>Denom = ClaimsDenom params, Amt = remainderAmt\<rparr>] in
               if coins_IsZero (clk_C K) remainderCoins then (Ok mergedRecord, t) else
               bindS (cl_call (FundCommunityPool (clk_D K) remainderCoins (GetModuleAccountAddress K)))
                 (\<lambda>_ u. (Ok mergedRecord, u)) t) s)
      | _ \<Rightarrow> (Panic, s))"

section \<open>Hooks\<close>

text \<open>An error of the claim is logged and dropped; what was done before it stays done.\<close>

definition logged :: "('s, 'a) cmd \<Rightarrow> ('s, unit) cmd" where
  "logged m s = (case m s of (Panic, t) \<Rightarrow> (Panic, t) | (_, t) \<Rightarrow> (Ok (), t))"

definition AfterProposalVote :: "'x claims_keepers \<Rightarrow> time \<Rightarrow> int \<Rightarrow> addr \<Rightarrow> ('x claims_state, unit) cmd" where
  "AfterProposalVote K blockTime proposalID voterAddr s =
     (let params = cl_params s in
      case GetClaimsRecord s voterAddr of
        None \<Rightarrow> (Ok (), s)
      | Some claimsRecord \<Rightarrow> logged (ClaimCoinsForAction K blockTime voterAddr claimsRecord ActionVote params) s)"

definition AfterDelegationModified :: "'x claims_keepers \<Rightarrow> time \<Rightarrow> addr \<Rightarrow> addr \<Rightarrow> ('x claims_state, unit) cmd" where
  "AfterDelegationModified K blockTime delAddr valAddr s =
     (let params = cl_params s in
      case GetClaimsRecord s delAddr of
        None \<Rightarrow> (Ok (), s)
      | Some claimsRecord \<Rightarrow> logged (ClaimCoinsForAction K blockTime delAddr claimsRecord ActionDelegate params) s)"

definition claims_PostTxProcessing :: "'x claims_keepers \<Rightarrow> time \<Rightarrow> addr \<Rightarrow> ('x claims_state, unit) cmd" where
  "claims_PostTxProcessing K blockTime fromAddr s =
     (let params = cl_params s in
      case GetClaimsRecord s fromAddr of
        None \<Rightarrow> (Ok (), s)
      | Some claimsRecord \<Rightarrow> logged (ClaimCoinsForAction K blockTime fromAddr claimsRecord ActionEVM params) s)"

section \<open>IBC callbacks\<close>

datatype ack = ResultAck bytes | ErrorAck err

fun ack_Success :: "ack \<Rightarrow> bool" where
  "ack_Success (ResultAck _) = True"
| "ack_Success (ErrorAck _) = False"

text \<open>\<open>decoded\<close> is what the JSON codec makes of the acknowledgement's bytes.\<close>

definition claims_OnAcknowledgementPacket ::
  "'x claims_keepers \<Rightarrow> time \<Rightarrow> packet \<Rightarrow> ack option \<Rightarrow> ('x claims_state, unit) cmd" where
  "claims_OnAcknowledgementPacket K blockTime packet decoded s =
     (let params = cl_params s in
      if \<not> IsClaimsActive params blockTime then (Ok (), s) else
      case decoded of
        None \<Rightarrow> (Err ErrUnknownRequest, s)
      | Some ack \<Rightarrow>
          if \<not> ack_Success ack then (Ok (), s) else
          (case GetTransferSenderRecipient (clk_I K) packet of
             Err e \<Rightarrow> (Err e, s)
           | Panic \<Rightarrow> (Panic, s)
           | Ok (sender, _, _, _) \<Rightarrow>
               (case GetClaimsRecord s sender of
                  None \<Rightarrow> (Ok (), s)
                | Some claimsRecord \<Rightarrow>
                    bindS (ClaimCoinsForAction K blockTime sender claimsRecord ActionIBCTransfer params)
                      (\<lambda>_ t. (Ok (), t)) s)))"

text \<open>A command whose error becomes an error acknowledgement.\<close>

definition acked :: "ack \<Rightarrow> ('s, 'a) cmd \<Rightarrow> ('s, ack) cmd" where
  "acked ack m s = (case m s of (Ok _, t) \<Rightarrow> (Ok ack, t) | (Err e, t) \<Rightarrow> (Ok (ErrorAck e), t) | (Panic, t) \<Rightarrow> (Panic, t))"

text \<open>The switch of \<open>OnRecvPacket\<close>: the records of sender and recipient are merged or moved only when
  the transfer has the trigger amount.\<close>

definition recv_claims ::
  "'x claims_keepers \<Rightarrow> time \<Rightarrow> claims_params \<Rightarrow> ack \<Rightarrow> addr \<Rightarrow> addr \<Rightarrow> claims_record option \<Rightarrow>
   claims_record option \<Rightarrow> bool \<Rightarrow> bool \<Rightarrow> bool \<Rightarrow> ('x claims_state, ack) cmd" where
  "recv_claims K blockTime params ack sender recipient senderRecord recipientRecord sameAddress fromEVMChain isTriggerAmt s =
     (case (senderRecord, recipientRecord) of
        (Some senderClaimsRecord, Some recipientClaimsRecord) \<Rightarrow>
          if \<not> sameAddress \<and> isTriggerAmt then
            acked ack (bindS (MergeClaimsRecords K blockTime recipient senderClaimsRecord recipientClaimsRecord params)
              (\<lambda>merged t. (Ok (), DeleteClaimsRecord sender (SetClaimsRecord recipient merged t)))) s
          else if sameAddress \<and> fromEVMChain then
            acked ack (ClaimCoinsForAction K blockTime recipient recipientClaimsRecord ActionIBCTransfer params) s
          else (Ok ack, s)
      | (Some senderClaimsRecord, None) \<Rightarrow>
          if isTriggerAmt then
            acked ack (bindS (ClaimCoinsForAction K blockTime recipient senderClaimsRecord ActionIBCTransfer params)
              (\<lambda>claimedAmt t. (Ok (), if claimedAmt = 0 then t else DeleteClaimsRecord sender t))) s
          else (Ok ack, s)
      | (None, Some recipientClaimsRecord) \<Rightarrow>
          acked ack (ClaimCoinsForAction K blockTime recipient recipientClaimsRecord ActionIBCTransfer params) s
      | (None, None) \<Rightarrow> (Ok ack, s))"

definition claims_OnRecvPacket ::
  "'x claims_keepers \<Rightarrow> time \<Rightarrow> packet \<Rightarrow> ack \<Rightarrow> ('x claims_state, ack) cmd" where
  "claims_OnRecvPacket K blockTime packet ack s =
     (let params = cl_params s in
      if \<not> IsClaimsActive params blockTime then (Ok ack, s) else
      case GetTransferSenderRecipient (clk_I K) packet of
        Err e \<Rightarrow> (Ok (ErrorAck e), s)
      | Panic \<Rightarrow> (Panic, s)
      | Ok (sender, recipient, _, _) \<Rightarrow>
          if BlockedAddr (clk_B K) sender \<or> BlockedAddr (clk_B K) recipient then (Ok (ErrorAck ErrUnauthorized), s) else
          let senderRecord = GetClaimsRecord s sender in
          if (case senderRecord of None \<Rightarrow> False | Some cr \<Rightarrow> HasClaimedAction cr ActionIBCTransfer) then (Ok ack, s) else
          let sameAddress = (sender = recipient);
              fromEVMChain = IsEVMChannel params (p_DestChannel packet) in
          if sameAddress \<and> \<not> fromEVMChain then
            (if (case senderRecord of None \<Rightarrow> False | Some cr \<Rightarrow> \<not> HasClaimedAny cr)
             then (Ok (ErrorAck ErrKeyTypeNotSupported), s) else (Ok ack, s))
          else if \<not> IsAuthorizedChannel params (p_DestChannel packet) then (Ok ack, s) else
          let recipientRecord = GetClaimsRecord s recipient in
          (case GetTransferAmount (clk_I K) packet of
             Err e \<Rightarrow> (Ok (ErrorAck e), s)
           | Panic \<Rightarrow> (Panic, s)
           | Ok amt \<Rightarrow>
               recv_claims K blockTime params ack sender recipient senderRecord recipientRecord sameAddress fromEVMChain
                 (amt = IBCTriggerAmt) s))"

text \<open>The middleware calls the wrapped application first; \<open>app\<close> stands for its callbacks.\<close>

definition claims_mw_OnRecvPacket ::
  "'x claims_keepers \<Rightarrow> (packet \<Rightarrow> ('x claims_state, ack) cmd) \<Rightarrow> time \<Rightarrow> packet \<Rightarrow> ('x claims_state, ack) cmd" where
  "claims_mw_OnRecvPacket K app blockTime packet =
     bindS (app packet) (\<lambda>ack t. if \<not> ack_Success ack then (Ok ack, t) else claims_OnRecvPacket K blockTime packet ack t)"

definition claims_mw_OnAcknowledgementPacket ::
  "'x claims_keepers \<Rightarrow> (packet \<Rightarrow> ack option \<Rightarrow> ('x claims_state, unit) cmd) \<Rightarrow> time \<Rightarrow> packet \<Rightarrow> ack option \<Rightarrow> ('x claims_state, unit) cmd" where
  "claims_mw_OnAcknowledgementPacket K app blockTime packet decoded =
     bindS (app packet decoded) (\<lambda>_. claims_OnAcknowledgementPacket K blockTime packet decoded)"

section \<open>The end of the airdrop\<close>

definition ClawbackEscrowedTokens :: "'x claims_keepers \<Rightarrow> ('x claims_state, unit) cmd" where
  "ClawbackEscrowedTokens K s =
     (let moduleAccAddr = GetModuleAccountAddress K;
          balances = GetAllBalances (clk_B K) (cl_ext s) moduleAccAddr in
      if coins_IsZero (clk_C K) balances then (Ok (), s)
      else cl_call (FundCommunityPool (clk_D K) balances moduleAccAddr) s)"

definition clawback_empty :: "'x claims_keepers \<Rightarrow> denom \<Rightarrow> addr \<Rightarrow> ('x, unit) cmd" where
  "clawback_empty K claimsDenom a x =
     (case GetAccount (clk_A K) x a of
        None \<Rightarrow> (Ok (), x)
      | Some acc \<Rightarrow>
          if clk_IsVesting K acc then (Ok (), x) else
          (case clk_GetSequence K x a of
             None \<Rightarrow> (Ok (), x)
           | Some seq \<Rightarrow>
               if seq \<noteq> 0 then (Ok (), x) else
               let clawbackCoin = \<lparr>Denom = claimsDenom, Amt = GetBalance (clk_B K) x a claimsDenom\<rparr> in
               if Amt clawbackCoin = 0 then (Ok (), clk_RemoveAccount K acc x)
               else logged (FundCommunityPool (clk_D K) [clawbackCoin] a) x))"

definition ClawbackEmptyAccounts :: "'x claims_keepers \<Rightarrow> denom \<Rightarrow> ('x claims_state, unit) cmd" where
  "ClawbackEmptyAccounts K claimsDenom s =
     bindS (iterate_claims (\<lambda>a _. bindS (cl_call (clawback_empty K claimsDenom a)) (\<lambda>_ t. (Ok False, t))) (cl_records s))
       (\<lambda>_ t. (Ok (), foldl (\<lambda>u a. DeleteClaimsRecord a u) t (map fst (cl_records s)))) s"

definition EndAirdrop :: "'x claims_keepers \<Rightarrow> claims_params \<Rightarrow> ('x claims_state, unit) cmd" where
  "EndAirdrop K params =
     bindS (ClawbackEscrowedTokens K) (\<lambda>_.
     bindS (ClawbackEmptyAccounts K (ClaimsDenom params)) (\<lambda>_ s.
     (Ok (), cl_SetParams (params\<lparr>EnableClaims := False\<rparr>) s)))"

definition claims_EndBlocker :: "'x claims_keepers \<Rightarrow> time \<Rightarrow> ('x claims_state, unit) cmd" where
  "claims_EndBlocker K blockTime s =
     (let params = cl_params s in
      if \<not> EnableClaims params then (Ok (), s) else
      let elapsedAirdropTime = time_Sub blockTime (AirdropStartTime params) in
      if elapsedAirdropTime \<le> i64 (DurationUntilDecay params + DurationOfDecay params) then (Ok (), s) else
      (case EndAirdrop K params s of (Err _, t) \<Rightarrow> (Panic, t) | (r, t) \<Rightarrow> (r, t)))"

section \<open>Genesis and the invariant\<close>

record claims_genesis =
  cg_Params :: claims_params
  cg_ClaimsRecords :: "claims_record_address list"

definition claims_DefaultGenesis :: claims_genesis where
  "claims_DefaultGenesis = \<lparr>cg_Params = claims_DefaultParams, cg_ClaimsRecords = []\<rparr>"

fun claims_genesis_records_Validate :: "bech32_ops \<Rightarrow> string list \<Rightarrow> claims_record_address list \<Rightarrow> unit outcome" where
  "claims_genesis_records_Validate H seenClaims [] = Ok ()"
| "claims_genesis_records_Validate H seenClaims (claimsRecord # rest) =
     (if cra_Address claimsRecord \<in> set seenClaims then Err (ErrPlain ''duplicated claims record entry'') else
      bindO (cra_Validate H claimsRecord) (\<lambda>_.
      claims_genesis_records_Validate H (cra_Address claimsRecord # seenClaims) rest))"

definition claims_genesis_Validate :: "coins_ops \<Rightarrow> bech32_ops \<Rightarrow> (string \<Rightarrow> bool) \<Rightarrow> claims_genesis \<Rightarrow> unit outcome" where
  "claims_genesis_Validate C H validChannel gs =
     bindO (claims_genesis_records_Validate H [] (cg_ClaimsRecords gs)) (\<lambda>_.
     claims_params_Validate C validChannel (cg_Params gs))"

fun add_unclaimed :: "int \<Rightarrow> bool list \<Rightarrow> int \<Rightarrow> int" where
  "add_unclaimed perAction [] unclaimed = unclaimed"
| "add_unclaimed perAction (actionCompleted # rest) unclaimed =
     add_unclaimed perAction rest (if \<not> actionCompleted then unclaimed + perAction else unclaimed)"

fun init_records :: "'x claims_keepers \<Rightarrow> claims_record_address list \<Rightarrow> int \<Rightarrow> ('x claims_state, int) cmd" where
  "init_records K [] sumUnclaimed s = (Ok sumUnclaimed, s)"
| "init_records K (claimsRecord # rest) sumUnclaimed s =
     (case AccAddressFromBech32 (clk_H K) (cra_Address claimsRecord) of
        None \<Rightarrow> (Panic, s)
      | Some a \<Rightarrow>
          let cr = \<lparr>InitialClaimableAmount = cra_InitialClaimableAmount claimsRecord,
                    ActionsCompleted = cra_ActionsCompleted claimsRecord\<rparr> in
          if length (ActionsCompleted cr) \<noteq> numActions then (Panic, s) else
          (case cra_InitialClaimableAmount claimsRecord of
             None \<Rightarrow> (Panic, s)
           | Some n \<Rightarrow>
               init_records K rest (add_unclaimed (Int_Quo n 4) (ActionsCompleted cr) sumUnclaimed)
                 (SetClaimsRecord a cr s)))"

definition claims_InitGenesis :: "'x claims_keepers \<Rightarrow> time \<Rightarrow> claims_genesis \<Rightarrow> ('x claims_state, unit) cmd" where
  "claims_InitGenesis K blockTime data s =
     (if \<not> clk_ModuleAccount K (cl_ext s) ''claims'' then (Panic, s) else
      let params = (if AirdropStartTime (cg_Params data) = zero_time
                    then (cg_Params data)\<lparr>AirdropStartTime := blockTime\<rparr> else cg_Params data);
          s = cl_SetParams params s;
          totalEscrowed = coins_AmountOf (clk_C K) (GetModuleAccountBalances K (cl_ext s)) (ClaimsDenom params) in
      bindS (init_records K (cg_ClaimsRecords data) 0) (\<lambda>sumUnclaimed t.
        if sumUnclaimed \<noteq> totalEscrowed then (Panic, t) else (Ok (), t)) s)"

definition claims_ExportGenesis :: "'x claims_keepers \<Rightarrow> 'x claims_state \<Rightarrow> claims_genesis" where
  "claims_ExportGenesis K s = \<lparr>cg_Params = cl_params s, cg_ClaimsRecords = GetClaimsRecords (clk_H K) s\<rparr>"

fun expected_unclaimed :: "dec_ops \<Rightarrow> claims_record kv \<Rightarrow> dec \<Rightarrow> dec option" where
  "expected_unclaimed F [] expectedUnclaimed = Some expectedUnclaimed"
| "expected_unclaimed F ((_, cr) # rest) expectedUnclaimed =
     Option.bind (InitialClaimableAmount cr) (\<lambda>n.
     Option.bind (dec_Quo F (NewDec n) (NewDec 4)) (\<lambda>initialClaimablePerAction.
     expected_unclaimed F rest (add_unclaimed initialClaimablePerAction (ActionsCompleted cr) expectedUnclaimed)))"

definition ClaimsInvariant :: "'x claims_keepers \<Rightarrow> time \<Rightarrow> 'x claims_state \<Rightarrow> bool outcome" where
  "ClaimsInvariant K blockTime s =
     (let params = cl_params s in
      if \<not> IsClaimsActive params blockTime then Ok False else
      case expected_unclaimed (clk_F K) (cl_records s) 0 of
        None \<Rightarrow> Panic
      | Some expectedUnclaimed \<Rightarrow>
          let balance = GetBalance (clk_B K) (cl_ext s) (GetModuleAccountAddress K) (ClaimsDenom params) in
          Ok (expectedUnclaimed \<noteq> NewDec balance))"

section \<open>Queries\<close>

definition ClaimsRecord_query ::
  "'x claims_keepers \<Rightarrow> time \<Rightarrow> string option \<Rightarrow> 'x claims_state \<Rightarrow> (int option \<times> (action \<times> bool \<times> int) list) outcome" where
  "ClaimsRecord_query K blockTime req s =
     (case req of
        None \<Rightarrow> Err ErrInvalidArgument
      | Some address \<Rightarrow>
          (case AccAddressFromBech32 (clk_H K) address of
             None \<Rightarrow> Err ErrInvalidArgument
           | Some a \<Rightarrow>
               (case GetClaimsRecord s a of
                  None \<Rightarrow> Err ErrNotFound
                | Some cr \<Rightarrow>
                    let claims = map (\<lambda>action. (action, HasClaimedAction cr action,
                                   ClaimableAmountForAction (clk_F K) blockTime cr action (cl_params s)))
                                 [ActionVote, ActionDelegate, ActionEVM, ActionIBCTransfer] in
                    if \<exists>c \<in> set claims. snd (snd c) = None then Panic
                    else Ok (InitialClaimableAmount cr, map (\<lambda>(action, done, amt). (action, done, fst (the amt))) claims))))"

end
