(* ===== verification/Claims_Escrow.thy ===== *)
theory Claims_Escrow
  imports Claims
begin

text \<open>
  The airdrop's money: how a claimable amount decays, that what is claimed and what is left over
  always add up to the share of an action, and that the escrow account covers every amount the
  stored records can still claim, whatever sequence of hooks, packets and blocks the module sees.
\<close>

section \<open>The claimable amount\<close>

definition cr_amount :: "claims_record \<Rightarrow> int" where
  "cr_amount cr = (case InitialClaimableAmount cr of None \<Rightarrow> 0 | Some n \<Rightarrow> n)"

definition cr_ok :: "claims_record \<Rightarrow> bool" where
  "cr_ok cr \<longleftrightarrow> InitialClaimableAmount cr \<noteq> None \<and> 0 \<le> cr_amount cr \<and> length (ActionsCompleted cr) = numActions"

definition claims_params_ok :: "coins_ops \<Rightarrow> claims_params \<Rightarrow> bool" where
  "claims_params_ok C p \<longleftrightarrow> 0 < DurationUntilDecay p \<and> 0 < DurationOfDecay p \<and>
     DurationUntilDecay p + DurationOfDecay p < 2 ^ 63 \<and> coins_ValidDenom C (ClaimsDenom p)"

definition action_ok :: "action \<Rightarrow> bool" where
  "action_ok a \<longleftrightarrow> ActionVote \<le> a \<and> a \<le> ActionIBCTransfer"

lemma cr_okE:
  assumes "cr_ok cr"
  obtains n a b c d where "cr = \<lparr>InitialClaimableAmount = Some n, ActionsCompleted = [a, b, c, d]\<rparr>" "0 \<le> n"
proof -
  obtain as where cr: "cr = \<lparr>InitialClaimableAmount = Some (cr_amount cr), ActionsCompleted = as\<rparr>" "length as = 4"
    using assms by (cases cr) (auto simp: cr_ok_def cr_amount_def numActions_def)
  obtain a b c d where "as = [a, b, c, d]"
    using cr(2) by (auto simp: numeral_eq_Suc length_Suc_conv)
  with cr assms show thesis using that [of "cr_amount cr" a b c d] by (simp add: cr_ok_def)
qed

lemma cr_Validate_ok: "cr_Validate cr = Ok () \<Longrightarrow> cr_ok cr"
  by (auto simp: cr_Validate_def cr_ok_def cr_amount_def split: option.splits if_splits)

text \<open>The share of the airdrop that is left at a time: one until the decay starts, then decreasing linearly.\<close>

definition decay_ratio :: "claims_params \<Rightarrow> time \<Rightarrow> dec" where
  "decay_ratio p t = (if t \<le> DecayStartTime p then dec_one
     else dec_one - (t - DecayStartTime p) * dec_one div DurationOfDecay p)"

lemma decay_ratio_antimono:
  assumes "0 < DurationOfDecay p" and "t \<le> u"
  shows "decay_ratio p u \<le> decay_ratio p t"
proof -
  have "0 \<le> (u - DecayStartTime p) * dec_one div DurationOfDecay p" if "DecayStartTime p < u"
    using that assms by (simp add: pos_imp_zdiv_nonneg_iff)
  moreover have "(t - DecayStartTime p) * dec_one div DurationOfDecay p \<le> (u - DecayStartTime p) * dec_one div DurationOfDecay p"
    using assms by (intro zdiv_mono1 mult_right_mono) auto
  ultimately show ?thesis using assms(2) by (auto simp: decay_ratio_def)
qed

lemma decay_ratio_bounds:
  assumes "0 < DurationOfDecay p" and "t \<le> AirdropEndTime p"
  shows "0 \<le> decay_ratio p t" "decay_ratio p t \<le> dec_one"
proof -
  have end0: "decay_ratio p (AirdropEndTime p) = 0"
    using assms(1) by (simp add: decay_ratio_def AirdropEndTime_def DecayStartTime_def)
  then show "0 \<le> decay_ratio p t" using decay_ratio_antimono [OF assms] by simp
  have "decay_ratio p t \<le> decay_ratio p (min t (DecayStartTime p))"
    by (rule decay_ratio_antimono) (use assms in simp_all)
  then show "decay_ratio p t \<le> dec_one" by (simp add: decay_ratio_def)
qed

lemma abs_half: "2 * \<bar>x - a\<bar> \<le> (c :: int) \<Longrightarrow> 2 * x \<le> 2 * a + c \<and> 2 * a \<le> 2 * x + c"
  by arith

context dec_laws
begin

lemma Round_bounds: "2 * (dec_one * dec_RoundInt F a) \<le> 2 * a + dec_one" "2 * a \<le> 2 * (dec_one * dec_RoundInt F a) + dec_one"
  using abs_half [OF Round_near [of a]] by blast+

lemma Round_mono:
  assumes "a \<le> b" shows "dec_RoundInt F a \<le> dec_RoundInt F b"
proof (cases "a = b")
  case False
  with assms have "a < b" by simp
  with Round_bounds(1) [of a] Round_bounds(2) [of b]
  have "dec_one * dec_RoundInt F a < dec_one * (dec_RoundInt F b + 1)" by (simp add: distrib_left)
  then show ?thesis by simp
qed simp

lemma Round_NewDec: "dec_RoundInt F (NewDec n) = n"
proof (rule antisym)
  note near = Round_bounds [of "NewDec n", unfolded NewDec_def]
  have "dec_one * dec_RoundInt F (NewDec n) < dec_one * (n + 1)" "dec_one * n < dec_one * (dec_RoundInt F (NewDec n) + 1)"
    using near by (simp_all add: NewDec_def distrib_left mult.commute [of n]) (use dec_one_pos(1) in linarith)+
  then show "dec_RoundInt F (NewDec n) \<le> n" "n \<le> dec_RoundInt F (NewDec n)" by simp_all
qed

lemma ClaimableAmountForAction_eq:
  assumes "cr_ok cr" and "\<not> HasClaimedAction cr action" and "0 < DurationOfDecay p" "DurationOfDecay p < 2 ^ 63"
    and "blockTime \<le> AirdropEndTime p"
  shows "ClaimableAmountForAction F blockTime cr action p =
     Some (dec_RoundInt F (cr_amount cr div 4 * decay_ratio p blockTime),
           cr_amount cr div 4 - dec_RoundInt F (cr_amount cr div 4 * decay_ratio p blockTime))"
proof -
  obtain n where n: "InitialClaimableAmount cr = Some n" "cr_amount cr = n" "0 \<le> n"
    using assms(1) by (auto simp: cr_ok_def cr_amount_def)
  have round0: "dec_RoundInt F 0 = 0" using Round_NewDec [of 0] by (simp add: NewDec_def)
  show ?thesis
  proof (cases "blockTime \<le> DecayStartTime p")
    case True
    then show ?thesis using n assms(2) Round_NewDec [of "n div 4"] round0
      by (auto simp: ClaimableAmountForAction_def Let_def decay_ratio_def numActions_def NewDec_def)
  next
    case False
    have sub: "time_Sub blockTime (DecayStartTime p) = blockTime - DecayStartTime p"
      using False assms(4,5) by (simp add: time_Sub_def AirdropEndTime_def DecayStartTime_def)
    have "dec_QuoInt F (NewDec (blockTime - DecayStartTime p)) (DurationOfDecay p)
        = Some ((blockTime - DecayStartTime p) * dec_one div DurationOfDecay p)"
      using False assms(3) by (subst QuoInt_floor) (simp_all add: NewDec_def)
    then show ?thesis using n assms(2) False sub round0
      by (auto simp: ClaimableAmountForAction_def Let_def decay_ratio_def numActions_def Mul_NewDec)
  qed
qed

lemma claimable_bounds:
  assumes "0 \<le> n" and "0 < DurationOfDecay p" and "t \<le> AirdropEndTime p"
  shows "0 \<le> dec_RoundInt F (n * decay_ratio p t)" "dec_RoundInt F (n * decay_ratio p t) \<le> n"
proof -
  note b = decay_ratio_bounds [OF assms(2,3)]
  show "0 \<le> dec_RoundInt F (n * decay_ratio p t)"
    using Round_mono [of "NewDec 0" "n * decay_ratio p t"] b assms(1) by (simp add: NewDec_def Round_NewDec [of 0, unfolded NewDec_def, simplified])
  have "n * decay_ratio p t \<le> NewDec n" unfolding NewDec_def using b assms(1) by (intro mult_left_mono) auto
  then show "dec_RoundInt F (n * decay_ratio p t) \<le> n"
    using Round_mono [of "n * decay_ratio p t" "NewDec n"] by (simp add: Round_NewDec)
qed

end

section \<open>What a record can still claim\<close>

definition unclaimed :: "claims_record \<Rightarrow> int" where
  "unclaimed cr = cr_amount cr div 4 * int (length (filter Not (ActionsCompleted cr)))"

lemma unclaimed_nonneg: "cr_ok cr \<Longrightarrow> 0 \<le> unclaimed cr"
  by (auto simp: unclaimed_def cr_ok_def pos_imp_zdiv_nonneg_iff)

lemma action_cases:
  assumes "action_ok a"
  obtains "a = 1" | "a = 2" | "a = 3" | "a = 4"
  using assms by (auto simp: action_ok_def action_defs) linarith

lemma MarkClaimed_ok [simp]: "cr_ok cr \<Longrightarrow> cr_ok (MarkClaimed a cr)" "cr_amount (MarkClaimed a cr) = cr_amount cr"
  by (auto simp: MarkClaimed_def cr_ok_def cr_amount_def)

lemma MarkClaimed_unclaimed:
  assumes "cr_ok cr" and "action_ok a" and "\<not> HasClaimedAction cr a"
  shows "unclaimed (MarkClaimed a cr) = unclaimed cr - cr_amount cr div 4"
    and "cr_amount cr div 4 \<le> unclaimed cr" and "HasClaimedAction (MarkClaimed a cr) a"
proof -
  obtain n x y z w where cr: "cr = \<lparr>InitialClaimableAmount = Some n, ActionsCompleted = [x, y, z, w]\<rparr>" "0 \<le> n"
    using assms(1) by (rule cr_okE)
  have n: "0 \<le> n div 4" using cr(2) by simp
  from assms(2) show "unclaimed (MarkClaimed a cr) = unclaimed cr - cr_amount cr div 4"
    "cr_amount cr div 4 \<le> unclaimed cr" "HasClaimedAction (MarkClaimed a cr) a"
    using assms(3) n by (cases rule: action_cases;
        auto simp: cr(1) unclaimed_def MarkClaimed_def HasClaimedAction_def cr_amount_def action_defs algebra_simps)+
qed

text \<open>Merging a record of an address that has claimed nothing: what is paid out, what is left over and what
  the merged record can still claim add up to what the two records could claim, and to more than that
  when the remainders of the two divisions by the number of actions make up a whole coin.\<close>

definition merge_gain :: "claims_record \<Rightarrow> claims_record \<Rightarrow> claims_record \<Rightarrow> int" where
  "merge_gain snd_cr rcp_cr merged =
     (cr_amount snd_cr mod 4 + cr_amount rcp_cr mod 4) div 4 * int (length (filter Not (ActionsCompleted merged)))"

lemma merge_gain_dvd: "4 dvd cr_amount snd_cr \<or> 4 dvd cr_amount rcp_cr \<Longrightarrow> merge_gain snd_cr rcp_cr merged = 0"
  by (auto simp: merge_gain_def dvd_eq_mod_eq_0)

context dec_laws
begin

lemma GetClaimable_split:
  assumes "cr_ok cr" and "\<not> HasClaimedAction cr action" and "0 < DurationOfDecay p" "DurationOfDecay p < 2 ^ 63"
    and "IsClaimsActive p blockTime"
  shows "\<exists>c. GetClaimableAmountForAction F blockTime cr action p = Some (c, cr_amount cr div 4 - c) \<and>
     0 \<le> c \<and> c \<le> cr_amount cr div 4"
proof -
  have le: "blockTime \<le> AirdropEndTime p" using assms(5) by (simp add: IsClaimsActive_def split: if_splits)
  have n: "0 \<le> cr_amount cr div 4" using assms(1) by (auto simp: cr_ok_def pos_imp_zdiv_nonneg_iff)
  show ?thesis
    using ClaimableAmountForAction_eq [OF assms(1-4) le] claimable_bounds [OF n assms(3) le] assms(5)
    by (simp add: GetClaimableAmountForAction_def)
qed

lemma merge_actions_ok:
  assumes "cr_ok snd_cr" "cr_ok rcp_cr" "\<not> HasClaimedAny snd_cr"
    and p: "0 < DurationOfDecay p" "DurationOfDecay p < 2 ^ 63" "IsClaimsActive p blockTime"
  shows "\<exists>c r merged. merge_actions F blockTime snd_cr rcp_cr p [ActionVote, ActionDelegate, ActionEVM, ActionIBCTransfer] 0 0
           (NewClaimsRecord (Some (cr_amount snd_cr + cr_amount rcp_cr))) = Ok (c, r, merged) \<and>
     0 \<le> c \<and> 0 \<le> r \<and> cr_ok merged \<and> cr_amount merged = cr_amount snd_cr + cr_amount rcp_cr \<and>
     c + r + unclaimed merged = unclaimed snd_cr + unclaimed rcp_cr + merge_gain snd_cr rcp_cr merged \<and>
     (\<forall>a. action_ok a \<longrightarrow> HasClaimedAction merged a \<longleftrightarrow> HasClaimedAction rcp_cr a \<or> a = ActionIBCTransfer)"
proof -
  obtain n a1 a2 a3 a4 where s: "snd_cr = \<lparr>InitialClaimableAmount = Some n, ActionsCompleted = [a1, a2, a3, a4]\<rparr>" "0 \<le> n"
    using assms(1) by (rule cr_okE)
  obtain m x y z w where r: "rcp_cr = \<lparr>InitialClaimableAmount = Some m, ActionsCompleted = [x, y, z, w]\<rparr>" "0 \<le> m"
    using assms(2) by (rule cr_okE)
  have none: "a1 = False" "a2 = False" "a3 = False" "a4 = False"
    using assms(3) by (auto simp: s(1) HasClaimedAny_def split: if_splits)
  have amt: "cr_amount snd_cr = n" "cr_amount rcp_cr = m" by (simp_all add: s r cr_amount_def)
  have snd0: "\<not> HasClaimedAction snd_cr a" if "action_ok a" for a
    using that by (cases rule: action_cases) (simp_all add: s none HasClaimedAction_def)
  define f where "f a = fst (the (GetClaimableAmountForAction F blockTime snd_cr a p))" for a
  define g where "g = fst (the (GetClaimableAmountForAction F blockTime rcp_cr 4 p))"
  have f: "GetClaimableAmountForAction F blockTime snd_cr a p = Some (f a, n div 4 - f a)" "0 \<le> f a" "f a \<le> n div 4"
    if "action_ok a" for a
    using GetClaimable_split [OF assms(1) snd0 [OF that] p] by (auto simp: f_def amt)
  have claimed: "HasClaimedAction rcp_cr (Suc 0) = x" "HasClaimedAction rcp_cr 2 = y" "HasClaimedAction rcp_cr 3 = z"
    "HasClaimedAction rcp_cr 4 = w" by (simp_all add: r HasClaimedAction_def action_defs)
  have g: "GetClaimableAmountForAction F blockTime rcp_cr 4 p = Some (g, m div 4 - g)" "0 \<le> g" "g \<le> m div 4" if "\<not> w"
    using GetClaimable_split [OF assms(2) _ p, of 4] that claimed(4) by (auto simp: g_def amt)
  have acts: "action_ok 1" "action_ok (Suc 0)" "action_ok 2" "action_ok 3" "action_ok 4" by (simp_all add: action_ok_def action_defs)
  note F = f [OF acts(1)] f [OF acts(2)] f [OF acts(3)] f [OF acts(4)] f [OF acts(5)]
  have dv: "(n + m) div 4 = n div 4 + m div 4 + (n mod 4 + m mod 4) div 4" by (rule div_add1_eq)
  let ?merged = "\<lparr>InitialClaimableAmount = Some (n + m), ActionsCompleted = [x, y, z, True]\<rparr>"
  define k where "k = (if x then f 1 else 0) + (if y then f 2 else 0) + (if z then f 3 else 0) + f 4 + (if w then 0 else g)"
  define c where "c = (if x then n div 4 - f 1 else 0) + (if y then n div 4 - f 2 else 0) + (if z then n div 4 - f 3 else 0)
      + (n div 4 - f 4) + (if w then 0 else m div 4 - g)"
  have "merge_actions F blockTime snd_cr rcp_cr p [ActionVote, ActionDelegate, ActionEVM, ActionIBCTransfer] 0 0
      (NewClaimsRecord (Some (n + m))) = Ok (k, c, ?merged)"
    using F g by (auto simp: action_defs snd0 acts claimed orPanic_def NewClaimsRecord_def MarkClaimed_def k_def c_def)
  moreover have "0 \<le> k" "0 \<le> c" using F g by (auto simp: k_def c_def)
  moreover have "k + c + unclaimed ?merged = unclaimed snd_cr + unclaimed rcp_cr + merge_gain snd_cr rcp_cr ?merged"
    using dv by (auto simp: k_def c_def unclaimed_def merge_gain_def s r none cr_amount_def algebra_simps)
  moreover have "\<forall>a. action_ok a \<longrightarrow> HasClaimedAction ?merged a \<longleftrightarrow> HasClaimedAction rcp_cr a \<or> a = ActionIBCTransfer"
    by (auto elim!: action_cases simp: r(1) HasClaimedAction_def action_defs)
  ultimately show ?thesis
    using s r by (intro exI [of _ k] exI [of _ c] exI [of _ ?merged]) (auto simp: amt cr_ok_def cr_amount_def numActions_def)
qed

end

section \<open>Claiming, in the keepers' state\<close>

locale claims_laws =
  fixes K :: "'x claims_keepers" and reg :: "string set"
  assumes keepers: "keeper_laws (clk_C K) (clk_A K) (clk_B K) (clk_D K) reg"
    and decs: "dec_laws (clk_F K)"
    and escrow_registered: "''claims'' \<in> reg"
    and escrow_blocked: "BlockedAddr (clk_B K) (GetModuleAddress (clk_A K) ''claims'')"
    and RemoveAccount_balance: "GetBalance (clk_B K) (clk_RemoveAccount K acc x) = GetBalance (clk_B K) x"
    and RemoveAccount_other: "b \<noteq> account_address acc \<Longrightarrow>
      GetAccount (clk_A K) (clk_RemoveAccount K acc x) b = GetAccount (clk_A K) x b \<and>
      clk_GetSequence K (clk_RemoveAccount K acc x) b = clk_GetSequence K x b"
    and GetAccount_address: "GetAccount (clk_A K) x b = Some acc \<Longrightarrow> account_address acc = b"
    and Fund_accounts: "FundCommunityPool (clk_D K) c b x = (Ok u, x') \<Longrightarrow> a \<noteq> GetModuleAddress (clk_A K) ''distribution'' \<Longrightarrow>
      GetAccount (clk_A K) x' a = GetAccount (clk_A K) x a \<and> clk_GetSequence K x' a = clk_GetSequence K x a"
    and Fund_account_ok: "GetAccount (clk_A K) x b = Some acc \<Longrightarrow> \<not> clk_IsVesting K acc \<Longrightarrow> coins_IsValid (clk_C K) c \<Longrightarrow>
      (\<And>d. coins_AmountOf (clk_C K) c d \<le> GetBalance (clk_B K) x b d) \<Longrightarrow>
      \<exists>x'. FundCommunityPool (clk_D K) c b x = (Ok (), x')"

sublocale claims_laws \<subseteq> kl: keeper_laws "clk_C K" "clk_A K" "clk_B K" "clk_D K" reg
  by (rule keepers)

sublocale claims_laws \<subseteq> dl: dec_laws "clk_F K"
  by (rule decs)

abbreviation escrow :: "'x claims_keepers \<Rightarrow> 'x claims_state \<Rightarrow> denom \<Rightarrow> int" where
  "escrow K s d \<equiv> GetBalance (clk_B K) (cl_ext s) (GetModuleAccountAddress K) d"

text \<open>The change of the balances when \<open>c\<close> coins are claimed by \<open>a\<close> and \<open>r\<close> are left over.\<close>

definition paid_out :: "'x claims_keepers \<Rightarrow> denom \<Rightarrow> addr \<Rightarrow> int \<Rightarrow> int \<Rightarrow> 'x \<Rightarrow> 'x \<Rightarrow> bool" where
  "paid_out K d a c r x x' \<longleftrightarrow>
     (\<forall>b d'. GetBalance (clk_B K) x' b d' = GetBalance (clk_B K) x b d' +
        (if d' = d then (if b = a then c else 0) + (if b = GetModuleAddress (clk_A K) ''distribution'' then r else 0)
                        - (if b = GetModuleAccountAddress K then c + r else 0) else 0)) \<and>
     (\<forall>d'. GetSupply (clk_B K) x' d' = GetSupply (clk_B K) x d')"

context claims_laws
begin

lemma escrow_not_pool [simp]: "GetModuleAccountAddress K \<noteq> GetModuleAddress (clk_A K) ''distribution''"
  using kl.module_inj by (force simp: GetModuleAccountAddress_def)

lemma not_escrow: "\<not> BlockedAddr (clk_B K) a \<Longrightarrow> a \<noteq> GetModuleAccountAddress K"
  using escrow_blocked by (auto simp: GetModuleAccountAddress_def)

lemma pay:
  assumes "coins_ValidDenom (clk_C K) d" "\<not> BlockedAddr (clk_B K) a" "0 < c" "0 \<le> r"
    and "\<And>d'. 0 \<le> GetBalance (clk_B K) x (GetModuleAccountAddress K) d'"
    and "c + r \<le> GetBalance (clk_B K) x (GetModuleAccountAddress K) d"
  shows "\<exists>y x'. SendCoinsFromModuleToAccount (clk_B K) ''claims'' a [\<lparr>Denom = d, Amt = c\<rparr>] x = (Ok (), y) \<and>
     (if r = 0 then x' = y else FundCommunityPool (clk_D K) [\<lparr>Denom = d, Amt = r\<rparr>] (GetModuleAccountAddress K) y = (Ok (), x')) \<and>
     paid_out K d a c r x x'"
proof -
  have v: "coins_IsValid (clk_C K) [\<lparr>Denom = d, Amt = c\<rparr>]" using assms(1,3) by (rule kl.valid_one)
  have "coins_AmountOf (clk_C K) [\<lparr>Denom = d, Amt = c\<rparr>] d' \<le> GetBalance (clk_B K) x (GetModuleAddress (clk_A K) ''claims'') d'" for d'
    using assms(3-6) by (auto simp: kl.amount_one GetModuleAccountAddress_def)
  then obtain y where y: "SendCoinsFromModuleToAccount (clk_B K) ''claims'' a [\<lparr>Denom = d, Amt = c\<rparr>] x = (Ok (), y)"
    using kl.ModuleToAccount_ok [OF escrow_registered v assms(2)] by blast
  note my = kl.ModuleToAccount_moved [OF v y, unfolded moved_def]
  show ?thesis
  proof (cases "r = 0")
    case True
    then show ?thesis
      using y my not_escrow [OF assms(2)] by (intro exI [of _ y]) (auto simp: paid_out_def kl.amount_one GetModuleAccountAddress_def)
  next
    case False
    then have r: "0 < r" using assms(4) by simp
    have w: "coins_IsValid (clk_C K) [\<lparr>Denom = d, Amt = r\<rparr>]" using assms(1) r by (rule kl.valid_one)
    have "coins_AmountOf (clk_C K) [\<lparr>Denom = d, Amt = r\<rparr>] d' \<le> GetBalance (clk_B K) y (GetModuleAccountAddress K) d'" for d'
      using assms(3-6) my not_escrow [OF assms(2)] by (auto simp: kl.amount_one GetModuleAccountAddress_def)
    then obtain x' where x': "FundCommunityPool (clk_D K) [\<lparr>Denom = d, Amt = r\<rparr>] (GetModuleAccountAddress K) y = (Ok (), x')"
      using kl.Fund_ok [OF escrow_registered _ w] by (fastforce simp: GetModuleAccountAddress_def)
    note mx = kl.Fund_moved [OF w x', unfolded moved_def]
    show ?thesis
      using y x' mx my False not_escrow [OF assms(2)] by (intro exI [of _ y] exI [of _ x'])
        (auto simp: paid_out_def kl.amount_one GetModuleAccountAddress_def)
  qed
qed

lemma claim_cases:
  assumes p: "claims_params_ok (clk_C K) p" and cr: "cr_ok cr" and a: "action_ok action"
    and nonneg: "\<And>d'. 0 \<le> escrow K s d'"
    and funds: "\<not> HasClaimedAction cr action \<Longrightarrow> cr_amount cr div 4 \<le> escrow K s (ClaimsDenom p)"
  obtains
    (nothing) "ClaimCoinsForAction K t b cr action p s = (Ok 0, s)"
  | (blocked) "ClaimCoinsForAction K t b cr action p s = (Err ErrUnauthorized, s)" "BlockedAddr (clk_B K) b"
  | (paid) c x' where "ClaimCoinsForAction K t b cr action p s =
        (Ok c, SetClaimsRecord b (MarkClaimed action cr) (s\<lparr>cl_ext := x'\<rparr>))"
      "0 < c" "c \<le> cr_amount cr div 4" "\<not> HasClaimedAction cr action" "\<not> BlockedAddr (clk_B K) b" "IsClaimsActive p t"
      "paid_out K (ClaimsDenom p) b c (cr_amount cr div 4 - c) (cl_ext s) x'"
proof (cases "IsClaimsActive p t \<and> \<not> HasClaimedAction cr action")
  case False
  then have "ClaimCoinsForAction K t b cr action p s = (Ok 0, s)"
    using a by (auto simp: ClaimCoinsForAction_def action_ok_def action_defs)
  then show ?thesis by (rule nothing)
next
  case True
  then have act: "IsClaimsActive p t" "\<not> HasClaimedAction cr action" by auto
  obtain c where c: "GetClaimableAmountForAction (clk_F K) t cr action p = Some (c, cr_amount cr div 4 - c)"
    "0 \<le> c" "c \<le> cr_amount cr div 4"
    using dl.GetClaimable_split [OF cr act(2) _ _ act(1)] p by (auto simp: claims_params_ok_def)
  show ?thesis
  proof (cases "c = 0")
    case True
    then have "ClaimCoinsForAction K t b cr action p s = (Ok 0, s)"
      using a act c by (auto simp: ClaimCoinsForAction_def action_ok_def action_defs)
    then show ?thesis by (rule nothing)
  next
    case nz: False
    show ?thesis
    proof (cases "BlockedAddr (clk_B K) b")
      case True
      then have "ClaimCoinsForAction K t b cr action p s = (Err ErrUnauthorized, s)"
        using a act c nz
        by (auto simp: ClaimCoinsForAction_def action_ok_def action_defs bindS_def cl_call_def kl.ModuleToAccount_blocked)
      then show ?thesis using True by (rule blocked)
    next
      case False
      have d: "coins_ValidDenom (clk_C K) (ClaimsDenom p)" using p by (simp add: claims_params_ok_def)
      have pos: "0 < c" "0 \<le> cr_amount cr div 4 - c" using c nz by simp_all
      have le: "c + (cr_amount cr div 4 - c) \<le> escrow K s (ClaimsDenom p)" using funds [OF act(2)] by simp
      obtain y x' where y: "SendCoinsFromModuleToAccount (clk_B K) ''claims'' b [\<lparr>Denom = ClaimsDenom p, Amt = c\<rparr>] (cl_ext s) = (Ok (), y)"
        and x': "if cr_amount cr div 4 - c = 0 then x' = y else
          FundCommunityPool (clk_D K) [\<lparr>Denom = ClaimsDenom p, Amt = cr_amount cr div 4 - c\<rparr>] (GetModuleAccountAddress K) y = (Ok (), x')"
        and po: "paid_out K (ClaimsDenom p) b c (cr_amount cr div 4 - c) (cl_ext s) x'"
        using pay [OF d False pos nonneg le] by blast
      have "ClaimCoinsForAction K t b cr action p s = (Ok c, SetClaimsRecord b (MarkClaimed action cr) (s\<lparr>cl_ext := x'\<rparr>))"
        using a act nz y x' c(1)
        by (cases "cr_amount cr div 4 = c") (simp_all add: ClaimCoinsForAction_def action_ok_def action_defs bindS_def cl_call_def)
      then show ?thesis by (rule paid [OF _ _ c(3) act(2) False act(1) po]) (use c nz in simp)
    qed
  qed
qed

end

section \<open>Solvency\<close>

text \<open>The records are well formed, each can be split evenly between the actions, and the escrow covers them.\<close>

definition solvent :: "'x claims_keepers \<Rightarrow> 'x claims_state \<Rightarrow> bool" where
  "solvent K s \<longleftrightarrow>
     kv_ok (cl_records s) \<and> (\<forall>a cr. kv_get (cl_records s) a = Some cr \<longrightarrow> cr_ok cr \<and> 4 dvd cr_amount cr) \<and>
     claims_params_ok (clk_C K) (cl_params s) \<and> (\<forall>d. 0 \<le> escrow K s d) \<and>
     kv_sum unclaimed (cl_records s) \<le> escrow K s (ClaimsDenom (cl_params s))"

definition allocated :: "'x claims_state \<Rightarrow> int" where
  "allocated s = kv_sum cr_amount (cl_records s)"

lemma solventD:
  assumes "solvent K s"
  shows "kv_ok (cl_records s)" "claims_params_ok (clk_C K) (cl_params s)" "0 \<le> escrow K s d"
    "kv_sum unclaimed (cl_records s) \<le> escrow K s (ClaimsDenom (cl_params s))"
    "kv_get (cl_records s) a = Some cr \<Longrightarrow> cr_ok cr" "kv_get (cl_records s) a = Some cr \<Longrightarrow> 4 dvd cr_amount cr"
  using assms by (auto simp: solvent_def)

lemma unclaimed_le:
  assumes "solvent K s" "kv_get (cl_records s) a = Some cr"
  shows "unclaimed cr \<le> escrow K s (ClaimsDenom (cl_params s))"
proof -
  have "0 \<le> unclaimed v" if "(k, v) \<in> set (cl_records s)" for k v
    using that solventD(5) [OF assms(1), of k v] kv_get_mem [OF solventD(1) [OF assms(1)], of k v] unclaimed_nonneg
    by simp
  then have "unclaimed cr \<le> kv_sum unclaimed (cl_records s)"
    by (rule kv_sum_ge [OF assms(2)])
  then show ?thesis using solventD(4) [OF assms(1)] by simp
qed

context claims_laws
begin

lemma paid_escrow:
  assumes "paid_out K d a c r x x'" "\<not> BlockedAddr (clk_B K) a"
  shows "GetBalance (clk_B K) x' (GetModuleAccountAddress K) d' =
    GetBalance (clk_B K) x (GetModuleAccountAddress K) d' - (if d' = d then c + r else 0)"
  using assms not_escrow [OF assms(2)] by (auto simp: paid_out_def)

lemma claim_own:
  assumes s: "solvent K s" and cr: "kv_get (cl_records s) a = Some cr" and act: "action_ok action"
    and run: "ClaimCoinsForAction K t a cr action (cl_params s) s = (r, s')"
  shows "solvent K s' \<and> cl_params s' = cl_params s \<and> allocated s' = allocated s \<and> r \<noteq> Panic \<and>
    (\<forall>e. r = Err e \<longrightarrow> e = ErrUnauthorized \<and> BlockedAddr (clk_B K) a \<and> s' = s)"
proof -
  note D = solventD [OF s]
  have ok: "cr_ok cr" using D(5) cr by blast
  have funds: "\<not> HasClaimedAction cr action \<Longrightarrow> cr_amount cr div 4 \<le> escrow K s (ClaimsDenom (cl_params s))"
    using unclaimed_le [OF s cr] MarkClaimed_unclaimed(2) [OF ok act] by simp
  show ?thesis
  proof (rule claim_cases [OF D(2) ok act D(3) funds, of t a])
    assume "ClaimCoinsForAction K t a cr action (cl_params s) s = (Ok 0, s)"
    then show ?thesis using run s by simp
  next
    assume "ClaimCoinsForAction K t a cr action (cl_params s) s = (Err ErrUnauthorized, s)" "BlockedAddr (clk_B K) a"
    then show ?thesis using run s by simp
  next
    fix c x'
    assume h: "ClaimCoinsForAction K t a cr action (cl_params s) s =
        (Ok c, SetClaimsRecord a (MarkClaimed action cr) (s\<lparr>cl_ext := x'\<rparr>))"
      "0 < c" "c \<le> cr_amount cr div 4" "\<not> HasClaimedAction cr action" "\<not> BlockedAddr (clk_B K) a"
      "IsClaimsActive (cl_params s) t"
      "paid_out K (ClaimsDenom (cl_params s)) a c (cr_amount cr div 4 - c) (cl_ext s) x'"
    have s': "r = Ok c" "s' = SetClaimsRecord a (MarkClaimed action cr) (s\<lparr>cl_ext := x'\<rparr>)" using run h(1) by auto
    note e = paid_escrow [OF h(7,5)]
    note M = MarkClaimed_unclaimed [OF ok act h(4)]
    have recs: "cl_records s' = kv_set (cl_records s) a (MarkClaimed action cr)" "cl_params s' = cl_params s"
      "\<And>d. escrow K s' d = escrow K s d - (if d = ClaimsDenom (cl_params s) then cr_amount cr div 4 else 0)"
      by (simp_all add: s' SetClaimsRecord_def e)
    have "kv_get (cl_records s') b = Some cr' \<Longrightarrow> cr_ok cr' \<and> 4 dvd cr_amount cr'" for b cr'
      using D(5,6) ok cr by (auto simp: recs kv_get_set split: if_splits)
    moreover have "kv_sum unclaimed (cl_records s') \<le> escrow K s' (ClaimsDenom (cl_params s))"
      using D(4) M(1) cr by (simp add: recs kv_sum_set D(1))
    moreover have "0 \<le> escrow K s' d" for d using D(3) funds [OF h(4)] by (simp add: recs)
    moreover have "kv_ok (cl_records s')" using D(1) by (simp add: recs kv_ok_set)
    moreover have "allocated s' = allocated s" using cr by (simp add: allocated_def recs kv_sum_set D(1))
    ultimately show ?thesis using s'(1) D(2) by (auto simp: solvent_def recs(2))
  qed
qed

end

end
