(* ===== verification/Claims_Solvency.thy ===== *)
theory Claims_Solvency
  imports Claims_Escrow
begin

text \<open>
  Runs of the claims module: every hook, packet callback and block keeps the escrow sufficient for
  what the stored records can still claim and keeps the total amount allocated to the records, until
  the end of the airdrop empties the escrow into the community pool.
\<close>

section \<open>Moving and merging records\<close>

lemma merge_actions_sender:
  "merge_actions F t cr cr' p actions c r m = Ok v \<Longrightarrow> a \<in> set actions \<Longrightarrow> \<not> HasClaimedAction cr a"
proof (induction actions arbitrary: c r m)
  case (Cons b actions)
  then have "\<not> HasClaimedAction cr b" "\<exists>c r m. merge_actions F t cr cr' p actions c r m = Ok v"
    by (auto simp: Let_def bindO_Ok_iff split: if_splits)
  then show ?case using Cons by auto
qed simp

lemma HasClaimedAny_iff:
  "cr_ok cr \<Longrightarrow> HasClaimedAny cr \<longleftrightarrow> (\<exists>a \<in> set [ActionVote, ActionDelegate, ActionEVM, ActionIBCTransfer]. HasClaimedAction cr a)"
  by (erule cr_okE) (simp add: HasClaimedAny_def HasClaimedAction_def action_defs)

context claims_laws
begin

text \<open>Moving a record: the claim is paid to an address without a record, which takes the record over.\<close>

lemma claim_moved:
  assumes s: "solvent K s" and cr: "kv_get (cl_records s) a = Some cr" and none: "kv_get (cl_records s) b = None"
    and act: "action_ok action"
    and run: "ClaimCoinsForAction K t b cr action (cl_params s) s = (Ok c, s1)"
    and s': "s' = (if c = 0 then s1 else DeleteClaimsRecord a s1)"
  shows "solvent K s' \<and> cl_params s' = cl_params s \<and> allocated s' = allocated s"
proof -
  note D = solventD [OF s]
  have ok: "cr_ok cr" "4 dvd cr_amount cr" using D(5,6) cr by blast+
  have ab: "a \<noteq> b" using cr none by auto
  have funds: "\<not> HasClaimedAction cr action \<Longrightarrow> cr_amount cr div 4 \<le> escrow K s (ClaimsDenom (cl_params s))"
    using unclaimed_le [OF s cr] MarkClaimed_unclaimed(2) [OF ok(1) act] by simp
  show ?thesis
  proof (rule claim_cases [OF D(2) ok(1) act D(3) funds, of t b])
    assume "ClaimCoinsForAction K t b cr action (cl_params s) s = (Ok 0, s)"
    then show ?thesis using run s s' by simp
  next
    assume "ClaimCoinsForAction K t b cr action (cl_params s) s = (Err ErrUnauthorized, s)"
    then show ?thesis using run by simp
  next
    fix c' x'
    assume h: "ClaimCoinsForAction K t b cr action (cl_params s) s =
        (Ok c', SetClaimsRecord b (MarkClaimed action cr) (s\<lparr>cl_ext := x'\<rparr>))"
      "0 < c'" "c' \<le> cr_amount cr div 4" "\<not> HasClaimedAction cr action" "\<not> BlockedAddr (clk_B K) b"
      "IsClaimsActive (cl_params s) t"
      "paid_out K (ClaimsDenom (cl_params s)) b c' (cr_amount cr div 4 - c') (cl_ext s) x'"
    note e = paid_escrow [OF h(7,5)]
    note M = MarkClaimed_unclaimed [OF ok(1) act h(4)]
    have s1: "s' = DeleteClaimsRecord a (SetClaimsRecord b (MarkClaimed action cr) (s\<lparr>cl_ext := x'\<rparr>))"
      using run h(1,2) s' by auto
    have recs: "cl_records s' = kv_del (kv_set (cl_records s) b (MarkClaimed action cr)) a" "cl_params s' = cl_params s"
      "\<And>d. escrow K s' d = escrow K s d - (if d = ClaimsDenom (cl_params s) then cr_amount cr div 4 else 0)"
      by (simp_all add: s1 SetClaimsRecord_def DeleteClaimsRecord_def e)
    have sum: "kv_sum f (cl_records s') = kv_sum f (cl_records s) + f (MarkClaimed action cr) - f cr" for f
      using cr none ab D(1) by (simp add: recs kv_sum_set kv_sum_del kv_ok_set kv_get_set)
    have "kv_get (cl_records s') k = Some cr' \<Longrightarrow> cr_ok cr' \<and> 4 dvd cr_amount cr'" for k cr'
      using D(5,6) ok by (auto simp: recs kv_get_set kv_get_del split: if_splits)
    moreover have "kv_sum unclaimed (cl_records s') \<le> escrow K s' (ClaimsDenom (cl_params s))"
      using D(4) M(1) by (simp add: sum recs(3))
    moreover have "0 \<le> escrow K s' d" for d using D(3) funds [OF h(4)] by (simp add: recs)
    moreover have "kv_ok (cl_records s')" using D(1) by (simp add: recs kv_ok_set kv_ok_del)
    moreover have "allocated s' = allocated s" by (simp add: allocated_def sum)
    ultimately show ?thesis using D(2) by (auto simp: solvent_def recs(2))
  qed
qed

end

lemma unclaimed_two_le:
  assumes s: "solvent K s" and "kv_get (cl_records s) a = Some cr" "kv_get (cl_records s) b = Some cr'" "a \<noteq> b"
  shows "unclaimed cr + unclaimed cr' \<le> escrow K s (ClaimsDenom (cl_params s))"
proof -
  note D = solventD [OF s]
  have pos: "0 \<le> unclaimed v" if "(k, v) \<in> set (kv_del (cl_records s) a)" for k v
  proof -
    have "kv_get (kv_del (cl_records s) a) k = Some v" using kv_get_mem [OF kv_ok_del [OF D(1)]] that by simp
    then show ?thesis using D(5) [of k v] unclaimed_nonneg by (simp add: kv_get_del split: if_splits)
  qed
  have "unclaimed cr' \<le> kv_sum unclaimed (kv_del (cl_records s) a)"
    by (rule kv_sum_ge [of _ b]) (use assms pos in \<open>simp_all add: kv_get_del\<close>)
  then show ?thesis using D(1,4) assms(2) by (simp add: kv_sum_del)
qed

context claims_laws
begin

lemma merge_ok:
  assumes s: "solvent K s" and cr: "kv_get (cl_records s) a = Some cr" "kv_get (cl_records s) b = Some cr'" "a \<noteq> b"
    and act: "IsClaimsActive (cl_params s) t" and none: "\<not> HasClaimedAny cr" and nb: "\<not> BlockedAddr (clk_B K) b"
  obtains c r merged x' where "MergeClaimsRecords K t b cr cr' (cl_params s) s = (Ok merged, s\<lparr>cl_ext := x'\<rparr>)"
    "cr_ok merged" "cr_amount merged = cr_amount cr + cr_amount cr'" "0 \<le> c" "0 \<le> r"
    "c + r + unclaimed merged = unclaimed cr + unclaimed cr'"
    "if c = 0 then x' = cl_ext s else paid_out K (ClaimsDenom (cl_params s)) b c r (cl_ext s) x'"
    "\<forall>a. action_ok a \<longrightarrow> HasClaimedAction merged a \<longleftrightarrow> HasClaimedAction cr' a \<or> a = ActionIBCTransfer"
proof -
  note D = solventD [OF s]
  have ok: "cr_ok cr" "cr_ok cr'" "4 dvd cr_amount cr" using D(5,6) cr by blast+
  have am: "InitialClaimableAmount cr = Some (cr_amount cr)" "InitialClaimableAmount cr' = Some (cr_amount cr')"
    using ok by (auto simp: cr_ok_def cr_amount_def)
  have p: "0 < DurationOfDecay (cl_params s)" "DurationOfDecay (cl_params s) < 2 ^ 63"
    "coins_ValidDenom (clk_C K) (ClaimsDenom (cl_params s))"
    using D(2) by (auto simp: claims_params_ok_def)
  obtain c r merged where m: "merge_actions (clk_F K) t cr cr' (cl_params s) [ActionVote, ActionDelegate, ActionEVM, ActionIBCTransfer] 0 0
           (NewClaimsRecord (Some (cr_amount cr + cr_amount cr'))) = Ok (c, r, merged)"
    "0 \<le> c" "0 \<le> r" "cr_ok merged" "cr_amount merged = cr_amount cr + cr_amount cr'"
    "c + r + unclaimed merged = unclaimed cr + unclaimed cr'"
    "\<forall>a. action_ok a \<longrightarrow> HasClaimedAction merged a \<longleftrightarrow> HasClaimedAction cr' a \<or> a = ActionIBCTransfer"
    using dl.merge_actions_ok [OF ok(1,2) none p(1,2) act] merge_gain_dvd ok(3) by auto
  show thesis
  proof (cases "c = 0")
    case True
    then have "MergeClaimsRecords K t b cr cr' (cl_params s) s = (Ok merged, s\<lparr>cl_ext := cl_ext s\<rparr>)"
      using m(1) by (simp add: MergeClaimsRecords_def am)
    then show thesis by (rule that [OF _ m(4,5,2,3,6) _ m(7)]) (simp add: True)
  next
    case False
    then have c: "0 < c" using m(2) by simp
    have le: "c + r \<le> escrow K s (ClaimsDenom (cl_params s))"
      using unclaimed_two_le [OF s cr] m(6) unclaimed_nonneg [OF m(4)] by simp
    obtain y x' where y: "SendCoinsFromModuleToAccount (clk_B K) ''claims'' b [\<lparr>Denom = ClaimsDenom (cl_params s), Amt = c\<rparr>] (cl_ext s) = (Ok (), y)"
      and x': "if r = 0 then x' = y else
        FundCommunityPool (clk_D K) [\<lparr>Denom = ClaimsDenom (cl_params s), Amt = r\<rparr>] (GetModuleAccountAddress K) y = (Ok (), x')"
      and po: "paid_out K (ClaimsDenom (cl_params s)) b c r (cl_ext s) x'"
      using pay [OF p(3) nb c m(3) D(3) le] by blast
    have "MergeClaimsRecords K t b cr cr' (cl_params s) s = (Ok merged, s\<lparr>cl_ext := x'\<rparr>)"
      using m(1) y x' False by (cases "r = 0") (simp_all add: MergeClaimsRecords_def am bindS_def cl_call_def kl.IsZero_one)
    then show thesis by (rule that [OF _ m(4,5,2,3,6) _ m(7)]) (simp add: False po)
  qed
qed

lemma merge_not_ok:
  assumes "cr_ok cr" "cr_ok cr'" "MergeClaimsRecords K t b cr cr' p s = (Ok merged, s')"
  shows "\<not> HasClaimedAny cr"
proof -
  obtain n m where am: "InitialClaimableAmount cr = Some n" "InitialClaimableAmount cr' = Some m"
    using assms(1,2) by (auto simp: cr_ok_def)
  obtain v where "merge_actions (clk_F K) t cr cr' p [ActionVote, ActionDelegate, ActionEVM, ActionIBCTransfer] 0 0
      (NewClaimsRecord (Some (n + m))) = Ok v"
    using assms(3) by (auto simp: MergeClaimsRecords_def am split: outcome.splits)
  then show ?thesis using merge_actions_sender HasClaimedAny_iff [OF assms(1)] by blast
qed

lemma merge_moved:
  assumes s: "solvent K s" and cr: "kv_get (cl_records s) a = Some cr" "kv_get (cl_records s) b = Some cr'" "a \<noteq> b"
    and act: "IsClaimsActive (cl_params s) t" and nb: "\<not> BlockedAddr (clk_B K) b"
    and run: "MergeClaimsRecords K t b cr cr' (cl_params s) s = (Ok merged, s1)"
    and s': "s' = DeleteClaimsRecord a (SetClaimsRecord b merged s1)"
  shows "solvent K s' \<and> cl_params s' = cl_params s \<and> allocated s' = allocated s"
proof -
  note D = solventD [OF s]
  have ok: "cr_ok cr" "cr_ok cr'" "4 dvd cr_amount cr" "4 dvd cr_amount cr'" using D(5,6) cr by blast+
  obtain c r x' where m: "s1 = s\<lparr>cl_ext := x'\<rparr>"
    "cr_ok merged" "cr_amount merged = cr_amount cr + cr_amount cr'" "0 \<le> c" "0 \<le> r"
    "c + r + unclaimed merged = unclaimed cr + unclaimed cr'"
    "if c = 0 then x' = cl_ext s else paid_out K (ClaimsDenom (cl_params s)) b c r (cl_ext s) x'"
    by (rule merge_ok [OF s cr act merge_not_ok [OF ok(1,2) run] nb]) (use run in auto)
  have recs: "cl_records s' = kv_del (kv_set (cl_records s) b merged) a" "cl_params s' = cl_params s"
    by (simp_all add: s' m(1) SetClaimsRecord_def DeleteClaimsRecord_def)
  have esc: "escrow K s' d = escrow K s d - (if d = ClaimsDenom (cl_params s) \<and> c \<noteq> 0 then c + r else 0)" for d
    using m(7) paid_escrow [OF _ nb] by (auto simp: s' m(1) SetClaimsRecord_def DeleteClaimsRecord_def split: if_splits)
  have sum: "kv_sum f (cl_records s') = kv_sum f (cl_records s) + f merged - f cr' - f cr" for f
    using cr D(1) by (simp add: recs kv_sum_set kv_sum_del kv_ok_set kv_get_set)
  have "kv_get (cl_records s') k = Some v \<Longrightarrow> cr_ok v \<and> 4 dvd cr_amount v" for k v
    using D(5,6) ok m(2,3) by (auto simp: recs kv_get_set kv_get_del split: if_splits)
  moreover have "kv_sum unclaimed (cl_records s') \<le> escrow K s' (ClaimsDenom (cl_params s))"
    using D(4) m(4-6) by (simp add: sum esc)
  moreover have "0 \<le> escrow K s' d" for d
    using D(3) [of d] unclaimed_two_le [OF s cr] m(6) unclaimed_nonneg [OF m(2)] by (simp add: esc)
  moreover have "kv_ok (cl_records s')" using D(1) by (simp add: recs kv_ok_set kv_ok_del)
  moreover have "allocated s' = allocated s" by (simp add: allocated_def sum m(3))
  ultimately show ?thesis using D(2) by (auto simp: solvent_def recs(2))
qed

end

section \<open>The end of the airdrop\<close>

text \<open>The accounts the airdrop takes its coins back from: they exist, are no vesting accounts and never sent a transaction.\<close>

definition eligible :: "'x claims_keepers \<Rightarrow> 'x \<Rightarrow> addr \<Rightarrow> bool" where
  "eligible K x a \<longleftrightarrow>
     (case GetAccount (clk_A K) x a of None \<Rightarrow> False
      | Some acc \<Rightarrow> \<not> clk_IsVesting K acc \<and> clk_GetSequence K x a = Some 0)"

abbreviation pool :: "'x claims_keepers \<Rightarrow> addr" where
  "pool K \<equiv> GetModuleAddress (clk_A K) ''distribution''"

abbreviation nonneg_balances :: "'x claims_keepers \<Rightarrow> 'x \<Rightarrow> bool" where
  "nonneg_balances K x \<equiv> (\<forall>a d. 0 \<le> GetBalance (clk_B K) x a d)"

definition taken_back :: "'x claims_keepers \<Rightarrow> denom \<Rightarrow> addr \<Rightarrow> 'x \<Rightarrow> 'x \<Rightarrow> bool" where
  "taken_back K d a x x' \<longleftrightarrow>
     (\<forall>b d'. GetBalance (clk_B K) x' b d' = GetBalance (clk_B K) x b d' +
        (if d' = d \<and> eligible K x a
         then (if b = pool K then GetBalance (clk_B K) x a d else 0) - (if b = a then GetBalance (clk_B K) x a d else 0) else 0)) \<and>
     (\<forall>b. b \<noteq> a \<longrightarrow> b \<noteq> pool K \<longrightarrow> eligible K x' b = eligible K x b)"

lemma taken_back_nonneg: "taken_back K d a x x' \<Longrightarrow> nonneg_balances K x \<Longrightarrow> nonneg_balances K x'"
  by (auto simp: taken_back_def)

context claims_laws
begin

lemma clawback_empty_spec:
  assumes "coins_ValidDenom (clk_C K) d" and nn: "nonneg_balances K x"
  shows "\<exists>x'. clawback_empty K d a x = (Ok (), x') \<and> taken_back K d a x x'"
proof (cases "eligible K x a")
  case False
  then have "clawback_empty K d a x = (Ok (), x)"
    by (auto simp: clawback_empty_def eligible_def split: option.splits)
  then show ?thesis using False by (auto simp: taken_back_def)
next
  case True
  then obtain acc where acc: "GetAccount (clk_A K) x a = Some acc" "\<not> clk_IsVesting K acc" "clk_GetSequence K x a = Some 0"
    by (auto simp: eligible_def split: option.splits)
  let ?n = "GetBalance (clk_B K) x a d"
  show ?thesis
  proof (cases "?n = 0")
    case z: True
    have "eligible K (clk_RemoveAccount K acc x) b = eligible K x b" if "b \<noteq> a" for b
      using RemoveAccount_other [of b acc x] GetAccount_address [OF acc(1)] that
      by (auto simp: eligible_def split: option.splits)
    then show ?thesis
      using z acc by (auto simp: clawback_empty_def taken_back_def RemoveAccount_balance)
  next
    case nz: False
    have pos: "0 < ?n" using spec [OF spec [OF nn], of a d] nz by simp
    have v: "coins_IsValid (clk_C K) [\<lparr>Denom = d, Amt = ?n\<rparr>]" using assms(1) pos by (rule kl.valid_one)
    have "coins_AmountOf (clk_C K) [\<lparr>Denom = d, Amt = ?n\<rparr>] d' \<le> GetBalance (clk_B K) x a d'" for d'
      using nn by (simp add: kl.amount_one)
    then obtain x' where x': "FundCommunityPool (clk_D K) [\<lparr>Denom = d, Amt = ?n\<rparr>] a x = (Ok (), x')"
      using Fund_account_ok [OF acc(1,2) v] by blast
    have "clawback_empty K d a x = (Ok (), x')" using acc nz x' by (simp add: clawback_empty_def logged_def)
    moreover have "eligible K x' b = eligible K x b" if "b \<noteq> pool K" for b
      using Fund_accounts [OF x' that] by (auto simp: eligible_def split: option.splits)
    then have "taken_back K d a x x'"
      using kl.Fund_moved [OF v x'] True by (auto simp: taken_back_def moved_def kl.amount_one)
    ultimately show ?thesis by blast
  qed
qed

lemma clawback_all:
  assumes d: "coins_ValidDenom (clk_C K) d" and nn: "nonneg_balances K x"
    and e0: "\<And>d'. GetBalance (clk_B K) x (GetModuleAccountAddress K) d' = 0"
  shows "\<exists>x'. iterate_claims (\<lambda>a _. bindS (cl_call (clawback_empty K d a)) (\<lambda>_ t. (Ok False, t))) recs (s\<lparr>cl_ext := x\<rparr>)
       = (Ok (), s\<lparr>cl_ext := x'\<rparr>) \<and> nonneg_balances K x' \<and> (\<forall>d'. GetBalance (clk_B K) x' (GetModuleAccountAddress K) d' = 0) \<and>
     (distinct (map fst recs) \<longrightarrow> pool K \<notin> fst ` set recs \<longrightarrow>
      (\<forall>b d'. b \<noteq> pool K \<longrightarrow> GetBalance (clk_B K) x' b d' =
         (if d' = d \<and> b \<in> fst ` set recs \<and> eligible K x b then 0 else GetBalance (clk_B K) x b d')))"
  using nn e0
proof (induction recs arbitrary: x)
  case (Cons r recs)
  obtain a cr where r: "r = (a, cr)" by (cases r)
  obtain y where y: "clawback_empty K d a x = (Ok (), y)" "taken_back K d a x y"
    using clawback_empty_spec [OF d Cons.prems(1)] by blast
  have "GetBalance (clk_B K) y (GetModuleAccountAddress K) d' = 0" for d'
    using y(2) Cons.prems(2) by (auto simp: taken_back_def)
  from Cons.IH [OF taken_back_nonneg [OF y(2) Cons.prems(1)] this] obtain x' where x':
    "iterate_claims (\<lambda>a _. bindS (cl_call (clawback_empty K d a)) (\<lambda>_ t. (Ok False, t))) recs (s\<lparr>cl_ext := y\<rparr>) = (Ok (), s\<lparr>cl_ext := x'\<rparr>)"
    "nonneg_balances K x'" "\<forall>d'. GetBalance (clk_B K) x' (GetModuleAccountAddress K) d' = 0"
    "distinct (map fst recs) \<Longrightarrow> pool K \<notin> fst ` set recs \<Longrightarrow> b \<noteq> pool K \<Longrightarrow> GetBalance (clk_B K) x' b d' =
         (if d' = d \<and> b \<in> fst ` set recs \<and> eligible K y b then 0 else GetBalance (clk_B K) y b d')" for b d'
    by blast
  have "GetBalance (clk_B K) x' b d' =
       (if d' = d \<and> b \<in> fst ` set (r # recs) \<and> eligible K x b then 0 else GetBalance (clk_B K) x b d')"
    if "distinct (map fst (r # recs))" "pool K \<notin> fst ` set (r # recs)" "b \<noteq> pool K" for b d'
    using x'(4) [of b d'] that y(2) by (cases "b = a") (auto simp: r taken_back_def)
  moreover have "iterate_claims (\<lambda>a _. bindS (cl_call (clawback_empty K d a)) (\<lambda>_ t. (Ok False, t))) (r # recs) (s\<lparr>cl_ext := x\<rparr>)
      = (Ok (), s\<lparr>cl_ext := x'\<rparr>)"
    using x'(1) y(1) by (simp add: r bindS_def cl_call_def)
  ultimately show ?case using x'(2,3) by blast
qed auto

end

lemma DeleteClaimsRecord_all:
  "foldl (\<lambda>u a. DeleteClaimsRecord a u) s ks = s\<lparr>cl_records := foldl kv_del (cl_records s) ks\<rparr>"
  by (induction ks arbitrary: s) (simp_all add: DeleteClaimsRecord_def)

lemma kv_del_all: "kv_ok recs \<Longrightarrow> foldl kv_del recs (map fst recs) = []"
proof (induction recs)
  case (Cons r recs)
  obtain a cr where r: "r = (a, cr)" by (cases r)
  have a: "kv_get recs a = None" and ok: "kv_ok recs" using Cons.prems by (auto simp: r kv_ok_Cons kv_get_None)
  have "kv_del recs a = recs"
    by (rule kv.entries_eqI) (use a ok in \<open>auto simp: kv_ok_del kv_get_del\<close>)
  then show ?case using Cons by (simp add: r kv_ok_Cons)
qed simp

context claims_laws
begin

lemma EndAirdrop_ok:
  assumes ok: "kv_ok (cl_records s)" and p: "coins_ValidDenom (clk_C K) (ClaimsDenom p)"
    and nn: "nonneg_balances K (cl_ext s)"
  shows "\<exists>x'. EndAirdrop K p s = (Ok (), s\<lparr>cl_ext := x', cl_records := [], cl_params := p\<lparr>EnableClaims := False\<rparr>\<rparr>) \<and>
     nonneg_balances K x' \<and> (\<forall>d. GetBalance (clk_B K) x' (GetModuleAccountAddress K) d = 0) \<and>
     (pool K \<notin> fst ` set (cl_records s) \<longrightarrow>
      (\<forall>b d. b \<noteq> pool K \<longrightarrow> b \<noteq> GetModuleAccountAddress K \<longrightarrow> GetBalance (clk_B K) x' b d =
         (if d = ClaimsDenom p \<and> b \<in> fst ` set (cl_records s) \<and> eligible K (cl_ext s) b then 0
          else GetBalance (clk_B K) (cl_ext s) b d)))"
proof -
  let ?e = "GetModuleAccountAddress K" and ?x = "cl_ext s"
  let ?c = "GetAllBalances (clk_B K) ?x ?e"
  have c: "coins_IsValid (clk_C K) ?c" "\<And>d. coins_AmountOf (clk_C K) ?c d = GetBalance (clk_B K) ?x ?e d"
    using kl.GetAllBalances_amount [of ?x ?e] nn by auto
  obtain y where y: "ClawbackEscrowedTokens K s = (Ok (), s\<lparr>cl_ext := y\<rparr>)" "nonneg_balances K y"
    "\<And>d. GetBalance (clk_B K) y ?e d = 0"
    "\<And>b d. b \<noteq> pool K \<Longrightarrow> b \<noteq> ?e \<Longrightarrow> GetBalance (clk_B K) y b d = GetBalance (clk_B K) ?x b d"
    "\<And>b. b \<noteq> pool K \<Longrightarrow> eligible K y b = eligible K ?x b"
  proof (cases "coins_IsZero (clk_C K) ?c")
    case True
    then show thesis
      using that [of ?x] c nn kl.IsZero_iff [OF c(1)] by (simp add: ClawbackEscrowedTokens_def)
  next
    case False
    obtain y where f: "FundCommunityPool (clk_D K) ?c ?e ?x = (Ok (), y)"
      using kl.Fund_ok [OF escrow_registered _ c(1)] c(2) by (fastforce simp: GetModuleAccountAddress_def)
    note m = kl.Fund_moved [OF c(1) f, unfolded moved_def]
    show thesis
    proof (rule that [of y])
      show "ClawbackEscrowedTokens K s = (Ok (), s\<lparr>cl_ext := y\<rparr>)"
        using False f by (simp add: ClawbackEscrowedTokens_def cl_call_def)
      show "nonneg_balances K y" "\<And>d. GetBalance (clk_B K) y ?e d = 0" using m nn c(2) by auto
      show "\<And>b d. b \<noteq> pool K \<Longrightarrow> b \<noteq> ?e \<Longrightarrow> GetBalance (clk_B K) y b d = GetBalance (clk_B K) ?x b d" using m by auto
      show "\<And>b. b \<noteq> pool K \<Longrightarrow> eligible K y b = eligible K ?x b"
        using Fund_accounts [OF f] by (auto simp: eligible_def split: option.splits)
    qed
  qed
  obtain x' where x': "iterate_claims (\<lambda>a _. bindS (cl_call (clawback_empty K (ClaimsDenom p) a)) (\<lambda>_ t. (Ok False, t)))
        (cl_records s) (s\<lparr>cl_ext := y\<rparr>) = (Ok (), s\<lparr>cl_ext := x'\<rparr>)" "nonneg_balances K x'"
      "\<forall>d. GetBalance (clk_B K) x' ?e d = 0"
      "pool K \<notin> fst ` set (cl_records s) \<longrightarrow> (\<forall>b d. b \<noteq> pool K \<longrightarrow> GetBalance (clk_B K) x' b d =
         (if d = ClaimsDenom p \<and> b \<in> fst ` set (cl_records s) \<and> eligible K y b then 0 else GetBalance (clk_B K) y b d))"
    using clawback_all [OF p y(2,3), of "cl_records s" s] kv_ok_distinct [OF ok] by (elim exE conjE) (rule that, simp_all)
  have "EndAirdrop K p s = (Ok (), s\<lparr>cl_ext := x', cl_records := [], cl_params := p\<lparr>EnableClaims := False\<rparr>\<rparr>)"
    using x'(1) by (simp add: EndAirdrop_def ClawbackEmptyAccounts_def bindS_def y(1) cl_SetParams_def
        DeleteClaimsRecord_all kv_del_all [OF ok])
  then show ?thesis using x'(2-4) y(4,5) by (intro exI [of _ x']) auto
qed

end

section \<open>Runs of the module\<close>

text \<open>
  What happens to the module's state between two blocks or transactions that take effect.  A callback
  that ends in an error or in an error acknowledgement is undone by its caller and is no step.  \<open>other\<close>
  is anything the rest of the chain does: it may not take coins out of the escrow account.
\<close>

inductive claims_step :: "'x claims_keepers \<Rightarrow> 'x claims_state \<Rightarrow> 'x claims_state \<Rightarrow> bool" for K where
  vote: "AfterProposalVote K t i a s = (Ok (), s') \<Longrightarrow> claims_step K s s'"
| delegate: "AfterDelegationModified K t a v s = (Ok (), s') \<Longrightarrow> claims_step K s s'"
| evm: "claims_PostTxProcessing K t a s = (Ok (), s') \<Longrightarrow> claims_step K s s'"
| ack: "claims_OnAcknowledgementPacket K t pk ac s = (Ok (), s') \<Longrightarrow> claims_step K s s'"
| recv: "claims_OnRecvPacket K t pk (ResultAck b) s = (Ok (ResultAck b), s') \<Longrightarrow> claims_step K s s'"
| end_block: "nonneg_balances K (cl_ext s) \<Longrightarrow> claims_EndBlocker K t s = (Ok (), s') \<Longrightarrow> claims_step K s s'"
| other: "\<forall>d. GetBalance (clk_B K) (cl_ext s) (GetModuleAccountAddress K) d
            \<le> GetBalance (clk_B K) x' (GetModuleAccountAddress K) d \<Longrightarrow> claims_step K s (s\<lparr>cl_ext := x'\<rparr>)"
| params: "claims_params_ok (clk_C K) p \<Longrightarrow> ClaimsDenom p = ClaimsDenom (cl_params s) \<Longrightarrow> claims_step K s (s\<lparr>cl_params := p\<rparr>)"

lemma actions_ok [simp]: "action_ok ActionVote" "action_ok ActionDelegate" "action_ok ActionEVM" "action_ok ActionIBCTransfer"
  by (simp_all add: action_ok_def action_defs)

context claims_laws
begin

lemma logged_claim:
  assumes s: "solvent K s" and act: "action_ok action"
    and run: "(case GetClaimsRecord s a of None \<Rightarrow> (Ok (), s)
               | Some cr \<Rightarrow> logged (ClaimCoinsForAction K t a cr action (cl_params s)) s) = (Ok (), s')"
  shows "solvent K s' \<and> allocated s' = allocated s"
proof (cases "GetClaimsRecord s a")
  case None
  then show ?thesis using run s by simp
next
  case (Some cr)
  obtain r s1 where c: "ClaimCoinsForAction K t a cr action (cl_params s) s = (r, s1)" by fastforce
  then have "s1 = s'" using run Some by (cases r) (auto simp: logged_def)
  then show ?thesis using claim_own [OF s _ act c] Some by (simp add: GetClaimsRecord_def)
qed

lemma acked_Ok: "acked (ResultAck b) m s = (Ok (ResultAck b), s') \<Longrightarrow> \<exists>v. m s = (Ok v, s')"
  by (auto simp: acked_def split: prod.splits outcome.splits)

lemma recv_step:
  assumes s: "solvent K s" and run: "claims_OnRecvPacket K t pk (ResultAck b) s = (Ok (ResultAck b), s')"
  shows "solvent K s' \<and> allocated s' = allocated s"
proof (cases "s' = s")
  case False
  obtain x y u v where act: "IsClaimsActive (cl_params s) t" and xy: "GetTransferSenderRecipient (clk_I K) pk = Ok (x, y, u, v)"
    and nb: "\<not> BlockedAddr (clk_B K) y"
    and rc: "recv_claims K t (cl_params s) (ResultAck b) x y (GetClaimsRecord s x) (GetClaimsRecord s y) (x = y)
          (IsEVMChannel (cl_params s) (p_DestChannel pk))
          (\<exists>amt. GetTransferAmount (clk_I K) pk = Ok amt \<and> amt = IBCTriggerAmt) s = (Ok (ResultAck b), s')"
    using run False unfolding claims_OnRecvPacket_def Let_def by (auto split: if_splits outcome.splits prod.splits)
  let ?sx = "kv_get (cl_records s) x" and ?sy = "kv_get (cl_records s) y"
  note rc' = rc [unfolded recv_claims_def GetClaimsRecord_def]
  show ?thesis
  proof (cases "?sx")
    case None
    then obtain cr c where "?sy = Some cr" "ClaimCoinsForAction K t y cr ActionIBCTransfer (cl_params s) s = (Ok c, s')"
      using rc' False by (cases ?sy) (auto dest: acked_Ok)
    then show ?thesis using claim_own [OF s _ actions_ok(4)] by blast
  next
    case x: (Some cx)
    show ?thesis
    proof (cases ?sy)
      case None
      then obtain c s1 where "ClaimCoinsForAction K t y cx ActionIBCTransfer (cl_params s) s = (Ok c, s1)"
        "s' = (if c = 0 then s1 else DeleteClaimsRecord x s1)"
        using rc' False x by (auto dest!: acked_Ok simp: bindS_Ok_iff split: if_splits)
      then show ?thesis using claim_moved [OF s x None actions_ok(4)] by blast
    next
      case y: (Some cy)
      consider m s1 where "x \<noteq> y" "MergeClaimsRecords K t y cx cy (cl_params s) s = (Ok m, s1)"
          "s' = DeleteClaimsRecord x (SetClaimsRecord y m s1)"
        | c where "ClaimCoinsForAction K t y cy ActionIBCTransfer (cl_params s) s = (Ok c, s')"
        using rc' False x y by (auto dest!: acked_Ok simp: bindS_Ok_iff split: if_splits)
      then show ?thesis
      proof cases
        case 1
        then show ?thesis using merge_moved [OF s x y 1(1) act nb 1(2,3)] by blast
      next
        case 2
        then show ?thesis using claim_own [OF s y actions_ok(4)] by blast
      qed
    qed
  qed
qed (simp add: s)

end

context claims_laws
begin

lemma step_solvent:
  assumes "claims_step K s s'" and s: "solvent K s"
  shows "solvent K s' \<and> (allocated s' = allocated s \<or> cl_records s' = [] \<and> \<not> EnableClaims (cl_params s'))"
  using assms(1)
proof cases
  case (vote t i a)
  then show ?thesis using logged_claim [OF s actions_ok(1)] by (simp add: AfterProposalVote_def Let_def)
next
  case (delegate t a v)
  then show ?thesis using logged_claim [OF s actions_ok(2)] by (simp add: AfterDelegationModified_def Let_def)
next
  case (evm t a)
  then show ?thesis using logged_claim [OF s actions_ok(3)] by (simp add: claims_PostTxProcessing_def Let_def)
next
  case (ack t pk ac)
  show ?thesis
  proof (cases "s' = s")
    case False
    obtain a cr c where "kv_get (cl_records s) a = Some cr" "ClaimCoinsForAction K t a cr ActionIBCTransfer (cl_params s) s = (Ok c, s')"
      using ack False unfolding claims_OnAcknowledgementPacket_def Let_def GetClaimsRecord_def
      by (auto simp: bindS_Ok_iff split: if_splits option.splits outcome.splits prod.splits)
    then show ?thesis using claim_own [OF s _ actions_ok(4)] by blast
  qed (simp add: s)
next
  case (recv t pk b)
  then show ?thesis using recv_step [OF s] by blast
next
  case (end_block t)
  show ?thesis
  proof (cases "s' = s")
    case False
    obtain r where run: "EndAirdrop K (cl_params s) s = (Ok r, s')"
      using end_block(2) False unfolding claims_EndBlocker_def Let_def by (auto split: if_splits prod.splits outcome.splits)
    note D = solventD [OF s]
    have d: "coins_ValidDenom (clk_C K) (ClaimsDenom (cl_params s))" using D(2) by (simp add: claims_params_ok_def)
    obtain x' where x': "s' = s\<lparr>cl_ext := x', cl_records := [], cl_params := (cl_params s)\<lparr>EnableClaims := False\<rparr>\<rparr>"
      "\<forall>d. GetBalance (clk_B K) x' (GetModuleAccountAddress K) d = 0"
      using EndAirdrop_ok [OF D(1) d end_block(1)] run by auto
    then show ?thesis using D(2) by (simp add: solvent_def claims_params_ok_def kv_get_def)
  qed (simp add: s)
next
  case (other x')
  then show ?thesis using solventD [OF s] by (auto simp: solvent_def allocated_def intro: order_trans)
next
  case (params p)
  then show ?thesis using solventD [OF s] by (auto simp: solvent_def allocated_def)
qed

lemma run_solvent: "(claims_step K)\<^sup>*\<^sup>* s s' \<Longrightarrow> solvent K s \<Longrightarrow> solvent K s'"
  by (induction rule: rtranclp_induct) (use step_solvent in blast)+

end

section \<open>Genesis\<close>

lemma add_unclaimed_eq: "add_unclaimed n l u = u + n * int (length (filter Not l))"
  by (induction l arbitrary: u) (auto simp: algebra_simps)

definition genesis_record_ok :: "claims_record_address \<Rightarrow> bool" where
  "genesis_record_ok r \<longleftrightarrow> (\<exists>n. cra_InitialClaimableAmount r = Some n \<and> 0 < n \<and> 4 dvd n)"

lemma init_records_ok:
  assumes "init_records K rs n s = (Ok m, s')" and "\<And>r. r \<in> set rs \<Longrightarrow> genesis_record_ok r"
    and "kv_ok (cl_records s)" and "\<And>a cr. kv_get (cl_records s) a = Some cr \<Longrightarrow> cr_ok cr \<and> 4 dvd cr_amount cr"
  shows "kv_ok (cl_records s') \<and> (\<forall>a cr. kv_get (cl_records s') a = Some cr \<longrightarrow> cr_ok cr \<and> 4 dvd cr_amount cr) \<and>
    kv_sum unclaimed (cl_records s') - kv_sum unclaimed (cl_records s) \<le> m - n \<and>
    cl_ext s' = cl_ext s \<and> cl_params s' = cl_params s"
  using assms
proof (induction rs arbitrary: n s)
  case (Cons r rs)
  obtain a k where a: "AccAddressFromBech32 (clk_H K) (cra_Address r) = Some a" "cra_InitialClaimableAmount r = Some k"
    "0 < k" "4 dvd k" "length (cra_ActionsCompleted r) = numActions"
    using Cons.prems(1) Cons.prems(2) [of r] by (auto simp: genesis_record_ok_def Let_def split: option.splits if_splits)
  let ?cr = "\<lparr>InitialClaimableAmount = Some k, ActionsCompleted = cra_ActionsCompleted r\<rparr>"
  let ?s = "SetClaimsRecord a ?cr s" and ?n = "add_unclaimed (k div 4) (cra_ActionsCompleted r) n"
  have cr: "cr_ok ?cr" "4 dvd cr_amount ?cr" using a by (simp_all add: cr_ok_def cr_amount_def)
  have run: "init_records K rs ?n ?s = (Ok m, s')" using Cons.prems(1) a by simp
  have "0 \<le> at_key unclaimed (kv_get (cl_records s) a)"
    using Cons.prems(4) unclaimed_nonneg by (auto split: option.splits)
  then have sum: "kv_sum unclaimed (cl_records ?s) - kv_sum unclaimed (cl_records s) \<le> ?n - n"
    using Cons.prems(3) by (simp add: SetClaimsRecord_def kv_sum_set add_unclaimed_eq unclaimed_def cr_amount_def)
  have "kv_ok (cl_records s') \<and> (\<forall>a cr. kv_get (cl_records s') a = Some cr \<longrightarrow> cr_ok cr \<and> 4 dvd cr_amount cr) \<and>
    kv_sum unclaimed (cl_records s') - kv_sum unclaimed (cl_records ?s) \<le> m - ?n \<and>
    cl_ext s' = cl_ext ?s \<and> cl_params s' = cl_params ?s"
    by (rule Cons.IH [OF run])
      (use Cons.prems cr in \<open>auto simp: SetClaimsRecord_def kv_ok_set kv_get_set split: if_splits\<close>)
  then show ?case using sum by (simp add: SetClaimsRecord_def)
qed simp

context claims_laws
begin

lemma InitGenesis_solvent:
  assumes run: "claims_InitGenesis K t g s0 = (Ok (), s)" and "cl_records s0 = []"
    and "\<And>r. r \<in> set (cg_ClaimsRecords g) \<Longrightarrow> genesis_record_ok r"
    and "claims_params_ok (clk_C K) (cg_Params g)" and nn: "\<And>d. 0 \<le> escrow K s0 d"
  shows "solvent K s"
proof -
  define p where "p = (if AirdropStartTime (cg_Params g) = zero_time then (cg_Params g)\<lparr>AirdropStartTime := t\<rparr> else cg_Params g)"
  have p: "claims_params_ok (clk_C K) p" using assms(4) by (simp add: p_def claims_params_ok_def)
  have total: "coins_AmountOf (clk_C K) (GetModuleAccountBalances K (cl_ext s0)) d = escrow K s0 d" for d
    using kl.GetAllBalances_amount [of "cl_ext s0" "GetModuleAccountAddress K"] nn by (simp add: GetModuleAccountBalances_def)
  have i: "init_records K (cg_ClaimsRecords g) 0 (cl_SetParams p s0) = (Ok (escrow K s0 (ClaimsDenom p)), s)"
    using run unfolding claims_InitGenesis_def Let_def
    by (auto simp: bindS_Ok_iff p_def [symmetric] total cl_SetParams_def split: if_splits)
  then show ?thesis
    using init_records_ok [OF i assms(3)] assms(2) p nn
    by (auto simp: solvent_def cl_SetParams_def kv_get_def)
qed

end

section \<open>An executable instance\<close>

definition std_sequence :: "std_world \<Rightarrow> addr \<Rightarrow> int option" where
  "std_sequence w a = (case GetAccount std_accounts w a of None \<Rightarrow> None
     | Some (ClawbackAcc va) \<Rightarrow> Some (acc_Sequence (BaseAccount (BVA va))) | Some (OtherAcc b) \<Rightarrow> Some (acc_Sequence b))"

definition std_claims :: "std_world claims_keepers" where
  "std_claims = \<lparr>clk_C = std_coins, clk_F = std_dec, clk_H = std_bech32, clk_I = std_ibc, clk_A = std_accounts, clk_B = std_bank,
     clk_D = std_distr, clk_GetSequence = std_sequence,
     clk_RemoveAccount = (\<lambda>acc w. w\<lparr>w_accounts := kv_del (w_accounts w) (account_address acc)\<rparr>),
     clk_IsVesting = (\<lambda>acc. case acc of ClawbackAcc _ \<Rightarrow> True | OtherAcc _ \<Rightarrow> False),
     clk_ModuleAccount = (\<lambda>_ _. True)\<rparr>"

lemma std_claims_sel [simp]:
  "clk_C std_claims = std_coins" "clk_F std_claims = std_dec" "clk_A std_claims = std_accounts" "clk_B std_claims = std_bank"
  "clk_D std_claims = std_distr" "clk_GetSequence std_claims = std_sequence" "clk_I std_claims = std_ibc"
  by (simp_all add: std_claims_def)

lemma std_fund_accounts: "FundCommunityPool std_distr c b x = (Ok u, x') \<Longrightarrow> w_accounts x' = w_accounts x"
  using std_transfer_moved by (auto simp: std_distr_def)

interpretation stdc: claims_laws std_claims UNIV
proof (rule claims_laws.intro)
  show "BlockedAddr (clk_B std_claims) (GetModuleAddress (clk_A std_claims) ''claims'')"
    by (simp add: std_bank_def std_blocked_def std_accounts_def std_module_addr_def)
  show "GetBalance (clk_B std_claims) (clk_RemoveAccount std_claims acc x) = GetBalance (clk_B std_claims) x" for acc x
    by (simp add: std_claims_def std_bank_def)
  show "b \<noteq> account_address acc \<Longrightarrow> GetAccount (clk_A std_claims) (clk_RemoveAccount std_claims acc x) b = GetAccount (clk_A std_claims) x b \<and>
      clk_GetSequence std_claims (clk_RemoveAccount std_claims acc x) b = clk_GetSequence std_claims x b" for b acc x
    by (simp add: std_claims_def std_sequence_def std_accounts_def kv_get_del)
  show "GetAccount (clk_A std_claims) x b = Some acc \<Longrightarrow> account_address acc = b" for x b acc
    by (auto simp: std_accounts_def split: option.splits if_splits)
  show "FundCommunityPool (clk_D std_claims) c b x = (Ok u, x') \<Longrightarrow> a \<noteq> GetModuleAddress (clk_A std_claims) ''distribution'' \<Longrightarrow>
      GetAccount (clk_A std_claims) x' a = GetAccount (clk_A std_claims) x a \<and>
      clk_GetSequence std_claims x' a = clk_GetSequence std_claims x a" for c b x u x' a
    using std_fund_accounts [of c b x u x'] by (simp add: std_sequence_def std_accounts_def)
  show "coins_IsValid (clk_C std_claims) c \<Longrightarrow> (\<And>d. coins_AmountOf (clk_C std_claims) c d \<le> GetBalance (clk_B std_claims) x b d) \<Longrightarrow>
      \<exists>x'. FundCommunityPool (clk_D std_claims) c b x = (Ok (), x')" for c x b
    using std_enough_ok [of c x b] by (simp add: std_distr_def std_transfer_def std_coins_def std_bank_def)
  show "keeper_laws (clk_C std_claims) (clk_A std_claims) (clk_B std_claims) (clk_D std_claims) UNIV"
    by (simp add: stdk.keeper_laws_axioms)
  show "dec_laws (clk_F std_claims)" by (simp add: stdd.dec_laws_axioms)
qed simp_all

text \<open>Two addresses with records of 40 and 80 coins and an escrow that covers them.\<close>

definition ex_claims_params :: claims_params where
  "ex_claims_params = claims_DefaultParams\<lparr>AirdropStartTime := 1000, DurationUntilDecay := 100, DurationOfDecay := 200\<rparr>"

definition ex_claims_genesis :: claims_genesis where
  "ex_claims_genesis = \<lparr>cg_Params = ex_claims_params,
     cg_ClaimsRecords = [\<lparr>cra_Address = ''alice'', cra_InitialClaimableAmount = Some 40, cra_ActionsCompleted = [False, True, False, False]\<rparr>,
                         \<lparr>cra_Address = ''bob'', cra_InitialClaimableAmount = Some 80, cra_ActionsCompleted = [False, False, False, False]\<rparr>]\<rparr>"

definition ex_claims_world :: std_world where
  "ex_claims_world = \<lparr>w_accounts = [(''bob'', OtherAcc \<lparr>acc_Address = ''bob'', acc_PubKey = None, acc_Number = 7, acc_Sequence = 0\<rparr>)],
     w_denoms = [''aevmos''], w_balance = (\<lambda>a d. if a = ''module/claims'' then 110 else if a = ''bob'' then 5 else 0), w_supply = (\<lambda>_. 115)\<rparr>"

definition ex_claims0 :: "std_world claims_state" where
  "ex_claims0 = \<lparr>cl_params = ex_claims_params, cl_records = [], cl_ext = ex_claims_world\<rparr>"

definition ex_claims :: "std_world claims_state" where
  "ex_claims = \<lparr>cl_params = ex_claims_params,
     cl_records = [(''alice'', \<lparr>InitialClaimableAmount = Some 40, ActionsCompleted = [False, True, False, False]\<rparr>),
                   (''bob'', \<lparr>InitialClaimableAmount = Some 80, ActionsCompleted = [False, False, False, False]\<rparr>)],
     cl_ext = ex_claims_world\<rparr>"

lemma ex_claims_init: "claims_InitGenesis std_claims 0 ex_claims_genesis ex_claims0 = (Ok (), ex_claims)"
proof -
  have "fst (claims_InitGenesis std_claims 0 ex_claims_genesis ex_claims0) = Ok ()"
    "cl_params (snd (claims_InitGenesis std_claims 0 ex_claims_genesis ex_claims0)) = cl_params ex_claims"
    "cl_records (snd (claims_InitGenesis std_claims 0 ex_claims_genesis ex_claims0)) = cl_records ex_claims"
    by code_simp+
  moreover have "cl_ext (snd (claims_InitGenesis std_claims 0 ex_claims_genesis ex_claims0)) = ex_claims_world"
    by (simp add: claims_InitGenesis_def ex_claims_genesis_def Let_def bindS_def cl_SetParams_def ex_claims0_def
        SetClaimsRecord_def std_claims_def std_bech32_def numActions_def)
  ultimately show ?thesis by (simp add: prod_eq_iff ex_claims_def)
qed

lemma ex_claims_balance: "GetBalance std_bank ex_claims_world a d = (if d = ''aevmos'' then w_balance ex_claims_world a d else 0)"
  by (simp add: std_bank_def std_balance_def ex_claims_world_def)

lemma ex_claims_nonneg: "nonneg_balances std_claims ex_claims_world"
  by (simp add: ex_claims_balance) (simp add: ex_claims_world_def)

section \<open>Properties\<close>

text \<open>C21. While the airdrop runs, the claimable amount of an action and what is left over always add up to a
  quarter of the record; the claimable part is the whole quarter until the decay starts, never grows as
  time passes, never becomes negative, and is zero when the airdrop ends.\<close>

theorem claimable_decays:
  assumes "dec_laws F" and "cr_Validate cr = Ok ()" and "\<not> HasClaimedAction cr action"
    and "0 < DurationOfDecay p" "DurationOfDecay p < 2 ^ 63" and "t \<le> u" "u \<le> AirdropEndTime p"
  shows "\<exists>n c c'. InitialClaimableAmount cr = Some n \<and>
     ClaimableAmountForAction F t cr action p = Some (c, n div 4 - c) \<and>
     ClaimableAmountForAction F u cr action p = Some (c', n div 4 - c') \<and>
     0 \<le> c' \<and> c' \<le> c \<and> c \<le> n div 4 \<and>
     (t \<le> DecayStartTime p \<longrightarrow> c = n div 4) \<and> (u = AirdropEndTime p \<longrightarrow> c' = 0)"
proof -
  have ok: "cr_ok cr" by (rule cr_Validate_ok [OF assms(2)])
  have n: "InitialClaimableAmount cr = Some (cr_amount cr)" "0 \<le> cr_amount cr div 4"
    using ok by (auto simp: cr_ok_def cr_amount_def pos_imp_zdiv_nonneg_iff)
  let ?f = "\<lambda>t. dec_RoundInt F (cr_amount cr div 4 * decay_ratio p t)"
  have t: "t \<le> AirdropEndTime p" using assms(6,7) by simp
  note eq = dec_laws.ClaimableAmountForAction_eq [OF assms(1) ok assms(3,4,5)]
  note b = dec_laws.claimable_bounds [OF assms(1) n(2) assms(4)]
  have mono: "?f u \<le> ?f t"
    using decay_ratio_antimono [OF assms(4,6)] n(2) by (intro dec_laws.Round_mono [OF assms(1)] mult_left_mono)
  have one: "t \<le> DecayStartTime p \<Longrightarrow> ?f t = cr_amount cr div 4"
    using dec_laws.Round_NewDec [OF assms(1), of "cr_amount cr div 4"] by (simp add: decay_ratio_def NewDec_def)
  have zero: "u = AirdropEndTime p \<Longrightarrow> ?f u = 0"
    using dec_laws.Round_NewDec [OF assms(1), of 0] assms(4)
    by (simp add: decay_ratio_def NewDec_def AirdropEndTime_def DecayStartTime_def)
  show ?thesis
    using n(1) eq [OF t] eq [OF assms(7)] b(1) [OF assms(7)] b(2) [OF t] mono one zero by blast
qed

theorem claimable_decays_witness:
  "\<exists>c c'. ClaimableAmountForAction std_dec 1050 (NewClaimsRecord (Some 40)) ActionVote ex_claims_params = Some (c, 10 - c) \<and>
     ClaimableAmountForAction std_dec 1300 (NewClaimsRecord (Some 40)) ActionVote ex_claims_params = Some (c', 10 - c') \<and> c = 10 \<and> c' = 0"
proof -
  have v: "cr_Validate (NewClaimsRecord (Some 40)) = Ok ()" "\<not> HasClaimedAction (NewClaimsRecord (Some 40)) ActionVote" by code_simp+
  show ?thesis
    using claimable_decays [OF stdd.dec_laws_axioms v, of ex_claims_params 1050 1300]
    by (simp add: NewClaimsRecord_def ex_claims_params_def DecayStartTime_def AirdropEndTime_def)
qed



text \<open>C22. When the claiming period is over, the next end of a block empties the escrow account into the
  community pool, takes the airdropped coins back from exactly the recorded accounts that never sent a
  transaction and are no vesting accounts, touches no other account's balance, deletes all records and
  switches the claims off.\<close>

theorem claims_EndBlocker_ends:
  assumes "claims_laws K reg" and "EnableClaims (cl_params s)"
    and "time_Sub blockTime (AirdropStartTime (cl_params s)) > i64 (DurationUntilDecay (cl_params s) + DurationOfDecay (cl_params s))"
    and "kv_ok (cl_records s)" and "coins_ValidDenom (clk_C K) (ClaimsDenom (cl_params s))"
    and "\<And>a d. 0 \<le> GetBalance (clk_B K) (cl_ext s) a d"
    and "GetClaimsRecord s (GetModuleAddress (clk_A K) ''distribution'') = None"
  shows "\<exists>s'. claims_EndBlocker K blockTime s = (Ok (), s') \<and> cl_records s' = [] \<and> \<not> EnableClaims (cl_params s') \<and>
    (\<forall>d. escrow K s' d = 0) \<and>
    (\<forall>a d. a \<noteq> GetModuleAddress (clk_A K) ''distribution'' \<longrightarrow> a \<noteq> GetModuleAccountAddress K \<longrightarrow>
       GetBalance (clk_B K) (cl_ext s') a d =
         (if d = ClaimsDenom (cl_params s) \<and> HasClaimsRecord s a \<and> eligible K (cl_ext s) a then 0
          else GetBalance (clk_B K) (cl_ext s) a d))"
proof -
  have key: "HasClaimsRecord s a \<longleftrightarrow> a \<in> fst ` set (cl_records s)" for a
    using kv_get_None [of "cl_records s" a] by (auto simp: HasClaimsRecord_def kv_has_def)
  have pool: "pool K \<notin> fst ` set (cl_records s)"
    using assms(7) by (simp add: GetClaimsRecord_def kv_get_None)
  have nn: "nonneg_balances K (cl_ext s)" using assms(6) by blast
  obtain x' where x': "EndAirdrop K (cl_params s) s =
      (Ok (), s\<lparr>cl_ext := x', cl_records := [], cl_params := (cl_params s)\<lparr>EnableClaims := False\<rparr>\<rparr>)"
    "\<forall>d. GetBalance (clk_B K) x' (GetModuleAccountAddress K) d = 0"
    "\<forall>b d. b \<noteq> pool K \<longrightarrow> b \<noteq> GetModuleAccountAddress K \<longrightarrow> GetBalance (clk_B K) x' b d =
         (if d = ClaimsDenom (cl_params s) \<and> b \<in> fst ` set (cl_records s) \<and> eligible K (cl_ext s) b then 0
          else GetBalance (clk_B K) (cl_ext s) b d)"
    using claims_laws.EndAirdrop_ok [OF assms(1,4,5) nn] pool by (elim exE conjE) (rule that, simp_all)
  then show ?thesis using assms(2,3) by (simp add: claims_EndBlocker_def Let_def key)
qed

theorem claims_EndBlocker_ends_witness:
  "\<exists>s'. claims_EndBlocker std_claims 1301 ex_claims = (Ok (), s') \<and> cl_records s' = [] \<and>
     GetBalance std_bank (cl_ext s') ''bob'' ''aevmos'' = 0"
proof -
  have e: "EnableClaims (cl_params ex_claims)"
    "time_Sub 1301 (AirdropStartTime (cl_params ex_claims)) > i64 (DurationUntilDecay (cl_params ex_claims) + DurationOfDecay (cl_params ex_claims))"
    "kv_ok (cl_records ex_claims)" "coins_ValidDenom (clk_C std_claims) (ClaimsDenom (cl_params ex_claims))"
    "GetClaimsRecord ex_claims (GetModuleAddress (clk_A std_claims) ''distribution'') = None"
    "HasClaimsRecord ex_claims ''bob''" "ClaimsDenom (cl_params ex_claims) = ''aevmos''"
    "GetModuleAddress (clk_A std_claims) ''distribution'' \<noteq> ''bob''" "GetModuleAccountAddress std_claims \<noteq> ''bob''"
    by code_simp+
  have el: "eligible std_claims (cl_ext ex_claims) ''bob''"
    by (simp add: eligible_def ex_claims_def ex_claims_world_def std_accounts_def kv_get_def std_sequence_def std_claims_def)
  have nn: "0 \<le> GetBalance (clk_B std_claims) (cl_ext ex_claims) a d" for a d
    using ex_claims_nonneg by (simp add: ex_claims_def)
  show ?thesis
    using claims_EndBlocker_ends [OF stdc.claims_laws_axioms e(1-4) nn e(5)] e(6-9) el by auto
qed

text \<open>C23. A transfer of the trigger amount from a recorded address that claimed nothing to another recorded
  address, over an authorized channel, is acknowledged, merges the two records into one of the recipient with
  the summed amount and the recipient's completed actions plus the IBC action, deletes the sender's record
  and leaves every other record alone.\<close>

theorem OnRecvPacket_merges:
  assumes "claims_laws K reg" and "solvent K s"
    and "IsClaimsActive (cl_params s) blockTime"
    and "GetTransferSenderRecipient (clk_I K) packet = Ok (sender, recipient, b1, b2)" "sender \<noteq> recipient"
    and "\<not> BlockedAddr (clk_B K) sender" "\<not> BlockedAddr (clk_B K) recipient"
    and "IsAuthorizedChannel (cl_params s) (p_DestChannel packet)"
    and "GetTransferAmount (clk_I K) packet = Ok IBCTriggerAmt"
    and "GetClaimsRecord s sender = Some cr" "\<not> HasClaimedAny cr" and "GetClaimsRecord s recipient = Some cr'"
  shows "\<exists>s' merged. claims_OnRecvPacket K blockTime packet (ResultAck ok) s = (Ok (ResultAck ok), s') \<and>
     (\<forall>a. GetClaimsRecord s' a = (if a = sender then None else if a = recipient then Some merged else GetClaimsRecord s a)) \<and>
     cr_amount merged = cr_amount cr + cr_amount cr' \<and>
     (\<forall>action. action_ok action \<longrightarrow> HasClaimedAction merged action \<longleftrightarrow> HasClaimedAction cr' action \<or> action = ActionIBCTransfer)"
proof -
  note g = assms(10,12) [unfolded GetClaimsRecord_def]
  have ok: "cr_ok cr" using solventD(5) [OF assms(2) g(1)] .
  have nc: "\<not> HasClaimedAction cr ActionIBCTransfer"
    using HasClaimedAny_iff [OF ok] assms(11) by simp
  obtain merged x' where m: "MergeClaimsRecords K blockTime recipient cr cr' (cl_params s) s = (Ok merged, s\<lparr>cl_ext := x'\<rparr>)"
    "cr_amount merged = cr_amount cr + cr_amount cr'"
    "\<forall>a. action_ok a \<longrightarrow> HasClaimedAction merged a \<longleftrightarrow> HasClaimedAction cr' a \<or> a = ActionIBCTransfer"
    by (rule claims_laws.merge_ok [OF assms(1,2) g assms(5,3,11,7)]) blast
  let ?s = "DeleteClaimsRecord sender (SetClaimsRecord recipient merged (s\<lparr>cl_ext := x'\<rparr>))"
  have "claims_OnRecvPacket K blockTime packet (ResultAck ok) s = (Ok (ResultAck ok), ?s)"
    using assms(3-12) nc m(1)
    by (simp add: claims_OnRecvPacket_def Let_def recv_claims_def acked_def bindS_def)
  moreover have "GetClaimsRecord ?s a = (if a = sender then None else if a = recipient then Some merged else GetClaimsRecord s a)" for a
    by (simp add: GetClaimsRecord_def DeleteClaimsRecord_def SetClaimsRecord_def kv_get_set kv_get_del)
  ultimately show ?thesis using m(2,3) by blast
qed

definition ex_packet :: packet where
  "ex_packet = \<lparr>p_Data = Some \<lparr>ft_Denom = ''uosmo'', ft_Amount = ''63743'', ft_Sender = ''osmo1bob'', ft_Receiver = ''evmos1alice''\<rparr>,
     p_SourcePort = ''transfer'', p_SourceChannel = ''channel-9'', p_DestPort = ''transfer'', p_DestChannel = ''channel-0''\<rparr>"

lemma ex_claims_solvent: "solvent std_claims ex_claims"
proof -
  have g: "\<And>r. r \<in> set (cg_ClaimsRecords ex_claims_genesis) \<Longrightarrow> genesis_record_ok r"
    by (auto simp: ex_claims_genesis_def genesis_record_ok_def)
  have p: "claims_params_ok (clk_C std_claims) (cg_Params ex_claims_genesis)"
    by (simp add: ex_claims_genesis_def ex_claims_params_def claims_params_ok_def claims_DefaultParams_def std_coins_def)
  have e: "0 \<le> escrow std_claims ex_claims0 d" for d
    using ex_claims_nonneg by (simp add: ex_claims0_def)
  show ?thesis by (rule stdc.InitGenesis_solvent [OF ex_claims_init _ g p e]) (simp add: ex_claims0_def)
qed

theorem OnRecvPacket_merges_witness:
  "\<exists>s' merged. claims_OnRecvPacket std_claims 1050 ex_packet (ResultAck []) ex_claims = (Ok (ResultAck []), s') \<and>
     GetClaimsRecord s' ''bob'' = None \<and> GetClaimsRecord s' ''alice'' = Some merged \<and> cr_amount merged = 120"
proof -
  have e: "IsClaimsActive (cl_params ex_claims) 1050"
    "GetTransferSenderRecipient (clk_I std_claims) ex_packet = Ok (''bob'', ''alice'', ''osmo1bob'', ''evmos1alice'')"
    "''bob'' \<noteq> ''alice''" "\<not> BlockedAddr (clk_B std_claims) ''bob''" "\<not> BlockedAddr (clk_B std_claims) ''alice''"
    "IsAuthorizedChannel (cl_params ex_claims) (p_DestChannel ex_packet)"
    "GetTransferAmount (clk_I std_claims) ex_packet = Ok IBCTriggerAmt"
    "GetClaimsRecord ex_claims ''bob'' = Some \<lparr>InitialClaimableAmount = Some 80, ActionsCompleted = [False, False, False, False]\<rparr>"
    "\<not> HasClaimedAny \<lparr>InitialClaimableAmount = Some 80, ActionsCompleted = [False, False, False, False]\<rparr>"
    "GetClaimsRecord ex_claims ''alice'' = Some \<lparr>InitialClaimableAmount = Some 40, ActionsCompleted = [False, True, False, False]\<rparr>"
    by code_simp+
  show ?thesis
    using OnRecvPacket_merges [OF stdc.claims_laws_axioms ex_claims_solvent e, of "[]"] by (auto simp: cr_amount_def)
qed

text \<open>C24. Merging two records does not keep what they can claim: what the merge pays out, passes to the
  community pool and leaves claimable exceeds what the two records could claim by one coin for each action
  left open, whenever the remainders of the two amounts modulo four add up to four or more.\<close>

theorem merge_creates_unbacked_claims:
  assumes "dec_laws F" and "cr_ok cr" "cr_ok cr'" and "\<not> HasClaimedAny cr"
    and "0 < DurationOfDecay p" "DurationOfDecay p < 2 ^ 63" "IsClaimsActive p blockTime"
    and "4 \<le> cr_amount cr mod 4 + cr_amount cr' mod 4"
  shows "\<exists>c r merged. merge_actions F blockTime cr cr' p [ActionVote, ActionDelegate, ActionEVM, ActionIBCTransfer] 0 0
           (NewClaimsRecord (Some (cr_amount cr + cr_amount cr'))) = Ok (c, r, merged) \<and>
     c + r + unclaimed merged = unclaimed cr + unclaimed cr' + int (length (filter Not (ActionsCompleted merged)))"
proof -
  have "(cr_amount cr mod 4 + cr_amount cr' mod 4) div 4 = 1"
    using assms(8) pos_mod_bound [of 4 "cr_amount cr"] pos_mod_bound [of 4 "cr_amount cr'"] by linarith
  then show ?thesis
    using dec_laws.merge_actions_ok [OF assms(1-7)]
    by (elim exE conjE) (intro exI conjI, assumption, simp add: merge_gain_def del: merge_actions.simps)
qed

theorem merge_creates_unbacked_claims_witness:
  "\<exists>c r merged. merge_actions std_dec 1050 (NewClaimsRecord (Some 42)) (NewClaimsRecord (Some 43)) ex_claims_params
       [ActionVote, ActionDelegate, ActionEVM, ActionIBCTransfer] 0 0 (NewClaimsRecord (Some 85)) = Ok (c, r, merged) \<and>
     c + r + unclaimed merged = 80 + int (length (filter Not (ActionsCompleted merged)))"
proof -
  have e: "cr_ok (NewClaimsRecord (Some 42))" "cr_ok (NewClaimsRecord (Some 43))" "\<not> HasClaimedAny (NewClaimsRecord (Some 42))"
    "0 < DurationOfDecay ex_claims_params" "DurationOfDecay ex_claims_params < 2 ^ 63" "IsClaimsActive ex_claims_params 1050"
    by (simp_all add: cr_ok_def cr_amount_def NewClaimsRecord_def numActions_def HasClaimedAny_def ex_claims_params_def
        claims_DefaultParams_def IsClaimsActive_def AirdropEndTime_def)
  have u: "unclaimed (NewClaimsRecord (Some 42)) = 40" "unclaimed (NewClaimsRecord (Some 43)) = 40"
    "cr_amount (NewClaimsRecord (Some 42)) = 42" "cr_amount (NewClaimsRecord (Some 43)) = 43"
    by (simp_all add: unclaimed_def cr_amount_def NewClaimsRecord_def)
  show ?thesis
    using merge_creates_unbacked_claims [OF stdd.dec_laws_axioms e] by (simp add: u del: merge_actions.simps)
qed

text \<open>C25. Voting twice in a block claims once: repeating the hook for the same address at the same time
  changes nothing.\<close>

theorem AfterProposalVote_idempotent:
  assumes "claims_laws K reg" and "solvent K s" and "AfterProposalVote K blockTime i a s = (Ok (), s')"
  shows "AfterProposalVote K blockTime j a s' = (Ok (), s')"
proof (cases "GetClaimsRecord s a")
  case None
  then show ?thesis using assms(3) by (auto simp: AfterProposalVote_def)
next
  case (Some cr)
  note D = solventD [OF assms(2)]
  have ok: "cr_ok cr" using D(5) Some by (simp add: GetClaimsRecord_def)
  have funds: "\<not> HasClaimedAction cr ActionVote \<Longrightarrow> cr_amount cr div 4 \<le> escrow K s (ClaimsDenom (cl_params s))"
    using unclaimed_le [OF assms(2) Some [unfolded GetClaimsRecord_def]] MarkClaimed_unclaimed(2) [OF ok actions_ok(1)] by simp
  show ?thesis
  proof (rule claims_laws.claim_cases [OF assms(1) D(2) ok actions_ok(1) D(3) funds, of blockTime a])
    assume h: "ClaimCoinsForAction K blockTime a cr ActionVote (cl_params s) s = (Ok 0, s)"
    then have "s' = s" using assms(3) Some by (simp add: AfterProposalVote_def Let_def logged_def)
    then show ?thesis using h Some by (simp add: AfterProposalVote_def Let_def logged_def)
  next
    assume h: "ClaimCoinsForAction K blockTime a cr ActionVote (cl_params s) s = (Err ErrUnauthorized, s)"
    then have "s' = s" using assms(3) Some by (simp add: AfterProposalVote_def Let_def logged_def)
    then show ?thesis using h Some by (simp add: AfterProposalVote_def Let_def logged_def)
  next
    fix c x'
    assume h: "ClaimCoinsForAction K blockTime a cr ActionVote (cl_params s) s =
        (Ok c, SetClaimsRecord a (MarkClaimed ActionVote cr) (s\<lparr>cl_ext := x'\<rparr>))" "\<not> HasClaimedAction cr ActionVote"
    then have s': "s' = SetClaimsRecord a (MarkClaimed ActionVote cr) (s\<lparr>cl_ext := x'\<rparr>)"
      using assms(3) Some by (simp add: AfterProposalVote_def Let_def logged_def)
    have "GetClaimsRecord s' a = Some (MarkClaimed ActionVote cr)" "HasClaimedAction (MarkClaimed ActionVote cr) ActionVote"
      using MarkClaimed_unclaimed(3) [OF ok actions_ok(1) h(2)] by (simp_all add: s' GetClaimsRecord_def SetClaimsRecord_def kv_get_set)
    then have "ClaimCoinsForAction K blockTime a (MarkClaimed ActionVote cr) ActionVote (cl_params s') s' = (Ok 0, s')"
      by (simp add: ClaimCoinsForAction_def action_defs)
    then show ?thesis
      using \<open>GetClaimsRecord s' a = _\<close> by (simp add: AfterProposalVote_def Let_def logged_def)
  qed
qed

theorem AfterProposalVote_idempotent_witness:
  "\<exists>s'. AfterProposalVote std_claims 1050 1 ''alice'' ex_claims = (Ok (), s') \<and>
     GetBalance std_bank (cl_ext s') ''alice'' ''aevmos'' = 10 \<and> AfterProposalVote std_claims 1050 2 ''alice'' s' = (Ok (), s')"
proof -
  have "fst (AfterProposalVote std_claims 1050 1 ''alice'' ex_claims) = Ok ()"
    "GetBalance std_bank (cl_ext (snd (AfterProposalVote std_claims 1050 1 ''alice'' ex_claims))) ''alice'' ''aevmos'' = 10" by code_simp+
  then obtain s' where run: "AfterProposalVote std_claims 1050 1 ''alice'' ex_claims = (Ok (), s')"
    "GetBalance std_bank (cl_ext s') ''alice'' ''aevmos'' = 10"
    by (metis prod.collapse)
  show ?thesis using AfterProposalVote_idempotent [OF stdc.claims_laws_axioms ex_claims_solvent run(1)] run by blast
qed

definition genesis_entry :: "'x claims_keepers \<Rightarrow> claims_record_address \<Rightarrow> addr \<times> claims_record" where
  "genesis_entry K r = (the (AccAddressFromBech32 (clk_H K) (cra_Address r)),
     \<lparr>InitialClaimableAmount = cra_InitialClaimableAmount r, ActionsCompleted = cra_ActionsCompleted r\<rparr>)"

lemma init_records_entries:
  "init_records K rs n s = (Ok m, s') \<Longrightarrow>
   cl_records s' = foldl (\<lambda>t (k, v). kv_set t k v) (cl_records s) (map (genesis_entry K) rs) \<and> cl_params s' = cl_params s"
proof (induction rs arbitrary: n s)
  case (Cons r rs)
  from Cons.prems obtain a k where "AccAddressFromBech32 (clk_H K) (cra_Address r) = Some a" "cra_InitialClaimableAmount r = Some k"
    "init_records K rs (add_unclaimed (Int_Quo k 4) (cra_ActionsCompleted r) n)
       (SetClaimsRecord a \<lparr>InitialClaimableAmount = Some k, ActionsCompleted = cra_ActionsCompleted r\<rparr> s) = (Ok m, s')"
    by (auto simp: Let_def split: option.splits if_splits)
  then show ?case using Cons.IH by (simp add: genesis_entry_def SetClaimsRecord_def)
qed simp

lemma kv_of_distinct:
  assumes "distinct (map fst kvs)"
  shows "set (foldl (\<lambda>t (k, v). kv_set t k v) [] kvs) = set kvs"
proof -
  let ?s = "foldl (\<lambda>t (k, v). kv_set t k v) [] kvs"
  have ok: "kv_ok ?s" by (rule kv.ok_foldl_put) simp
  have "map_of (rev kvs) = map_of kvs"
    using map_of_inject_set [of "rev kvs" kvs] assms by (simp add: rev_map [symmetric])
  then have "kv_get ?s k = map_of kvs k" for k
    using kv.get_foldl_put [of "[]" kvs k] by (auto simp: kv_get_def split: option.splits)
  then have "(k, v) \<in> set ?s \<longleftrightarrow> (k, v) \<in> set kvs" for k v
    using kv_get_mem [OF ok, of k v] assms by simp
  then show ?thesis by auto
qed

text \<open>C26. Exporting right after the start gives back the genesis: the same records, each exactly once, and
  the parameters, with the start time filled in where it was zero.\<close>

theorem claims_genesis_roundtrip:
  assumes "claims_InitGenesis K blockTime g s0 = (Ok (), s)" and "cl_records s0 = []"
    and "\<And>r. r \<in> set (cg_ClaimsRecords g) \<Longrightarrow>
           map_option (acc_String (clk_H K)) (AccAddressFromBech32 (clk_H K) (cra_Address r)) = Some (cra_Address r)"
    and "distinct (map cra_Address (cg_ClaimsRecords g))"
  shows "set (cg_ClaimsRecords (claims_ExportGenesis K s)) = set (cg_ClaimsRecords g) \<and>
    distinct (map cra_Address (cg_ClaimsRecords (claims_ExportGenesis K s))) \<and>
    cg_Params (claims_ExportGenesis K s) =
      (if AirdropStartTime (cg_Params g) = zero_time then (cg_Params g)\<lparr>AirdropStartTime := blockTime\<rparr> else cg_Params g)"
proof -
  let ?rs = "cg_ClaimsRecords g" and ?kvs = "map (genesis_entry K) (cg_ClaimsRecords g)"
  define p where "p = (if AirdropStartTime (cg_Params g) = zero_time then (cg_Params g)\<lparr>AirdropStartTime := blockTime\<rparr> else cg_Params g)"
  obtain m where i: "init_records K ?rs 0 (cl_SetParams p s0) = (Ok m, s)"
    using assms(1) unfolding claims_InitGenesis_def Let_def
    by (auto simp: bindS_Ok_iff p_def [symmetric] split: if_splits)
  have s: "cl_records s = foldl (\<lambda>t (k, v). kv_set t k v) [] ?kvs" "cl_params s = p"
    using init_records_entries [OF i] assms(2) by (simp_all add: cl_SetParams_def)
  have str: "acc_String (clk_H K) (fst (genesis_entry K r)) = cra_Address r" if "r \<in> set ?rs" for r
    using assms(3) [OF that] by (auto simp: genesis_entry_def)
  have "inj_on (\<lambda>r. fst (genesis_entry K r)) (set ?rs)"
    using str assms(4) by (auto simp: inj_on_def distinct_map) metis
  then have dist: "distinct (map fst ?kvs)"
    using assms(4) by (simp add: distinct_map comp_def)
  note set_s = kv_of_distinct [OF dist, folded s(1)]
  have entry: "(case genesis_entry K r of (a, cr) \<Rightarrow> \<lparr>cra_Address = acc_String (clk_H K) a,
      cra_InitialClaimableAmount = InitialClaimableAmount cr, cra_ActionsCompleted = ActionsCompleted cr\<rparr>) = r" if "r \<in> set ?rs" for r
    using str [OF that] by (simp add: genesis_entry_def)
  have ok: "kv_ok (cl_records s)" unfolding s(1) by (rule kv.ok_foldl_put) simp
  have "distinct (map (\<lambda>e. acc_String (clk_H K) (fst e)) (cl_records s))"
  proof -
    have "inj_on (\<lambda>e. acc_String (clk_H K) (fst e)) (set (cl_records s))"
      unfolding set_s using str assms(4) by (auto simp: inj_on_def distinct_map)
    moreover have "distinct (cl_records s)" using kv_ok_distinct [OF ok] by (simp add: distinct_map)
    ultimately show ?thesis by (simp add: distinct_map)
  qed
  moreover have "set (GetClaimsRecords (clk_H K) s) = set ?rs"
    unfolding GetClaimsRecords_def set_map set_s image_image using entry by simp
  ultimately show ?thesis
    by (simp add: claims_ExportGenesis_def s(2) p_def GetClaimsRecords_def comp_def case_prod_unfold)
qed

theorem claims_genesis_roundtrip_witness:
  "set (cg_ClaimsRecords (claims_ExportGenesis std_claims ex_claims)) = set (cg_ClaimsRecords ex_claims_genesis)"
proof -
  have "map_option (acc_String (clk_H std_claims)) (AccAddressFromBech32 (clk_H std_claims) (cra_Address r)) = Some (cra_Address r)"
    if "r \<in> set (cg_ClaimsRecords ex_claims_genesis)" for r
    using that by (auto simp: ex_claims_genesis_def std_claims_def std_bech32_def)
  then show ?thesis
    using claims_genesis_roundtrip [OF ex_claims_init] by (simp add: ex_claims0_def ex_claims_genesis_def)
qed

end
