(* ===== verification/Evm_Keeper.thy ===== *)
theory Evm_Keeper
  imports Evmos_Utils
begin

text \<open>
  What the modules use of go-ethereum and of ethermint's EVM module: addresses and their hexadecimal
  form, the ABI codec of a contract, and the calls of the EVM keeper.  None of this code is part of
  the repository: it is a record of operations, and the locale \<open>eth_laws\<close> names what the modules rely
  on of addresses.  \<open>std_eth\<close> is an executable instance with 20-byte addresses whose text is \<open>0x\<close> followed
  by two characters for each byte.
  The last part pairs the state of the SDK keepers with the state of an EVM, so that bank operations
  leave the EVM alone by construction.
\<close>

section \<open>Addresses and hashes\<close>

record eth_ops =
  IsHexAddress :: "string \<Rightarrow> bool"
  HexToAddress :: "string \<Rightarrow> addr"
  addr_Hex :: "addr \<Rightarrow> string"
  ValidateAddress :: "string \<Rightarrow> bool"
  ValidateNonZeroAddress :: "string \<Rightarrow> bool"
  BytesToAddress :: "bytes \<Rightarrow> addr"
  CreateAddress :: "addr \<Rightarrow> int \<Rightarrow> addr"
  tm_Sum :: "bytes \<Rightarrow> bytes"
  Keccak256Hex :: "bytes \<Rightarrow> string"

text \<open>
  An address has 20 bytes; reading the hexadecimal form of an address gives the address back;
  \<open>ethermint.ValidateAddress\<close> accepts exactly what \<open>common.IsHexAddress\<close> accepts; a hash is not empty.
\<close>

locale eth_laws =
  fixes E :: eth_ops
  assumes Hex_inv: "length a = 20 \<Longrightarrow> HexToAddress E (addr_Hex E a) = a"
    and Hex_IsHex: "length a = 20 \<Longrightarrow> IsHexAddress E (addr_Hex E a)"
    and HexTo_len: "length (HexToAddress E s) = 20"
    and IsHex_bar: "IsHexAddress E s \<Longrightarrow> CHR ''|'' \<notin> set s"
    and ValidateAddress_iff: "ValidateAddress E s \<longleftrightarrow> IsHexAddress E s"
    and NonZero_valid: "ValidateNonZeroAddress E s \<Longrightarrow> IsHexAddress E s"
    and BytesTo_len: "length (BytesToAddress E b) = 20"
    and BytesTo_id: "length b = 20 \<Longrightarrow> BytesToAddress E b = b"
    and Create_len: "length (CreateAddress E a n) = 20"
    and Sum_nonempty: "tm_Sum E b \<noteq> []"
begin

lemma Hex_inj: "length a = 20 \<Longrightarrow> length b = 20 \<Longrightarrow> addr_Hex E a = addr_Hex E b \<longleftrightarrow> a = b"
  by (metis Hex_inv)

end

subsection \<open>An executable instance\<close>

definition std_BytesToAddress :: "bytes \<Rightarrow> addr" where
  "std_BytesToAddress b =
     (if length b > 20 then drop (length b - 20) b else replicate (20 - length b) (CHR 0x00) @ b)"

fun text_encode :: "bytes \<Rightarrow> string" where
  "text_encode [] = []"
| "text_encode (c # cs) = (if c = CHR ''|'' then ''01'' else [c, CHR ''0'']) @ text_encode cs"

fun text_decode :: "string \<Rightarrow> bytes" where
  "text_decode (a # b # cs) = (if b = CHR ''1'' then CHR ''|'' else a) # text_decode cs"
| "text_decode _ = []"

definition std_IsHexAddress :: "string \<Rightarrow> bool" where
  "std_IsHexAddress s \<longleftrightarrow> length s = 42 \<and> take 2 s = ''0x'' \<and> CHR ''|'' \<notin> set s"

definition std_eth :: eth_ops where
  "std_eth =
     \<lparr>IsHexAddress = std_IsHexAddress,
      HexToAddress = (\<lambda>s. std_BytesToAddress (text_decode (drop 2 s))),
      addr_Hex = (\<lambda>a. ''0x'' @ text_encode a),
      ValidateAddress = std_IsHexAddress,
      ValidateNonZeroAddress = (\<lambda>s. std_IsHexAddress s \<and> std_BytesToAddress (text_decode (drop 2 s)) \<noteq> replicate 20 (CHR 0x00)),
      BytesToAddress = std_BytesToAddress,
      CreateAddress = (\<lambda>a n. std_BytesToAddress (a @ [char_of (nat n)])),
      tm_Sum = (\<lambda>b. CHR ''#'' # rev b),
      Keccak256Hex = (\<lambda>b. ''0x'' @ b)\<rparr>"

lemma text_decode_encode: "text_decode (text_encode a) = a"
  by (induction a) auto

lemma length_text_encode: "length (text_encode a) = 2 * length a"
  by (induction a) auto

lemma bar_text_encode: "CHR ''|'' \<notin> set (text_encode a)"
  by (induction a) auto

lemma length_std_BytesToAddress: "length (std_BytesToAddress b) = 20"
  by (simp add: std_BytesToAddress_def)

interpretation stde: eth_laws std_eth
proof
  show "length a = 20 \<Longrightarrow> HexToAddress std_eth (addr_Hex std_eth a) = a" for a
    by (simp add: std_eth_def text_decode_encode std_BytesToAddress_def)
  show "length a = 20 \<Longrightarrow> IsHexAddress std_eth (addr_Hex std_eth a)" for a
    by (simp add: std_eth_def std_IsHexAddress_def length_text_encode bar_text_encode)
qed (simp_all add: std_eth_def std_IsHexAddress_def length_std_BytesToAddress std_BytesToAddress_def)

section \<open>The ABI of a contract and the EVM keeper\<close>

datatype abi_val = VAddr addr | VInt int | VBool bool | VString string | VUint8 int

record abi_ops =
  abi_Bin :: bytes
  abi_Pack :: "string \<Rightarrow> abi_val list \<Rightarrow> bytes option"
  abi_Unpack :: "string \<Rightarrow> bytes \<Rightarrow> abi_val list option"
  abi_UnpackBool :: "string \<Rightarrow> bytes \<Rightarrow> bool option"
  abi_UnpackString :: "string \<Rightarrow> bytes \<Rightarrow> string option"
  abi_UnpackUint8 :: "string \<Rightarrow> bytes \<Rightarrow> int option"
  abi_EventByID :: "bytes \<Rightarrow> string option"

record evm_log =
  log_Address :: addr
  log_Topics :: "bytes list"
  log_Data :: bytes

record eth_msg =
  em_From :: addr
  em_To :: "addr option"
  em_Nonce :: int
  em_Amount :: int
  em_GasLimit :: int
  em_GasFeeCap :: int
  em_GasTipCap :: int
  em_GasPrice :: int
  em_Data :: bytes
  em_IsFake :: bool

record evm_res =
  res_Failed :: bool
  res_Ret :: bytes
  res_Logs :: "evm_log list"

text \<open>
  \<open>evm_IsContract\<close> is \<open>IsContract\<close> of \<open>GetAccountWithoutBalance\<close>, \<open>None\<close> where there is no account;
  \<open>evm_MarshalArgs\<close> is the JSON form of the \<open>TransactionArgs\<close> that a gas estimate takes.
\<close>

record 'x evm_ops =
  GetSequence :: "'x \<Rightarrow> addr \<Rightarrow> int outcome"
  DefaultGasCap :: int
  evm_MarshalArgs :: "addr \<Rightarrow> addr option \<Rightarrow> bytes \<Rightarrow> bytes option"
  EstimateGas :: "'x \<Rightarrow> bytes \<Rightarrow> int \<Rightarrow> int outcome"
  ApplyMessage :: "eth_msg \<Rightarrow> bool \<Rightarrow> ('x, evm_res) cmd"
  evm_IsContract :: "'x \<Rightarrow> addr \<Rightarrow> bool option"
  EvmDenom :: "'x \<Rightarrow> denom"

section \<open>Pairing the SDK's state with an EVM\<close>

definition on_fst :: "('x, 'a) cmd \<Rightarrow> ('x \<times> 'e, 'a) cmd" where
  "on_fst m = (\<lambda>(x, e). case m x of (r, x') \<Rightarrow> (r, (x', e)))"

definition pair_accounts :: "'x account_ops \<Rightarrow> ('x \<times> 'e) account_ops" where
  "pair_accounts A =
     \<lparr>GetAccount = (\<lambda>w. GetAccount A (fst w)), SetAccount = (\<lambda>acc (x, e). (SetAccount A acc x, e)),
      NewAccount = (\<lambda>acc (x, e). case NewAccount A acc x of (acc', x') \<Rightarrow> (acc', (x', e))),
      GetModuleAddress = GetModuleAddress A\<rparr>"

definition pair_bank :: "'x bank_ops \<Rightarrow> ('x \<times> 'e) bank_ops" where
  "pair_bank B =
     \<lparr>GetBalance = (\<lambda>w. GetBalance B (fst w)), GetAllBalances = (\<lambda>w. GetAllBalances B (fst w)),
      GetSupply = (\<lambda>w. GetSupply B (fst w)), SendCoins = (\<lambda>a b c. on_fst (SendCoins B a b c)),
      SendCoinsFromModuleToAccount = (\<lambda>m b c. on_fst (SendCoinsFromModuleToAccount B m b c)),
      SendCoinsFromModuleToModule = (\<lambda>m n c. on_fst (SendCoinsFromModuleToModule B m n c)),
      SendCoinsFromAccountToModule = (\<lambda>a m c. on_fst (SendCoinsFromAccountToModule B a m c)),
      MintCoins = (\<lambda>m c. on_fst (MintCoins B m c)), BurnCoins = (\<lambda>m c. on_fst (BurnCoins B m c)),
      BlockedAddr = BlockedAddr B\<rparr>"

definition pair_distr :: "'x distr_ops \<Rightarrow> ('x \<times> 'e) distr_ops" where
  "pair_distr D = \<lparr>FundCommunityPool = (\<lambda>c a. on_fst (FundCommunityPool D c a))\<rparr>"

lemma on_fst_iff: "on_fst m w = (r, w') \<longleftrightarrow> m (fst w) = (r, fst w') \<and> snd w' = snd w"
  by (cases w; cases w') (auto simp: on_fst_def split: prod.splits)

lemma on_fst_ex: "(\<exists>w'. on_fst m w = (r, w')) \<longleftrightarrow> (\<exists>x'. m (fst w) = (r, x'))"
  by (cases w) (auto simp: on_fst_def split: prod.splits)

lemma pair_sel [simp]:
  "GetAccount (pair_accounts A) w = GetAccount A (fst w)"
  "SetAccount (pair_accounts A) acc w = (SetAccount A acc (fst w), snd w)"
  "NewAccount (pair_accounts A) acc w = (case NewAccount A acc (fst w) of (acc', x') \<Rightarrow> (acc', (x', snd w)))"
  "GetModuleAddress (pair_accounts A) = GetModuleAddress A"
  "GetBalance (pair_bank B) w = GetBalance B (fst w)"
  "GetAllBalances (pair_bank B) w = GetAllBalances B (fst w)"
  "GetSupply (pair_bank B) w = GetSupply B (fst w)"
  "SendCoins (pair_bank B) a b c = on_fst (SendCoins B a b c)"
  "SendCoinsFromModuleToAccount (pair_bank B) m b c = on_fst (SendCoinsFromModuleToAccount B m b c)"
  "SendCoinsFromModuleToModule (pair_bank B) m n c = on_fst (SendCoinsFromModuleToModule B m n c)"
  "SendCoinsFromAccountToModule (pair_bank B) a m c = on_fst (SendCoinsFromAccountToModule B a m c)"
  "MintCoins (pair_bank B) m c = on_fst (MintCoins B m c)"
  "BurnCoins (pair_bank B) m c = on_fst (BurnCoins B m c)"
  "BlockedAddr (pair_bank B) = BlockedAddr B"
  "FundCommunityPool (pair_distr D) c a = on_fst (FundCommunityPool D c a)"
  by (auto simp: pair_accounts_def pair_bank_def pair_distr_def split: prod.splits)

lemma pair_moved: "moved C (pair_bank B) a b c w w' \<longleftrightarrow> moved C B a b c (fst w) (fst w')"
  by (simp add: moved_def)

context keeper_laws
begin

lemma pair_keeper_laws: "keeper_laws C (pair_accounts A) (pair_bank B) (pair_distr D) registered"
proof
  fix c a b x u x' m n d
  show "valid c \<Longrightarrow> SendCoins (pair_bank B) a b c x = (Ok u, x') \<Longrightarrow> moved C (pair_bank B) a b c x x'"
    by (simp add: pair_moved on_fst_iff SendCoins_moved)
  show "valid c \<Longrightarrow> SendCoinsFromModuleToAccount (pair_bank B) m b c x = (Ok u, x') \<Longrightarrow>
      moved C (pair_bank B) (GetModuleAddress (pair_accounts A) m) b c x x'"
    by (simp add: pair_moved on_fst_iff ModuleToAccount_moved)
  show "valid c \<Longrightarrow> SendCoinsFromModuleToModule (pair_bank B) m n c x = (Ok u, x') \<Longrightarrow>
      moved C (pair_bank B) (GetModuleAddress (pair_accounts A) m) (GetModuleAddress (pair_accounts A) n) c x x'"
    by (simp add: pair_moved on_fst_iff ModuleToModule_moved)
  show "valid c \<Longrightarrow> SendCoinsFromAccountToModule (pair_bank B) a m c x = (Ok u, x') \<Longrightarrow>
      moved C (pair_bank B) a (GetModuleAddress (pair_accounts A) m) c x x'"
    by (simp add: pair_moved on_fst_iff AccountToModule_moved)
  show "m \<in> registered \<Longrightarrow> valid c \<Longrightarrow> \<not> BlockedAddr (pair_bank B) b \<Longrightarrow>
      (\<And>d. amt c d \<le> GetBalance (pair_bank B) x (GetModuleAddress (pair_accounts A) m) d) \<Longrightarrow>
      \<exists>x'. SendCoinsFromModuleToAccount (pair_bank B) m b c x = (Ok (), x')"
    by (simp only: pair_sel on_fst_ex) (rule ModuleToAccount_ok)
  show "BlockedAddr (pair_bank B) b \<Longrightarrow> SendCoinsFromModuleToAccount (pair_bank B) m b c x = (Err ErrUnauthorized, x)"
    by (simp add: on_fst_iff ModuleToAccount_blocked)
  show "SendCoinsFromModuleToAccount (pair_bank B) m b c x = (Ok u, x') \<Longrightarrow> valid c"
    by (simp only: pair_sel on_fst_iff) (metis ModuleToAccount_valid)
  show "SendCoinsFromAccountToModule (pair_bank B) a m c x = (Ok u, x') \<Longrightarrow> valid c"
    by (simp only: pair_sel on_fst_iff) (metis AccountToModule_valid)
  show "MintCoins (pair_bank B) m c x = (Ok u, x') \<Longrightarrow> valid c"
    by (simp only: pair_sel on_fst_iff) (metis Mint_valid)
  show "BurnCoins (pair_bank B) m c x = (Ok u, x') \<Longrightarrow> valid c"
    by (simp only: pair_sel on_fst_iff) (metis Burn_valid)
  show "m \<in> registered \<Longrightarrow> fst (SendCoinsFromModuleToAccount (pair_bank B) m b c x) \<noteq> Panic"
    using ModuleToAccount_no_panic [of m b c "fst x"] by (cases x) (auto simp: on_fst_def split: prod.splits)
  show "m \<in> registered \<Longrightarrow> \<not> valid c \<Longrightarrow> \<not> BlockedAddr (pair_bank B) b \<Longrightarrow>
      SendCoinsFromModuleToAccount (pair_bank B) m b c x = (Err ErrInvalidCoins, x)"
    by (simp add: on_fst_iff ModuleToAccount_invalid)
  show "m \<in> registered \<Longrightarrow> n \<in> registered \<Longrightarrow> valid c \<Longrightarrow>
      (\<And>d. amt c d \<le> GetBalance (pair_bank B) x (GetModuleAddress (pair_accounts A) m) d) \<Longrightarrow>
      \<exists>x'. SendCoinsFromModuleToModule (pair_bank B) m n c x = (Ok (), x')"
    by (simp only: pair_sel on_fst_ex) (rule ModuleToModule_ok)
  show "valid c \<Longrightarrow> MintCoins (pair_bank B) m c x = (Ok u, x') \<Longrightarrow>
      GetBalance (pair_bank B) x' a d = GetBalance (pair_bank B) x a d
        + (if a = GetModuleAddress (pair_accounts A) m then amt c d else 0)"
    by (simp only: pair_sel on_fst_iff Mint_balance)
  show "valid c \<Longrightarrow> MintCoins (pair_bank B) m c x = (Ok u, x') \<Longrightarrow>
      GetSupply (pair_bank B) x' d = GetSupply (pair_bank B) x d + amt c d"
    by (simp only: pair_sel on_fst_iff) (metis Mint_supply)
  show "valid c \<Longrightarrow> BurnCoins (pair_bank B) m c x = (Ok u, x') \<Longrightarrow>
      GetBalance (pair_bank B) x' a d = GetBalance (pair_bank B) x a d
        - (if a = GetModuleAddress (pair_accounts A) m then amt c d else 0)"
    by (simp only: pair_sel on_fst_iff Burn_balance)
  show "valid c \<Longrightarrow> BurnCoins (pair_bank B) m c x = (Ok u, x') \<Longrightarrow>
      GetSupply (pair_bank B) x' d = GetSupply (pair_bank B) x d - amt c d"
    by (simp only: pair_sel on_fst_iff) (metis Burn_supply)
  show "valid c \<Longrightarrow> FundCommunityPool (pair_distr D) c a x = (Ok u, x') \<Longrightarrow>
      moved C (pair_bank B) a (GetModuleAddress (pair_accounts A) ''distribution'') c x x'"
    by (simp add: pair_moved on_fst_iff Fund_moved)
  show "m \<in> registered \<Longrightarrow> a = GetModuleAddress (pair_accounts A) m \<Longrightarrow> valid c \<Longrightarrow>
      (\<And>d. amt c d \<le> GetBalance (pair_bank B) x a d) \<Longrightarrow> \<exists>x'. FundCommunityPool (pair_distr D) c a x = (Ok (), x')"
    by (simp only: pair_sel on_fst_ex) (rule Fund_ok [of m], simp_all)
  show "FundCommunityPool (pair_distr D) [k] a x = (Err e, x') \<Longrightarrow> x' = x" for k e
    by (simp only: pair_sel on_fst_iff) (metis Fund_err prod.collapse)
  show "GetAccount (pair_accounts A) (SetAccount (pair_accounts A) acc x) a =
      (if a = account_address acc then Some acc else GetAccount (pair_accounts A) x a)" for acc
    by (simp add: GetAccount_SetAccount)
  show "GetModuleAddress (pair_accounts A) m = GetModuleAddress (pair_accounts A) n \<Longrightarrow> m = n"
    by (simp add: module_inj)
  show "(\<And>d. 0 \<le> GetBalance (pair_bank B) x a d) \<Longrightarrow> valid (GetAllBalances (pair_bank B) x a) \<and>
      (\<forall>d. amt (GetAllBalances (pair_bank B) x a) d = GetBalance (pair_bank B) x a d)"
    by (simp only: pair_sel) (rule GetAllBalances_amount)
  show "GetBalance (pair_bank B) (SetAccount (pair_accounts A) acc x) = GetBalance (pair_bank B) x"
    "GetSupply (pair_bank B) (SetAccount (pair_accounts A) acc x) = GetSupply (pair_bank B) x" for acc
    by (simp_all add: SetAccount_balance)
  show "NewAccount (pair_accounts A) (ClawbackAcc va) x = (acc, x') \<Longrightarrow>
      (\<exists>n. acc = ClawbackAcc (va\<lparr>BVA := (BVA va)\<lparr>BaseAccount := (BaseAccount (BVA va))\<lparr>acc_Number := n\<rparr>\<rparr>\<rparr>)) \<and>
      GetAccount (pair_accounts A) x' = GetAccount (pair_accounts A) x \<and>
      GetBalance (pair_bank B) x' = GetBalance (pair_bank B) x \<and> GetSupply (pair_bank B) x' = GetSupply (pair_bank B) x" for va acc
    using NewAccount_clawback [of va "fst x"] by (auto split: prod.splits)
  show "SendCoins (pair_bank B) a b c x = (Ok u, x') \<Longrightarrow> GetAccount (pair_accounts A) x z = Some acc \<Longrightarrow>
      GetAccount (pair_accounts A) x' z = Some acc" for z acc
    by (simp only: pair_sel on_fst_iff) (metis SendCoins_accounts)
qed

end

interpretation stdp: keeper_laws std_coins "pair_accounts std_accounts" "pair_bank std_bank" "pair_distr std_distr" UNIV
  by (rule stdk.pair_keeper_laws)

end
