(* ===== verification/Erc20_Types.thy ===== *)
theory Erc20_Types
  imports Evm_Keeper
begin

text \<open>
  \<open>x/erc20/types\<close>: token pairs, the sanitised name of a token, the comparison of bank metadata, the
  stateless checks of messages and governance proposals, parameters and genesis validation.  Bank
  metadata is the SDK's record; its own validation, \<open>ValidateIBCDenom\<close> and \<open>ValidateAbstract\<close> are
  library code and parameters.
\<close>

section \<open>Token pairs\<close>

datatype owner = OWNER_UNSPECIFIED | OWNER_MODULE | OWNER_EXTERNAL

record token_pair =
  Erc20Address :: string
  tp_Denom :: denom
  Enabled :: bool
  ContractOwner :: owner

definition NewTokenPair :: "eth_ops \<Rightarrow> addr \<Rightarrow> denom \<Rightarrow> bool \<Rightarrow> owner \<Rightarrow> token_pair" where
  "NewTokenPair E erc20Address denom enabled contractOwner =
     \<lparr>Erc20Address = addr_Hex E erc20Address, tp_Denom = denom, Enabled = True, ContractOwner = contractOwner\<rparr>"

definition GetID :: "eth_ops \<Rightarrow> token_pair \<Rightarrow> bytes" where
  "GetID E tp = tm_Sum E (Erc20Address tp @ ''|'' @ tp_Denom tp)"

definition GetERC20Contract :: "eth_ops \<Rightarrow> token_pair \<Rightarrow> addr" where
  "GetERC20Contract E tp = HexToAddress E (Erc20Address tp)"

definition tp_Validate :: "coins_ops \<Rightarrow> eth_ops \<Rightarrow> token_pair \<Rightarrow> unit outcome" where
  "tp_Validate C E tp =
     (if \<not> coins_ValidDenom C (tp_Denom tp) then Err (ErrExt ''ValidateDenom'') else
      if \<not> ValidateAddress E (Erc20Address tp) then Err (ErrExt ''ValidateAddress'') else Ok ())"

definition IsNativeCoin :: "token_pair \<Rightarrow> bool" where
  "IsNativeCoin tp \<longleftrightarrow> ContractOwner tp = OWNER_MODULE"

definition IsNativeERC20 :: "token_pair \<Rightarrow> bool" where
  "IsNativeERC20 tp \<longleftrightarrow> ContractOwner tp = OWNER_EXTERNAL"

section \<open>Names\<close>

definition is_digit :: "char \<Rightarrow> bool" where
  "is_digit c \<longleftrightarrow> 48 \<le> (of_char c :: nat) \<and> (of_char c :: nat) \<le> 57"

definition is_letter :: "char \<Rightarrow> bool" where
  "is_letter c \<longleftrightarrow> 65 \<le> (of_char c :: nat) \<and> (of_char c :: nat) \<le> 90 \<or> 97 \<le> (of_char c :: nat) \<and> (of_char c :: nat) \<le> 122"

definition denom_char :: "char \<Rightarrow> bool" where
  "denom_char c \<longleftrightarrow> is_letter c \<or> is_digit c \<or> c = CHR ''/'' \<or> c = CHR ''-''"

text \<open>
  \<open>(?m)^(\d+)\<close> matches the digits at the start of every line; the flag says whether the text read so
  far on the line is empty but for removed digits.
\<close>

fun drop_numbers :: "bool \<Rightarrow> string \<Rightarrow> string" where
  "drop_numbers start [] = []"
| "drop_numbers start (c # cs) =
     (if start \<and> is_digit c then drop_numbers True cs else c # drop_numbers (c = CHR 0x0A) cs)"

definition removeLeadingNumbers :: "string \<Rightarrow> string" where
  "removeLeadingNumbers str = drop_numbers True str"

text \<open>
  \<open>^[^A-Za-z]|[^a-zA-Z0-9/-]\<close>: the first character goes unless it is a letter, any other character
  goes unless it may occur in a denomination.  Every byte of a multi-byte character goes.
\<close>

fun removeSpecialChars :: "string \<Rightarrow> string" where
  "removeSpecialChars [] = []"
| "removeSpecialChars (c # cs) = (if is_letter c then [c] else []) @ filter denom_char cs"

lemma HasPrefix_length: "HasPrefix s p \<Longrightarrow> length p \<le> length s"
  unfolding HasPrefix_def by (metis length_take min.cobounded1)

function removeInvalidPrefixes :: "string \<Rightarrow> string" where
  "removeInvalidPrefixes str =
     (if HasPrefix str ''ibc/'' then removeInvalidPrefixes (drop 4 str)
      else if HasPrefix str ''erc20/'' then removeInvalidPrefixes (drop 6 str) else str)"
  by pat_completeness auto

termination
  by (relation "measure length") (auto dest: HasPrefix_length)

declare removeInvalidPrefixes.simps [simp del]

definition SanitizeERC20Name :: "string \<Rightarrow> string" where
  "SanitizeERC20Name name =
     (let name = removeLeadingNumbers name;
          name = removeSpecialChars name;
          name = (if length name > 128 then take 128 name else name)
      in removeInvalidPrefixes name)"

section \<open>Metadata\<close>

record denom_unit =
  du_Denom :: denom
  du_Exponent :: int
  du_Aliases :: "string list"

record metadata =
  md_Description :: string
  md_DenomUnits :: "denom_unit list"
  md_Base :: denom
  md_Display :: string
  md_Name :: string
  md_Symbol :: string

fun string_slices :: "string list \<Rightarrow> string list \<Rightarrow> bool" where
  "string_slices (a # as) (b # bs) = (if a \<noteq> b then False else string_slices as bs)"
| "string_slices _ _ = True"

definition EqualStringSlice :: "string list \<Rightarrow> string list \<Rightarrow> bool" where
  "EqualStringSlice aliasesA aliasesB =
     (if length aliasesA \<noteq> length aliasesB then False else string_slices aliasesA aliasesB)"

fun equal_units :: "denom_unit list \<Rightarrow> denom_unit list \<Rightarrow> bool" where
  "equal_units (v # vs) (w # ws) =
     (if du_Exponent v \<noteq> du_Exponent w \<or> du_Denom v \<noteq> du_Denom w \<or> \<not> EqualStringSlice (du_Aliases v) (du_Aliases w)
      then False else equal_units vs ws)"
| "equal_units _ _ = True"

definition EqualMetadata :: "metadata \<Rightarrow> metadata \<Rightarrow> unit outcome" where
  "EqualMetadata a b =
     (if md_Base a = md_Base b \<and> md_Description a = md_Description b \<and> md_Display a = md_Display b \<and>
         md_Name a = md_Name b \<and> md_Symbol a = md_Symbol b then
        if length (md_DenomUnits a) \<noteq> length (md_DenomUnits b)
        then Err (ErrPlain ''metadata provided has different denom units from stored'') else
        if \<not> equal_units (md_DenomUnits a) (md_DenomUnits b)
        then Err (ErrPlain ''metadata provided has different denom unit from stored'') else Ok ()
      else Err (ErrPlain ''metadata provided is different from stored''))"

section \<open>Proposals\<close>

record erc20_checks =
  ValidateAbstract :: "string \<Rightarrow> string \<Rightarrow> bool"
  ValidateIBCDenom :: "string \<Rightarrow> bool"
  md_Validate :: "metadata \<Rightarrow> bool"

definition erc20_ModuleName :: string where "erc20_ModuleName = ''erc20''"

definition CreateDenomDescription :: "string \<Rightarrow> string" where
  "CreateDenomDescription address = ''Cosmos coin token representation of '' @ address"

definition CreateDenom :: "string \<Rightarrow> string" where
  "CreateDenom address = erc20_ModuleName @ ''/'' @ address"

text \<open>\<open>strings.SplitN(s, "/", 2)\<close>\<close>

definition SplitN2 :: "string \<Rightarrow> string list" where
  "SplitN2 s = (let p = takeWhile (\<lambda>c. c \<noteq> CHR ''/'') s in if p = s then [s] else [p, drop (length p + 1) s])"

definition validateIBCVoucherMetadata :: "metadata \<Rightarrow> unit outcome" where
  "validateIBCVoucherMetadata metadata =
     (let denomSplit = SplitN2 (md_Base metadata) in
      if denomSplit ! 0 = md_Base metadata \<and> \<not> blank (md_Base metadata) then Ok () else
      if length denomSplit \<noteq> 2 \<or> denomSplit ! 0 \<noteq> ''ibc'' then Err (ErrPlain ''invalid metadata'') else Ok ())"

definition ValidateErc20Denom :: "eth_ops \<Rightarrow> string \<Rightarrow> unit outcome" where
  "ValidateErc20Denom E denom =
     (let denomSplit = SplitN2 denom in
      if length denomSplit \<noteq> 2 \<or> denomSplit ! 0 \<noteq> erc20_ModuleName then Err (ErrPlain ''invalid denom'') else
      if \<not> ValidateAddress E (denomSplit ! 1) then Err (ErrExt ''ValidateAddress'') else Ok ())"

datatype erc20_proposal =
    RegisterCoinProposal string string metadata
  | RegisterERC20Proposal string string string
  | ToggleTokenConversionProposal string string string

fun erc20_proposal_ValidateBasic :: "coins_ops \<Rightarrow> eth_ops \<Rightarrow> erc20_checks \<Rightarrow> erc20_proposal \<Rightarrow> unit outcome" where
  "erc20_proposal_ValidateBasic C E V (RegisterCoinProposal title description metadata) =
     (if \<not> md_Validate V metadata then Err (ErrExt ''Metadata.Validate'') else
      if \<not> ValidateIBCDenom V (md_Base metadata) then Err (ErrExt ''ValidateIBCDenom'') else
      bindO (validateIBCVoucherMetadata metadata) (\<lambda>_.
      if \<not> ValidateAbstract V title description then Err (ErrExt ''ValidateAbstract'') else Ok ()))"
| "erc20_proposal_ValidateBasic C E V (RegisterERC20Proposal title description erc20Address) =
     (if \<not> ValidateAddress E erc20Address then Err (ErrExt ''ValidateAddress'') else
      if \<not> ValidateAbstract V title description then Err (ErrExt ''ValidateAbstract'') else Ok ())"
| "erc20_proposal_ValidateBasic C E V (ToggleTokenConversionProposal title description token) =
     (if \<not> ValidateAddress E token \<and> \<not> coins_ValidDenom C token then Err (ErrExt ''ValidateDenom'') else
      if \<not> ValidateAbstract V title description then Err (ErrExt ''ValidateAbstract'') else Ok ())"

section \<open>Messages\<close>

record msg_convert_coin =
  cc_Coin :: coin
  cc_Receiver :: string
  cc_Sender :: string

record msg_convert_erc20 =
  ce_ContractAddress :: string
  ce_Amount :: int
  ce_Receiver :: string
  ce_Sender :: string

definition MsgConvertCoin_ValidateBasic ::
  "eth_ops \<Rightarrow> bech32_ops \<Rightarrow> erc20_checks \<Rightarrow> msg_convert_coin \<Rightarrow> unit outcome" where
  "MsgConvertCoin_ValidateBasic E H V msg =
     (if ValidateErc20Denom E (Denom (cc_Coin msg)) \<noteq> Ok () \<and> \<not> ValidateIBCDenom V (Denom (cc_Coin msg))
      then Err (ErrExt ''ValidateIBCDenom'') else
      if \<not> Amt (cc_Coin msg) > 0 then Err ErrInvalidCoins else
      if AccAddressFromBech32 H (cc_Sender msg) = None then Err (ErrExt ''AccAddressFromBech32'') else
      if \<not> IsHexAddress E (cc_Receiver msg) then Err ErrInvalidAddress else Ok ())"

definition MsgConvertERC20_ValidateBasic ::
  "eth_ops \<Rightarrow> bech32_ops \<Rightarrow> msg_convert_erc20 \<Rightarrow> unit outcome" where
  "MsgConvertERC20_ValidateBasic E H msg =
     (if \<not> IsHexAddress E (ce_ContractAddress msg) then Err ErrInvalidAddress else
      if \<not> ce_Amount msg > 0 then Err ErrInvalidCoins else
      if AccAddressFromBech32 H (ce_Receiver msg) = None then Err (ErrExt ''AccAddressFromBech32'') else
      if \<not> IsHexAddress E (ce_Sender msg) then Err ErrInvalidAddress else Ok ())"

section \<open>Parameters and genesis\<close>

record erc20_params =
  EnableErc20 :: bool
  EnableEVMHook :: bool

definition erc20_DefaultParams :: erc20_params where
  "erc20_DefaultParams = \<lparr>EnableErc20 = True, EnableEVMHook = True\<rparr>"

record erc20_genesis =
  eg_Params :: erc20_params
  eg_TokenPairs :: "token_pair list"

definition erc20_DefaultGenesisState :: erc20_genesis where
  "erc20_DefaultGenesisState = \<lparr>eg_Params = erc20_DefaultParams, eg_TokenPairs = []\<rparr>"

fun erc20_pairs_Validate ::
  "coins_ops \<Rightarrow> eth_ops \<Rightarrow> string set \<Rightarrow> string set \<Rightarrow> token_pair list \<Rightarrow> unit outcome" where
  "erc20_pairs_Validate C E seenErc20 seenDenom [] = Ok ()"
| "erc20_pairs_Validate C E seenErc20 seenDenom (b # bs) =
     (if Erc20Address b \<in> seenErc20 then Err (ErrPlain ''token ERC20 contract duplicated on genesis'') else
      if tp_Denom b \<in> seenDenom then Err (ErrPlain ''coin denomination duplicated on genesis'') else
      bindO (tp_Validate C E b) (\<lambda>_.
      erc20_pairs_Validate C E (insert (Erc20Address b) seenErc20) (insert (tp_Denom b) seenDenom) bs))"

definition erc20_genesis_Validate :: "coins_ops \<Rightarrow> eth_ops \<Rightarrow> erc20_genesis \<Rightarrow> unit outcome" where
  "erc20_genesis_Validate C E gs = erc20_pairs_Validate C E {} {} (eg_TokenPairs gs)"

section \<open>Lemmas\<close>

lemma string_slices_eq: "length as = length bs \<Longrightarrow> string_slices as bs \<longleftrightarrow> as = bs"
  by (induction as bs rule: string_slices.induct) auto

lemma EqualStringSlice_eq: "EqualStringSlice as bs \<longleftrightarrow> as = bs"
  by (auto simp: EqualStringSlice_def string_slices_eq)

lemma equal_units_eq: "length as = length bs \<Longrightarrow> equal_units as bs \<longleftrightarrow> as = bs"
  by (induction as bs rule: equal_units.induct) (auto simp: EqualStringSlice_eq)

text \<open>The comparison of metadata is equality.\<close>

lemma EqualMetadata_eq: "EqualMetadata a b = Ok () \<longleftrightarrow> a = b"
  by (cases a; cases b) (auto simp: EqualMetadata_def equal_units_eq)

lemma erc20_pairs_Validate_Ok:
  "erc20_pairs_Validate C E A D ps = Ok () \<longleftrightarrow>
     distinct (map Erc20Address ps) \<and> distinct (map tp_Denom ps) \<and> Erc20Address ` set ps \<inter> A = {} \<and>
     tp_Denom ` set ps \<inter> D = {} \<and> (\<forall>p \<in> set ps. coins_ValidDenom C (tp_Denom p) \<and> ValidateAddress E (Erc20Address p))"
  by (induction ps arbitrary: A D) (auto simp: tp_Validate_def split: if_splits)

end
