(* ===== verification/Erc20.thy ===== *)
theory Erc20
  imports Erc20_Types
begin

text \<open>
  \<open>x/erc20/keeper\<close>: the registry of token pairs, the calls into the EVM, the governance proposals, the
  conversion messages and the hook that runs after an Ethereum transaction.  The bank, the EVM and the
  ABI codec are parameters; \<open>'x\<close> is the state of the SDK's keepers and of the EVM.  A keeper call
  leaves its changes behind when a later one fails: discarding them is up to the caller.  Telemetry,
  logging and events are left out.
\<close>

section \<open>State and keepers\<close>

record 'x erc20_state =
  e_params :: erc20_params
  e_pairs :: "token_pair kv"
  e_byERC20 :: "bytes kv"
  e_byDenom :: "bytes kv"
  e_ext :: 'x

record 'x meta_ops =
  IsSendEnabledCoin :: "'x \<Rightarrow> denom \<Rightarrow> bool"
  GetDenomMetaData :: "'x \<Rightarrow> denom \<Rightarrow> metadata option"
  SetDenomMetaData :: "metadata \<Rightarrow> 'x \<Rightarrow> 'x"
  HasSupply :: "'x \<Rightarrow> denom \<Rightarrow> bool"

record 'x erc20_keepers =
  ek_H :: bech32_ops
  ek_E :: eth_ops
  ek_P :: abi_ops
  ek_V :: "'x evm_ops"
  ek_A :: "'x account_ops"
  ek_B :: "'x bank_ops"
  ek_M :: "'x meta_ops"
  ek_checks :: erc20_checks
  ek_ModuleAccount :: "'x \<Rightarrow> string \<Rightarrow> bool"

definition e_call :: "('x, 'a) cmd \<Rightarrow> ('x erc20_state, 'a) cmd" where
  "e_call m s = (case m (e_ext s) of (r, x) \<Rightarrow> (r, s\<lparr>e_ext := x\<rparr>))"

definition fail :: "err \<Rightarrow> ('s, 'a) cmd" where
  [outcome_defs]: "fail e s = (Err e, s)"

definition ret :: "'a \<Rightarrow> ('s, 'a) cmd" where
  [outcome_defs]: "ret a s = (Ok a, s)"

text \<open>\<open>types.ModuleAddress\<close>, the address of the module account in the EVM.\<close>

definition ModuleAddress :: "'x erc20_keepers \<Rightarrow> addr" where
  "ModuleAddress K = BytesToAddress (ek_E K) (GetModuleAddress (ek_A K) erc20_ModuleName)"

section \<open>The registry\<close>

definition GetTokenPairs :: "'x erc20_state \<Rightarrow> token_pair list" where
  "GetTokenPairs s = map snd (e_pairs s)"

definition GetERC20Map :: "'x erc20_state \<Rightarrow> addr \<Rightarrow> bytes option" where
  "GetERC20Map s erc20 = kv_get (e_byERC20 s) erc20"

definition GetDenomMap :: "'x erc20_state \<Rightarrow> denom \<Rightarrow> bytes option" where
  "GetDenomMap s denom = kv_get (e_byDenom s) denom"

definition GetTokenPairID :: "eth_ops \<Rightarrow> 'x erc20_state \<Rightarrow> string \<Rightarrow> bytes option" where
  "GetTokenPairID E s token =
     (if IsHexAddress E token then GetERC20Map s (HexToAddress E token) else GetDenomMap s token)"

definition GetTokenPair :: "'x erc20_state \<Rightarrow> bytes option \<Rightarrow> token_pair option" where
  "GetTokenPair s pid = (case pid of None \<Rightarrow> None | Some i \<Rightarrow> kv_get (e_pairs s) i)"

definition SetTokenPair :: "eth_ops \<Rightarrow> token_pair \<Rightarrow> 'x erc20_state \<Rightarrow> 'x erc20_state" where
  "SetTokenPair E tokenPair s = s\<lparr>e_pairs := kv_set (e_pairs s) (GetID E tokenPair) tokenPair\<rparr>"

definition deleteTokenPair :: "bytes \<Rightarrow> 'x erc20_state \<Rightarrow> 'x erc20_state" where
  "deleteTokenPair pid s = s\<lparr>e_pairs := kv_del (e_pairs s) pid\<rparr>"

definition SetERC20Map :: "addr \<Rightarrow> bytes \<Rightarrow> 'x erc20_state \<Rightarrow> 'x erc20_state" where
  "SetERC20Map erc20 pid s = s\<lparr>e_byERC20 := kv_set (e_byERC20 s) erc20 pid\<rparr>"

definition deleteERC20Map :: "addr \<Rightarrow> 'x erc20_state \<Rightarrow> 'x erc20_state" where
  "deleteERC20Map erc20 s = s\<lparr>e_byERC20 := kv_del (e_byERC20 s) erc20\<rparr>"

definition SetDenomMap :: "denom \<Rightarrow> bytes \<Rightarrow> 'x erc20_state \<Rightarrow> 'x erc20_state" where
  "SetDenomMap denom pid s = s\<lparr>e_byDenom := kv_set (e_byDenom s) denom pid\<rparr>"

definition deleteDenomMap :: "denom \<Rightarrow> 'x erc20_state \<Rightarrow> 'x erc20_state" where
  "deleteDenomMap denom s = s\<lparr>e_byDenom := kv_del (e_byDenom s) denom\<rparr>"

definition DeleteTokenPair :: "eth_ops \<Rightarrow> token_pair \<Rightarrow> 'x erc20_state \<Rightarrow> 'x erc20_state" where
  "DeleteTokenPair E tokenPair s =
     deleteDenomMap (tp_Denom tokenPair) (deleteERC20Map (GetERC20Contract E tokenPair)
       (deleteTokenPair (GetID E tokenPair) s))"

definition IsTokenPairRegistered :: "'x erc20_state \<Rightarrow> bytes \<Rightarrow> bool" where
  "IsTokenPairRegistered s pid = kv_has (e_pairs s) pid"

definition IsERC20Registered :: "'x erc20_state \<Rightarrow> addr \<Rightarrow> bool" where
  "IsERC20Registered s erc20 = kv_has (e_byERC20 s) erc20"

definition IsDenomRegistered :: "'x erc20_state \<Rightarrow> denom \<Rightarrow> bool" where
  "IsDenomRegistered s denom = kv_has (e_byDenom s) denom"

text \<open>The test \<open>len(id) == 0\<close> on a looked-up identifier.\<close>

definition no_id :: "bytes option \<Rightarrow> bool" where
  "no_id pid \<longleftrightarrow> pid = None \<or> pid = Some []"

definition TokenPair_query :: "coins_ops \<Rightarrow> eth_ops \<Rightarrow> 'x erc20_state \<Rightarrow> string option \<Rightarrow> token_pair outcome" where
  "TokenPair_query C E s req =
     (case req of
        None \<Rightarrow> Err ErrInvalidArgument
      | Some token \<Rightarrow>
          if \<not> ValidateAddress E token \<and> \<not> coins_ValidDenom C token then Err ErrInvalidArgument else
          let pid = GetTokenPairID E s token in
          if no_id pid then Err ErrNotFound else
          (case GetTokenPair s pid of None \<Rightarrow> Err ErrNotFound | Some pair \<Rightarrow> Ok pair))"

definition MintingEnabled ::
  "'x erc20_keepers \<Rightarrow> 'x erc20_state \<Rightarrow> addr \<Rightarrow> addr \<Rightarrow> string \<Rightarrow> token_pair outcome" where
  "MintingEnabled K s sender receiver token =
     (if \<not> EnableErc20 (e_params s) then Err ErrERC20Disabled else
      let pid = GetTokenPairID (ek_E K) s token in
      if no_id pid then Err ErrTokenPairNotFound else
      (case GetTokenPair s pid of
         None \<Rightarrow> Err ErrTokenPairNotFound
       | Some pair \<Rightarrow>
           if \<not> Enabled pair then Err ErrERC20TokenPairDisabled else
           if BlockedAddr (ek_B K) receiver then Err ErrUnauthorized else
           if sender \<noteq> receiver \<and> \<not> IsSendEnabledCoin (ek_M K) (e_ext s) (tp_Denom pair) then Err ErrSendDisabled else
           Ok pair))"

section \<open>Calling the EVM\<close>

definition CallEVMWithData ::
  "'x erc20_keepers \<Rightarrow> addr \<Rightarrow> addr option \<Rightarrow> bytes \<Rightarrow> bool \<Rightarrow> ('x, evm_res) cmd" where
  "CallEVMWithData K from contract data commit x =
     (case GetSequence (ek_V K) x from of
        Err e \<Rightarrow> (Err e, x)
      | Panic \<Rightarrow> (Panic, x)
      | Ok nonce \<Rightarrow>
          (case (if \<not> commit then Ok (DefaultGasCap (ek_V K)) else
                 case evm_MarshalArgs (ek_V K) from contract data of
                   None \<Rightarrow> Err ErrJSONMarshal
                 | Some args \<Rightarrow> EstimateGas (ek_V K) x args (DefaultGasCap (ek_V K))) of
             Err e \<Rightarrow> (Err e, x)
           | Panic \<Rightarrow> (Panic, x)
           | Ok gasCap \<Rightarrow>
               let msg = \<lparr>em_From = from, em_To = contract, em_Nonce = nonce, em_Amount = 0, em_GasLimit = gasCap,
                          em_GasFeeCap = 0, em_GasTipCap = 0, em_GasPrice = 0, em_Data = data, em_IsFake = \<not> commit\<rparr> in
               bindS (ApplyMessage (ek_V K) msg commit) (\<lambda>res.
               if res_Failed res then fail ErrVMExecution else ret res) x))"

definition CallEVM ::
  "'x erc20_keepers \<Rightarrow> addr \<Rightarrow> addr \<Rightarrow> bool \<Rightarrow> string \<Rightarrow> abi_val list \<Rightarrow> ('x, evm_res) cmd" where
  "CallEVM K from contract commit method args x =
     (case abi_Pack (ek_P K) method args of
        None \<Rightarrow> (Err ErrABIPack, x)
      | Some data \<Rightarrow> CallEVMWithData K from (Some contract) data commit x)"

text \<open>\<open>None\<close> is the nil balance that a failed call or an unreadable answer gives.\<close>

definition BalanceOf :: "'x erc20_keepers \<Rightarrow> addr \<Rightarrow> addr \<Rightarrow> ('x, int option) cmd" where
  "BalanceOf K contract account x =
     (case CallEVM K (ModuleAddress K) contract False ''balanceOf'' [VAddr account] x of
        (Panic, y) \<Rightarrow> (Panic, y)
      | (Err _, y) \<Rightarrow> (Ok None, y)
      | (Ok res, y) \<Rightarrow>
          (Ok (case abi_Unpack (ek_P K) ''balanceOf'' (res_Ret res) of
                 Some (VInt balance # _) \<Rightarrow> Some balance
               | _ \<Rightarrow> None), y))"

text \<open>\<open>log.Topics[0]\<close> panics for a log without topics.\<close>

fun approval_logs :: "string \<Rightarrow> evm_log list \<Rightarrow> unit outcome" where
  "approval_logs sigHash [] = Ok ()"
| "approval_logs sigHash (log # logs) =
     (case log_Topics log of
        [] \<Rightarrow> Panic
      | topic # _ \<Rightarrow> if topic = sigHash then Err ErrUnexpectedEvent else approval_logs sigHash logs)"

definition monitorApprovalEvent :: "eth_ops \<Rightarrow> evm_res \<Rightarrow> unit outcome" where
  "monitorApprovalEvent E res =
     (if length (res_Logs res) = 0 then Ok () else
      approval_logs (Keccak256Hex E ''Approval(address,address,uint256)'') (res_Logs res))"

record erc20_data =
  ed_Name :: string
  ed_Symbol :: string
  ed_Decimals :: int

definition QueryERC20 :: "'x erc20_keepers \<Rightarrow> addr \<Rightarrow> ('x, erc20_data) cmd" where
  "QueryERC20 K contract =
     bindS (CallEVM K (ModuleAddress K) contract False ''name'' []) (\<lambda>res.
     case abi_UnpackString (ek_P K) ''name'' (res_Ret res) of None \<Rightarrow> fail ErrABIUnpack | Some name \<Rightarrow>
     bindS (CallEVM K (ModuleAddress K) contract False ''symbol'' []) (\<lambda>res.
     case abi_UnpackString (ek_P K) ''symbol'' (res_Ret res) of None \<Rightarrow> fail ErrABIUnpack | Some symbol \<Rightarrow>
     bindS (CallEVM K (ModuleAddress K) contract False ''decimals'' []) (\<lambda>res.
     case abi_UnpackUint8 (ek_P K) ''decimals'' (res_Ret res) of None \<Rightarrow> fail ErrABIUnpack | Some decimals \<Rightarrow>
     ret \<lparr>ed_Name = name, ed_Symbol = symbol, ed_Decimals = decimals\<rparr>)))"

text \<open>The exponent, a \<open>uint32\<close>, is converted to \<open>uint8\<close>.\<close>

definition DeployERC20Contract :: "'x erc20_keepers \<Rightarrow> metadata \<Rightarrow> ('x, addr) cmd" where
  "DeployERC20Contract K coinMetadata x =
     (let decimals = (if length (md_DenomUnits coinMetadata) > 0
                      then du_Exponent (md_DenomUnits coinMetadata ! (length (md_DenomUnits coinMetadata) - 1)) mod 256
                      else 0) in
      case abi_Pack (ek_P K) '''' [VString (md_Name coinMetadata), VString (md_Symbol coinMetadata), VUint8 decimals] of
        None \<Rightarrow> (Err ErrABIPack, x)
      | Some ctorArgs \<Rightarrow>
          let data = abi_Bin (ek_P K) @ ctorArgs in
          (case GetSequence (ek_V K) x (ModuleAddress K) of
             Err e \<Rightarrow> (Err e, x)
           | Panic \<Rightarrow> (Panic, x)
           | Ok nonce \<Rightarrow>
               let contractAddr = CreateAddress (ek_E K) (ModuleAddress K) nonce in
               bindS (CallEVMWithData K (ModuleAddress K) None data True) (\<lambda>_. ret contractAddr) x))"

section \<open>Proposals\<close>

definition verifyMetadata :: "'x erc20_keepers \<Rightarrow> metadata \<Rightarrow> ('x, unit) cmd" where
  "verifyMetadata K coinMetadata x =
     (case GetDenomMetaData (ek_M K) x (md_Base coinMetadata) of
        None \<Rightarrow> (Ok (), SetDenomMetaData (ek_M K) coinMetadata x)
      | Some meta \<Rightarrow> (EqualMetadata meta coinMetadata, x))"

text \<open>\<open>strings.Contains\<close>\<close>

fun Contains :: "string \<Rightarrow> string \<Rightarrow> bool" where
  "Contains [] p = (p = [])"
| "Contains (c # cs) p = (HasPrefix (c # cs) p \<or> Contains cs p)"

text \<open>An error of one call is replaced by another: \<open>sdkerrors.Wrapf(other, ...)\<close>.\<close>

definition rewrap :: "err \<Rightarrow> ('s, 'a) cmd \<Rightarrow> ('s, 'a) cmd" where
  "rewrap e m s = (case m s of (Err _, t) \<Rightarrow> (Err e, t) | r \<Rightarrow> r)"

definition register_pair :: "eth_ops \<Rightarrow> token_pair \<Rightarrow> 'x erc20_state \<Rightarrow> 'x erc20_state" where
  "register_pair E pair s =
     SetERC20Map (HexToAddress E (Erc20Address pair)) (GetID E pair)
       (SetDenomMap (tp_Denom pair) (GetID E pair) (SetTokenPair E pair s))"

definition RegisterCoin :: "'x erc20_keepers \<Rightarrow> metadata \<Rightarrow> ('x erc20_state, token_pair) cmd" where
  "RegisterCoin K coinMetadata s =
     (if \<not> EnableErc20 (e_params s) then (Err ErrERC20Disabled, s) else
      if Contains (md_Base coinMetadata) ''evm'' then (Err ErrEVMDenom, s) else
      if IsDenomRegistered s (md_Name coinMetadata) then (Err ErrTokenPairAlreadyExists, s) else
      if \<not> HasSupply (ek_M K) (e_ext s) (md_Base coinMetadata) then (Err ErrInvalidCoins, s) else
      bindS (e_call (rewrap ErrInternalTokenPair (verifyMetadata K coinMetadata))) (\<lambda>_.
      bindS (e_call (DeployERC20Contract K coinMetadata)) (\<lambda>addr t.
      let pair = NewTokenPair (ek_E K) addr (md_Base coinMetadata) True OWNER_MODULE in
      (Ok pair, register_pair (ek_E K) pair t))) s)"

definition CreateCoinMetadata :: "'x erc20_keepers \<Rightarrow> addr \<Rightarrow> ('x erc20_state, metadata) cmd" where
  "CreateCoinMetadata K contract =
     (let strContract = addr_Hex (ek_E K) contract in
      bindS (e_call (QueryERC20 K contract)) (\<lambda>erc20Data s.
      if GetDenomMetaData (ek_M K) (e_ext s) (CreateDenom strContract) \<noteq> None then (Err ErrInternalTokenPair, s) else
      if IsDenomRegistered s (CreateDenom strContract) then (Err ErrInternalTokenPair, s) else
      let base = CreateDenom strContract;
          nameSanitized = SanitizeERC20Name (ed_Name erc20Data);
          metadata =
            (if ed_Decimals erc20Data > 0
             then \<lparr>md_Description = CreateDenomDescription strContract,
                   md_DenomUnits = [\<lparr>du_Denom = base, du_Exponent = 0, du_Aliases = []\<rparr>,
                                    \<lparr>du_Denom = nameSanitized, du_Exponent = ed_Decimals erc20Data, du_Aliases = []\<rparr>],
                   md_Base = base, md_Display = nameSanitized, md_Name = CreateDenom strContract, md_Symbol = ed_Symbol erc20Data\<rparr>
             else \<lparr>md_Description = CreateDenomDescription strContract,
                   md_DenomUnits = [\<lparr>du_Denom = base, du_Exponent = 0, du_Aliases = []\<rparr>],
                   md_Base = base, md_Display = base, md_Name = CreateDenom strContract, md_Symbol = ed_Symbol erc20Data\<rparr>)
      in if \<not> md_Validate (ek_checks K) metadata then (Err (ErrExt ''Metadata.Validate''), s) else
         (Ok metadata, s\<lparr>e_ext := SetDenomMetaData (ek_M K) metadata (e_ext s)\<rparr>)))"

definition RegisterERC20 :: "'x erc20_keepers \<Rightarrow> addr \<Rightarrow> ('x erc20_state, token_pair) cmd" where
  "RegisterERC20 K contract s =
     (if \<not> EnableErc20 (e_params s) then (Err ErrERC20Disabled, s) else
      if IsERC20Registered s contract then (Err ErrTokenPairAlreadyExists, s) else
      bindS (CreateCoinMetadata K contract) (\<lambda>metadata t.
      let pair = NewTokenPair (ek_E K) contract (md_Name metadata) True OWNER_EXTERNAL in
      (Ok pair, register_pair (ek_E K) pair t)) s)"

definition ToggleConversion :: "'x erc20_keepers \<Rightarrow> string \<Rightarrow> ('x erc20_state, token_pair) cmd" where
  "ToggleConversion K token s =
     (let pid = GetTokenPairID (ek_E K) s token in
      if no_id pid then (Err ErrTokenPairNotFound, s) else
      (case GetTokenPair s pid of
         None \<Rightarrow> (Err ErrTokenPairNotFound, s)
       | Some pair \<Rightarrow>
           let pair' = pair\<lparr>Enabled := \<not> Enabled pair\<rparr> in (Ok pair', SetTokenPair (ek_E K) pair' s)))"

fun erc20_proposal_handler :: "'x erc20_keepers \<Rightarrow> erc20_proposal \<Rightarrow> ('x erc20_state, unit) cmd" where
  "erc20_proposal_handler K (RegisterCoinProposal _ _ metadata) = bindS (RegisterCoin K metadata) (\<lambda>_. ret ())"
| "erc20_proposal_handler K (RegisterERC20Proposal _ _ erc20Address) =
     bindS (RegisterERC20 K (HexToAddress (ek_E K) erc20Address)) (\<lambda>_. ret ())"
| "erc20_proposal_handler K (ToggleTokenConversionProposal _ _ token) = bindS (ToggleConversion K token) (\<lambda>_. ret ())"

section \<open>Conversions\<close>

definition balance_or_fail :: "'x erc20_keepers \<Rightarrow> addr \<Rightarrow> addr \<Rightarrow> ('x, int) cmd" where
  "balance_or_fail K contract account =
     bindS (BalanceOf K contract account) (\<lambda>b. case b of None \<Rightarrow> fail ErrEVMCall | Some n \<Rightarrow> ret n)"

definition pure :: "'a outcome \<Rightarrow> ('s, 'a) cmd" where
  [outcome_defs]: "pure r s = (r, s)"

definition convertCoinNativeCoin ::
  "'x erc20_keepers \<Rightarrow> token_pair \<Rightarrow> msg_convert_coin \<Rightarrow> addr \<Rightarrow> addr \<Rightarrow> ('x, unit) cmd" where
  "convertCoinNativeCoin K pair msg receiver sender =
     (let coins = [cc_Coin msg]; contract = GetERC20Contract (ek_E K) pair; tokens = Amt (cc_Coin msg) in
      bindS (balance_or_fail K contract receiver) (\<lambda>balanceToken.
      bindS (SendCoinsFromAccountToModule (ek_B K) sender erc20_ModuleName coins) (\<lambda>_.
      bindS (CallEVM K (ModuleAddress K) contract True ''mint'' [VAddr receiver, VInt tokens]) (\<lambda>_.
      bindS (balance_or_fail K contract receiver) (\<lambda>balanceTokenAfter.
      let expToken = balanceToken + tokens in
      if balanceTokenAfter \<noteq> expToken then fail ErrBalanceInvariance else ret ())))))"

definition convertERC20NativeCoin ::
  "'x erc20_keepers \<Rightarrow> token_pair \<Rightarrow> msg_convert_erc20 \<Rightarrow> addr \<Rightarrow> addr \<Rightarrow> ('x, unit) cmd" where
  "convertERC20NativeCoin K pair msg receiver sender x =
     (let coins = [\<lparr>Denom = tp_Denom pair, Amt = ce_Amount msg\<rparr>]; contract = GetERC20Contract (ek_E K) pair;
          tokens = ce_Amount msg; balanceCoin = GetBalance (ek_B K) x receiver (tp_Denom pair) in
      bindS (balance_or_fail K contract sender) (\<lambda>balanceToken.
      bindS (CallEVM K (ModuleAddress K) contract True ''burnCoins'' [VAddr sender, VInt tokens]) (\<lambda>_.
      bindS (SendCoinsFromModuleToAccount (ek_B K) erc20_ModuleName receiver coins) (\<lambda>_ y.
      let balanceCoinAfter = GetBalance (ek_B K) y receiver (tp_Denom pair); expCoin = balanceCoin + ce_Amount msg in
      if balanceCoinAfter \<noteq> expCoin then (Err ErrBalanceInvariance, y) else
      bindS (balance_or_fail K contract sender) (\<lambda>balanceTokenAfter.
      let expToken = balanceToken - tokens in
      if balanceTokenAfter \<noteq> expToken then fail ErrBalanceInvariance else ret ()) y))) x)"

definition convertERC20NativeToken ::
  "'x erc20_keepers \<Rightarrow> token_pair \<Rightarrow> msg_convert_erc20 \<Rightarrow> addr \<Rightarrow> addr \<Rightarrow> ('x, unit) cmd" where
  "convertERC20NativeToken K pair msg receiver sender x =
     (let coins = [\<lparr>Denom = tp_Denom pair, Amt = ce_Amount msg\<rparr>]; contract = GetERC20Contract (ek_E K) pair;
          tokens = ce_Amount msg; balanceCoin = GetBalance (ek_B K) x receiver (tp_Denom pair) in
      bindS (balance_or_fail K contract (ModuleAddress K)) (\<lambda>balanceToken.
      case abi_Pack (ek_P K) ''transfer'' [VAddr (ModuleAddress K), VInt tokens] of
        None \<Rightarrow> fail (ErrExt ''abi.Pack'')
      | Some transferData \<Rightarrow>
      bindS (CallEVMWithData K sender (Some contract) transferData True) (\<lambda>res.
      case abi_UnpackBool (ek_P K) ''transfer'' (res_Ret res) of
        None \<Rightarrow> fail (ErrExt ''abi.Unpack'')
      | Some unpackedRet \<Rightarrow>
      if \<not> unpackedRet then fail ErrLogic else
      bindS (balance_or_fail K contract (ModuleAddress K)) (\<lambda>balanceTokenAfter.
      let expToken = balanceToken + tokens in
      if balanceTokenAfter \<noteq> expToken then fail ErrBalanceInvariance else
      bindS (MintCoins (ek_B K) erc20_ModuleName coins) (\<lambda>_.
      bindS (SendCoinsFromModuleToAccount (ek_B K) erc20_ModuleName receiver coins) (\<lambda>_ y.
      let balanceCoinAfter = GetBalance (ek_B K) y receiver (tp_Denom pair); expCoin = balanceCoin + ce_Amount msg in
      if balanceCoinAfter \<noteq> expCoin then (Err ErrBalanceInvariance, y) else
      (monitorApprovalEvent (ek_E K) res, y)))))) x)"

definition convertCoinNativeERC20 ::
  "'x erc20_keepers \<Rightarrow> token_pair \<Rightarrow> msg_convert_coin \<Rightarrow> addr \<Rightarrow> addr \<Rightarrow> ('x, unit) cmd" where
  "convertCoinNativeERC20 K pair msg receiver sender =
     (let coins = [cc_Coin msg]; contract = GetERC20Contract (ek_E K) pair; tokens = Amt (cc_Coin msg) in
      bindS (balance_or_fail K contract receiver) (\<lambda>balanceToken.
      bindS (SendCoinsFromAccountToModule (ek_B K) sender erc20_ModuleName coins) (\<lambda>_.
      bindS (CallEVM K (ModuleAddress K) contract True ''transfer'' [VAddr receiver, VInt tokens]) (\<lambda>res.
      case abi_UnpackBool (ek_P K) ''transfer'' (res_Ret res) of
        None \<Rightarrow> fail (ErrExt ''abi.Unpack'')
      | Some unpackedRet \<Rightarrow>
      if \<not> unpackedRet then fail ErrLogic else
      bindS (balance_or_fail K contract receiver) (\<lambda>balanceTokenAfter.
      let exp = balanceToken + tokens in
      if balanceTokenAfter \<noteq> exp then fail ErrBalanceInvariance else
      bindS (BurnCoins (ek_B K) erc20_ModuleName coins) (\<lambda>_.
      pure (monitorApprovalEvent (ek_E K) res)))))))"

text \<open>The answer is \<open>None\<close> where the pair of a destroyed contract was removed and no response is given.\<close>

definition ConvertCoin :: "'x erc20_keepers \<Rightarrow> msg_convert_coin \<Rightarrow> ('x erc20_state, unit option) cmd" where
  "ConvertCoin K msg s =
     (let receiver = HexToAddress (ek_E K) (cc_Receiver msg) in
      case AccAddressFromBech32 (ek_H K) (cc_Sender msg) of
        None \<Rightarrow> (Panic, s)
      | Some sender \<Rightarrow>
          (case MintingEnabled K s sender receiver (Denom (cc_Coin msg)) of
             Panic \<Rightarrow> (Panic, s)
           | Err e \<Rightarrow> (Err e, s)
           | Ok pair \<Rightarrow>
               let erc20 = HexToAddress (ek_E K) (Erc20Address pair) in
               if evm_IsContract (ek_V K) (e_ext s) erc20 \<noteq> Some True
               then (Ok None, DeleteTokenPair (ek_E K) pair s) else
               if IsNativeCoin pair
               then bindS (e_call (convertCoinNativeCoin K pair msg receiver sender)) (\<lambda>_. ret (Some ())) s else
               if IsNativeERC20 pair
               then bindS (e_call (convertCoinNativeERC20 K pair msg receiver sender)) (\<lambda>_. ret (Some ())) s else
               (Err ErrUndefinedOwner, s)))"

definition ConvertERC20 :: "'x erc20_keepers \<Rightarrow> msg_convert_erc20 \<Rightarrow> ('x erc20_state, unit option) cmd" where
  "ConvertERC20 K msg s =
     (case AccAddressFromBech32 (ek_H K) (ce_Receiver msg) of
        None \<Rightarrow> (Panic, s)
      | Some receiver \<Rightarrow>
          let sender = HexToAddress (ek_E K) (ce_Sender msg) in
          (case MintingEnabled K s sender receiver (ce_ContractAddress msg) of
             Panic \<Rightarrow> (Panic, s)
           | Err e \<Rightarrow> (Err e, s)
           | Ok pair \<Rightarrow>
               let erc20 = HexToAddress (ek_E K) (Erc20Address pair) in
               if evm_IsContract (ek_V K) (e_ext s) erc20 \<noteq> Some True
               then (Ok None, DeleteTokenPair (ek_E K) pair s) else
               if IsNativeCoin pair
               then bindS (e_call (convertERC20NativeCoin K pair msg receiver sender)) (\<lambda>_. ret (Some ())) s else
               if IsNativeERC20 pair
               then bindS (e_call (convertERC20NativeToken K pair msg receiver sender)) (\<lambda>_. ret (Some ())) s else
               (Err ErrUndefinedOwner, s)))"

section \<open>The EVM hook\<close>

text \<open>Processing one log: the conversion itself, and the loop's body with its early \<open>continue\<close>s.\<close>

definition hook_convert :: "'x erc20_keepers \<Rightarrow> token_pair \<Rightarrow> evm_log \<Rightarrow> int \<Rightarrow> ('x, unit) cmd" where
  "hook_convert K pair log tokens x =
     (let coins = [\<lparr>Denom = tp_Denom pair, Amt = tokens\<rparr>];
          contractAddr = log_Address log in
      case (case ContractOwner pair of
              OWNER_MODULE \<Rightarrow> bindS (CallEVM K (ModuleAddress K) contractAddr True ''burn'' [VInt tokens]) (\<lambda>_. ret ()) x
            | OWNER_EXTERNAL \<Rightarrow> MintCoins (ek_B K) erc20_ModuleName coins x
            | OWNER_UNSPECIFIED \<Rightarrow> (Err ErrUndefinedOwner, x)) of
        (Panic, y) \<Rightarrow> (Panic, y)
      | (Err _, y) \<Rightarrow> (Ok (), y)
      | (Ok _, y) \<Rightarrow>
          let from = BytesToAddress (ek_E K) (log_Topics log ! 1) in
          (case SendCoinsFromModuleToAccount (ek_B K) erc20_ModuleName from coins y of
             (Panic, z) \<Rightarrow> (Panic, z)
           | (_, z) \<Rightarrow> (Ok (), z)))"

definition hook_log :: "'x erc20_keepers \<Rightarrow> 'x erc20_state \<Rightarrow> evm_log \<Rightarrow> ('x, unit) cmd" where
  "hook_log K s log x =
     (if length (log_Topics log) \<noteq> 3 then (Ok (), x) else
      case abi_EventByID (ek_P K) (log_Topics log ! 0) of
        None \<Rightarrow> (Ok (), x)
      | Some event \<Rightarrow>
      if event \<noteq> ''Transfer'' then (Ok (), x) else
      case abi_Unpack (ek_P K) event (log_Data log) of
        Some (VInt tokens # _) \<Rightarrow>
          if \<not> tokens > 0 then (Ok (), x) else
          let pid = GetERC20Map s (log_Address log) in
          if no_id pid then (Ok (), x) else
          (case GetTokenPair s pid of
             None \<Rightarrow> (Ok (), x)
           | Some pair \<Rightarrow>
               if BytesToAddress (ek_E K) (log_Topics log ! 2) \<noteq> ModuleAddress K then (Ok (), x) else
               if \<not> Enabled pair then (Ok (), x) else
               hook_convert K pair log tokens x)
      | _ \<Rightarrow> (Ok (), x))"

fun hook_logs :: "'x erc20_keepers \<Rightarrow> 'x erc20_state \<Rightarrow> evm_log list \<Rightarrow> ('x, unit) cmd" where
  "hook_logs K s [] = ret ()"
| "hook_logs K s (log # logs) = bindS (hook_log K s log) (\<lambda>_. hook_logs K s logs)"

definition erc20_PostTxProcessing :: "'x erc20_keepers \<Rightarrow> evm_log list \<Rightarrow> ('x erc20_state, unit) cmd" where
  "erc20_PostTxProcessing K logs s =
     (if \<not> EnableErc20 (e_params s) \<or> \<not> EnableEVMHook (e_params s) then (Ok (), s) else
      e_call (hook_logs K s logs) s)"

section \<open>Genesis\<close>

definition erc20_SetParams :: "erc20_params \<Rightarrow> 'x erc20_state \<Rightarrow> 'x erc20_state" where
  "erc20_SetParams params s = s\<lparr>e_params := params\<rparr>"

definition erc20_InitGenesis :: "'x erc20_keepers \<Rightarrow> erc20_genesis \<Rightarrow> ('x erc20_state, unit) cmd" where
  "erc20_InitGenesis K data s =
     (let s = erc20_SetParams (eg_Params data) s in
      if \<not> ek_ModuleAccount K (e_ext s) erc20_ModuleName then (Panic, s) else
      (Ok (), foldl (\<lambda>t pair. SetERC20Map (GetERC20Contract (ek_E K) pair) (GetID (ek_E K) pair)
                        (SetDenomMap (tp_Denom pair) (GetID (ek_E K) pair) (SetTokenPair (ek_E K) pair t)))
                      s (eg_TokenPairs data)))"

definition erc20_ExportGenesis :: "'x erc20_state \<Rightarrow> erc20_genesis" where
  "erc20_ExportGenesis s = \<lparr>eg_Params = e_params s, eg_TokenPairs = GetTokenPairs s\<rparr>"

end
