(* ===== verification/Erc20_World.thy ===== *)
theory Erc20_World
  imports Erc20
begin

text \<open>
  An executable EVM for evaluating the \<open>x/erc20\<close> model: every contract is a token in the style of
  \<open>contracts/ERC20MinterBurnerDecimals.sol\<close>, whose \<open>mint\<close> and \<open>burnCoins\<close> only the module may call.
  Call data is the method's first letter, then the address argument, then the amount in unary.
\<close>

record std_token =
  t_bal :: "addr \<Rightarrow> int"
  t_supply :: int

record std_evm =
  v_tokens :: "addr \<Rightarrow> std_token option"
  v_nonce :: "addr \<Rightarrow> int"
  v_meta :: "denom \<Rightarrow> metadata option"

type_synonym std_chain = "std_world \<times> std_evm"

definition std_module :: addr where
  "std_module = std_BytesToAddress (std_module_addr ''erc20'')"

definition ones :: "int \<Rightarrow> bytes" where
  "ones n = replicate (nat n) (CHR ''1'')"

fun std_Pack :: "string \<Rightarrow> abi_val list \<Rightarrow> bytes option" where
  "std_Pack method [VAddr a, VInt n] =
     (if length a = 20 \<and> 0 \<le> n then
        if method = ''mint'' then Some (CHR ''m'' # a @ ones n)
        else if method = ''burnCoins'' then Some (CHR ''c'' # a @ ones n)
        else if method = ''transfer'' then Some (CHR ''t'' # a @ ones n) else None
      else None)"
| "std_Pack method [VInt n] = (if method = ''burn'' \<and> 0 \<le> n then Some (CHR ''b'' # ones n) else None)"
| "std_Pack method [VAddr a] = (if method = ''balanceOf'' \<and> length a = 20 then Some (CHR ''o'' # a) else None)"
| "std_Pack method [VString _, VString _, VUint8 _] = (if method = '''' then Some ''k'' else None)"
| "std_Pack method [] = (if method \<in> {''name'', ''symbol'', ''decimals''} then Some ''n'' else None)"
| "std_Pack _ _ = None"

definition std_abi :: abi_ops where
  "std_abi =
     \<lparr>abi_Bin = [], abi_Pack = std_Pack,
      abi_Unpack = (\<lambda>m r. if m = ''balanceOf'' \<or> m = ''Transfer'' then Some [VInt (int (length r))] else None),
      abi_UnpackBool = (\<lambda>m r. Some (r \<noteq> [])), abi_UnpackString = (\<lambda>m r. Some ''Token''), abi_UnpackUint8 = (\<lambda>m r. Some 6),
      abi_EventByID = (\<lambda>h. if h = ''T'' then Some ''Transfer'' else if h = ''A'' then Some ''Approval'' else None)\<rparr>"

text \<open>Running a call on a token: the answer and the token afterwards, \<open>None\<close> where the call reverts.\<close>

definition std_exec :: "addr \<Rightarrow> bytes \<Rightarrow> std_token \<Rightarrow> (bytes \<times> std_token) option" where
  "std_exec from data t =
     (case data of
        [] \<Rightarrow> None
      | f # args \<Rightarrow>
          let a = take 20 args; n = int (length (drop 20 args)); k = int (length args) in
          if f = CHR ''m'' then
            if from = std_module then Some ([], t\<lparr>t_bal := (t_bal t)(a := t_bal t a + n), t_supply := t_supply t + n\<rparr>) else None
          else if f = CHR ''c'' then
            if from = std_module \<and> n \<le> t_bal t a
            then Some ([], t\<lparr>t_bal := (t_bal t)(a := t_bal t a - n), t_supply := t_supply t - n\<rparr>) else None
          else if f = CHR ''b'' then
            if k \<le> t_bal t from then Some ([], t\<lparr>t_bal := (t_bal t)(from := t_bal t from - k), t_supply := t_supply t - k\<rparr>) else None
          else if f = CHR ''t'' then
            if n \<le> t_bal t from
            then Some (''1'', t\<lparr>t_bal := (\<lambda>b. t_bal t b - (if b = from then n else 0) + (if b = a then n else 0))\<rparr>) else None
          else if f = CHR ''o'' then Some (ones (t_bal t a), t)
          else if f = CHR ''n'' then Some ([], t) else None)"

definition std_ApplyMessage :: "eth_msg \<Rightarrow> bool \<Rightarrow> (std_chain, evm_res) cmd" where
  "std_ApplyMessage m commit =
     (\<lambda>(w, e).
      case em_To m of
        None \<Rightarrow>
          let a = CreateAddress std_eth (em_From m) (em_Nonce m) in
          if v_tokens e a \<noteq> None then (Ok \<lparr>res_Failed = True, res_Ret = [], res_Logs = []\<rparr>, (w, e)) else
          (Ok \<lparr>res_Failed = False, res_Ret = [], res_Logs = []\<rparr>,
           if commit then (w, e\<lparr>v_tokens := (v_tokens e)(a \<mapsto> \<lparr>t_bal = (\<lambda>_. 0), t_supply = 0\<rparr>),
                                v_nonce := (v_nonce e)(em_From m := em_Nonce m + 1)\<rparr>) else (w, e))
      | Some c \<Rightarrow>
          (case v_tokens e c of
             None \<Rightarrow> (Ok \<lparr>res_Failed = False, res_Ret = [], res_Logs = []\<rparr>, (w, e))
           | Some t \<Rightarrow>
               (case std_exec (em_From m) (em_Data m) t of
                  None \<Rightarrow> (Ok \<lparr>res_Failed = True, res_Ret = [], res_Logs = []\<rparr>, (w, e))
                | Some (r, t') \<Rightarrow>
                    (Ok \<lparr>res_Failed = False, res_Ret = r, res_Logs = []\<rparr>,
                     if commit then (w, e\<lparr>v_tokens := (v_tokens e)(c \<mapsto> t')\<rparr>) else (w, e)))))"

definition std_evm_ops :: "std_chain evm_ops" where
  "std_evm_ops =
     \<lparr>GetSequence = (\<lambda>x a. Ok (v_nonce (snd x) a)), DefaultGasCap = 25000000,
      evm_MarshalArgs = (\<lambda>_ _ data. Some data), EstimateGas = (\<lambda>_ _ _. Ok 100000),
      ApplyMessage = std_ApplyMessage,
      evm_IsContract = (\<lambda>x a. map_option (\<lambda>_. True) (v_tokens (snd x) a)),
      EvmDenom = (\<lambda>_. ''aevmos'')\<rparr>"

definition std_meta :: "std_chain meta_ops" where
  "std_meta =
     \<lparr>IsSendEnabledCoin = (\<lambda>_ _. True), GetDenomMetaData = (\<lambda>x d. v_meta (snd x) d),
      SetDenomMetaData = (\<lambda>md (w, e). (w, e\<lparr>v_meta := (v_meta e)(md_Base md \<mapsto> md)\<rparr>)),
      HasSupply = (\<lambda>x d. w_supply (fst x) d \<noteq> 0)\<rparr>"

definition std_erc20 :: "std_chain erc20_keepers" where
  "std_erc20 =
     \<lparr>ek_H = std_bech32, ek_E = std_eth, ek_P = std_abi, ek_V = std_evm_ops, ek_A = pair_accounts std_accounts,
      ek_B = pair_bank std_bank, ek_M = std_meta,
      ek_checks = \<lparr>ValidateAbstract = (\<lambda>t d. t \<noteq> []), ValidateIBCDenom = (\<lambda>d. d \<noteq> []), md_Validate = (\<lambda>md. md_Name md \<noteq> [])\<rparr>,
      ek_ModuleAccount = (\<lambda>_ _. True)\<rparr>"

lemma std_erc20_sel [simp]:
  "ek_H std_erc20 = std_bech32" "ek_E std_erc20 = std_eth" "ek_P std_erc20 = std_abi" "ek_V std_erc20 = std_evm_ops"
  "ek_A std_erc20 = pair_accounts std_accounts" "ek_B std_erc20 = pair_bank std_bank" "ek_M std_erc20 = std_meta"
  by (simp_all add: std_erc20_def)

lemma std_evm_sel [simp]:
  "ApplyMessage std_evm_ops = std_ApplyMessage" "GetSequence std_evm_ops x a = Ok (v_nonce (snd x) a)"
  "EvmDenom std_evm_ops x = ''aevmos''" "evm_IsContract std_evm_ops x a = map_option (\<lambda>_. True) (v_tokens (snd x) a)"
  "abi_Pack std_abi = std_Pack"
  by (simp_all add: std_evm_ops_def std_abi_def)

lemma ModuleAddress_std: "ModuleAddress std_erc20 = std_module"
  by (simp add: ModuleAddress_def std_module_def erc20_ModuleName_def std_accounts_def std_eth_def)

lemma length_ones [simp]: "0 \<le> n \<Longrightarrow> int (length (ones n)) = n"
  by (simp add: ones_def)

section \<open>A chain with one pair for a coin and one for a token\<close>

definition ex_user :: addr where "ex_user = ''user-address-20bytes''"
definition ex_bob :: addr where "ex_bob = ''bobs-address-20bytes''"
definition ex_contract :: addr where "ex_contract = ''coin-contract-20byte''"
definition ex_external :: addr where "ex_external = ''ext-contract-20bytes''"

definition ex_chain :: std_chain where
  "ex_chain =
     (\<lparr>w_accounts = [], w_denoms = [''acoin''], w_balance = (\<lambda>a d. if a = ex_user then 100 else 0), w_supply = (\<lambda>d. if d = ''acoin'' then 100 else 0)\<rparr>,
      \<lparr>v_tokens = (\<lambda>c. if c = ex_contract then Some \<lparr>t_bal = (\<lambda>_. 0), t_supply = 0\<rparr>
                       else if c = ex_external then Some \<lparr>t_bal = (\<lambda>a. if a = ex_bob then 50 else 0), t_supply = 50\<rparr> else None),
       v_nonce = (\<lambda>_. 0), v_meta = (\<lambda>_. None)\<rparr>)"

definition ex_coin_pair :: token_pair where
  "ex_coin_pair = NewTokenPair std_eth ex_contract ''acoin'' True OWNER_MODULE"

definition ex_token_pair :: token_pair where
  "ex_token_pair = NewTokenPair std_eth ex_external (CreateDenom (addr_Hex std_eth ex_external)) True OWNER_EXTERNAL"

definition ex_genesis :: erc20_genesis where
  "ex_genesis = \<lparr>eg_Params = erc20_DefaultParams, eg_TokenPairs = [ex_coin_pair, ex_token_pair]\<rparr>"

definition ex_empty :: "std_chain erc20_state" where
  "ex_empty = \<lparr>e_params = erc20_DefaultParams, e_pairs = [], e_byERC20 = [], e_byDenom = [], e_ext = ex_chain\<rparr>"

definition ex_erc20 :: "std_chain erc20_state" where
  "ex_erc20 = snd (erc20_InitGenesis std_erc20 ex_genesis ex_empty)"

lemmas ex_erc20_defs = ex_erc20_def ex_genesis_def ex_empty_def ex_chain_def ex_coin_pair_def ex_token_pair_def
  ex_user_def ex_bob_def ex_contract_def ex_external_def

end
