(* ===== verification/Erc20_Registry.thy ===== *)
theory Erc20_Registry
  imports Erc20_World
begin

text \<open>
  The registry of \<open>x/erc20\<close>: its well-formedness, kept by every message, proposal and hook, what a
  second registration of the same coin does to it, and the sanitised token name.
\<close>

section \<open>Well-formedness\<close>

text \<open>
  Every stored pair sits under its identifier and both lookup tables lead to it; every entry of a
  table leads to a stored pair with that contract or denomination.
\<close>

definition registry_ok :: "eth_ops \<Rightarrow> 'x erc20_state \<Rightarrow> bool" where
  "registry_ok E s \<longleftrightarrow>
     kv_ok (e_pairs s) \<and> kv_ok (e_byERC20 s) \<and> kv_ok (e_byDenom s) \<and>
     (\<forall>i p. kv_get (e_pairs s) i = Some p \<longrightarrow>
        i = GetID E p \<and> IsHexAddress E (Erc20Address p) \<and>
        kv_get (e_byERC20 s) (GetERC20Contract E p) = Some i \<and> kv_get (e_byDenom s) (tp_Denom p) = Some i) \<and>
     (\<forall>a i. kv_get (e_byERC20 s) a = Some i \<longrightarrow> (\<exists>p. kv_get (e_pairs s) i = Some p \<and> GetERC20Contract E p = a)) \<and>
     (\<forall>d i. kv_get (e_byDenom s) d = Some i \<longrightarrow> (\<exists>p. kv_get (e_pairs s) i = Some p \<and> tp_Denom p = d))"

text \<open>The hash of the new pair's identifier differs from those of the stored pairs, unless they hash the same text.\<close>

definition collision_free :: "eth_ops \<Rightarrow> 'x erc20_state \<Rightarrow> token_pair \<Rightarrow> bool" where
  "collision_free E s pair \<longleftrightarrow>
     (\<forall>p \<in> snd ` set (e_pairs s). GetID E p = GetID E pair \<longrightarrow>
        Erc20Address p @ ''|'' @ tp_Denom p = Erc20Address pair @ ''|'' @ tp_Denom pair)"

lemmas registry_defs = SetTokenPair_def SetERC20Map_def SetDenomMap_def deleteTokenPair_def deleteERC20Map_def
  deleteDenomMap_def DeleteTokenPair_def register_pair_def IsDenomRegistered_def IsERC20Registered_def GetERC20Map_def
  GetDenomMap_def

lemma registry_ok_ext [simp]: "registry_ok E (s\<lparr>e_ext := x\<rparr>) = registry_ok E s" "registry_ok E (s\<lparr>e_params := q\<rparr>) = registry_ok E s"
  by (simp_all add: registry_ok_def)

lemma registry_stored:
  assumes "registry_ok E s" and "kv_get (e_pairs s) i = Some p"
  shows "i = GetID E p" "IsHexAddress E (Erc20Address p)"
    "kv_get (e_byERC20 s) (GetERC20Contract E p) = Some i" "kv_get (e_byDenom s) (tp_Denom p) = Some i"
  using assms by (auto simp: registry_ok_def)

lemma registry_same:
  assumes ok: "registry_ok E s" and p: "kv_get (e_pairs s) i = Some p" and q: "kv_get (e_pairs s) j = Some q"
    and same: "tp_Denom p = tp_Denom q \<or> GetERC20Contract E p = GetERC20Contract E q"
  shows "i = j"
  using registry_stored [OF ok p] registry_stored [OF ok q] same by auto

lemma registry_byERC20:
  assumes "registry_ok E s" and "kv_get (e_byERC20 s) a = Some i"
  obtains p where "kv_get (e_pairs s) i = Some p" and "GetERC20Contract E p = a"
proof -
  from assms have "\<exists>p. kv_get (e_pairs s) i = Some p \<and> GetERC20Contract E p = a" unfolding registry_ok_def by blast
  with that show ?thesis by blast
qed

lemma registry_byDenom:
  assumes "registry_ok E s" and "kv_get (e_byDenom s) d = Some i"
  obtains p where "kv_get (e_pairs s) i = Some p" and "tp_Denom p = d"
proof -
  from assms have "\<exists>p. kv_get (e_pairs s) i = Some p \<and> tp_Denom p = d" unfolding registry_ok_def by blast
  with that show ?thesis by blast
qed

lemma bar_split:
  assumes "a @ ''|'' @ d = b @ ''|'' @ e" and "CHR ''|'' \<notin> set a" and "CHR ''|'' \<notin> set b"
  shows "a = b \<and> d = e"
  using assms
proof (induction a arbitrary: b)
  case Nil
  then show ?case by (cases b) auto
next
  case (Cons c a)
  then show ?case by (cases b) auto
qed

context eth_laws
begin

lemma fresh_id:
  assumes ok: "registry_ok E s" and hex: "IsHexAddress E (Erc20Address pair)" and cf: "collision_free E s pair"
    and new: "kv_get (e_byDenom s) (tp_Denom pair) = None"
  shows "kv_get (e_pairs s) (GetID E pair) = None"
proof (rule ccontr)
  assume "kv_get (e_pairs s) (GetID E pair) \<noteq> None"
  then obtain p where p: "kv_get (e_pairs s) (GetID E pair) = Some p" by blast
  note st = registry_stored [OF ok p]
  have kv: "kv_ok (e_pairs s)" using ok by (simp add: registry_ok_def)
  have "(GetID E pair, p) \<in> set (e_pairs s)" using kv_get_mem [OF kv, of "GetID E pair" p] p by simp
  then have "p \<in> snd ` set (e_pairs s)" by force
  then have "Erc20Address p @ ''|'' @ tp_Denom p = Erc20Address pair @ ''|'' @ tp_Denom pair"
    using cf st(1) unfolding collision_free_def by metis
  then have "tp_Denom p = tp_Denom pair" using bar_split IsHex_bar [OF st(2)] IsHex_bar [OF hex] by blast
  with st(4) new show False by simp
qed

lemma register_pair_ok:
  assumes ok: "registry_ok E s" and hex: "IsHexAddress E (Erc20Address pair)" and cf: "collision_free E s pair"
    and newD: "kv_get (e_byDenom s) (tp_Denom pair) = None"
    and newE: "kv_get (e_byERC20 s) (GetERC20Contract E pair) = None"
  shows "registry_ok E (register_pair E pair s)"
proof -
  have newI: "kv_get (e_pairs s) (GetID E pair) = None" by (rule fresh_id [OF ok hex cf newD])
  have old: "GetERC20Contract E p \<noteq> GetERC20Contract E pair \<and> tp_Denom p \<noteq> tp_Denom pair"
    if "kv_get (e_pairs s) i = Some p" for i p
    using registry_stored(3,4) [OF ok that] newD newE by auto
  show ?thesis
    unfolding registry_ok_def
  proof (intro conjI allI impI)
    show "kv_ok (e_pairs (register_pair E pair s))" "kv_ok (e_byERC20 (register_pair E pair s))"
      "kv_ok (e_byDenom (register_pair E pair s))"
      using ok by (simp_all add: registry_ok_def registry_defs kv_ok_set)
  next
    fix i p assume "kv_get (e_pairs (register_pair E pair s)) i = Some p"
    then have "i = GetID E pair \<and> p = pair \<or> i \<noteq> GetID E pair \<and> kv_get (e_pairs s) i = Some p"
      by (auto simp: registry_defs kv_simps split: if_splits)
    then show "i = GetID E p" "IsHexAddress E (Erc20Address p)"
      "kv_get (e_byERC20 (register_pair E pair s)) (GetERC20Contract E p) = Some i"
      "kv_get (e_byDenom (register_pair E pair s)) (tp_Denom p) = Some i"
      using hex old registry_stored [OF ok] by (auto simp: registry_defs kv_simps GetERC20Contract_def)
  next
    fix a i assume "kv_get (e_byERC20 (register_pair E pair s)) a = Some i"
    then have "a = GetERC20Contract E pair \<and> i = GetID E pair \<or> kv_get (e_byERC20 s) a = Some i"
      by (auto simp: registry_defs kv_simps GetERC20Contract_def split: if_splits)
    then show "\<exists>p. kv_get (e_pairs (register_pair E pair s)) i = Some p \<and> GetERC20Contract E p = a"
      using newI by (auto simp: registry_defs kv_simps elim!: registry_byERC20 [OF ok])
  next
    fix d i assume "kv_get (e_byDenom (register_pair E pair s)) d = Some i"
    then have "d = tp_Denom pair \<and> i = GetID E pair \<or> kv_get (e_byDenom s) d = Some i"
      by (auto simp: registry_defs kv_simps split: if_splits)
    then show "\<exists>p. kv_get (e_pairs (register_pair E pair s)) i = Some p \<and> tp_Denom p = d"
      using newI by (auto simp: registry_defs kv_simps elim!: registry_byDenom [OF ok])
  qed
qed

end

lemma DeleteTokenPair_ok:
  assumes ok: "registry_ok E s" and p: "kv_get (e_pairs s) i = Some pair"
  shows "registry_ok E (DeleteTokenPair E pair s)"
proof -
  note st = registry_stored [OF ok p]
  have other: "GetERC20Contract E q \<noteq> GetERC20Contract E pair \<and> tp_Denom q \<noteq> tp_Denom pair"
    if "kv_get (e_pairs s) j = Some q" "j \<noteq> i" for j q
    using registry_same [OF ok that(1) p] that(2) by auto
  show ?thesis
    unfolding registry_ok_def
  proof (intro conjI allI impI)
    show "kv_ok (e_pairs (DeleteTokenPair E pair s))" "kv_ok (e_byERC20 (DeleteTokenPair E pair s))"
      "kv_ok (e_byDenom (DeleteTokenPair E pair s))"
      using ok by (simp_all add: registry_ok_def registry_defs kv_ok_del)
  next
    fix j q assume "kv_get (e_pairs (DeleteTokenPair E pair s)) j = Some q"
    then have "j \<noteq> i \<and> kv_get (e_pairs s) j = Some q"
      using st(1) by (auto simp: registry_defs kv_simps split: if_splits)
    then show "j = GetID E q" "IsHexAddress E (Erc20Address q)"
      "kv_get (e_byERC20 (DeleteTokenPair E pair s)) (GetERC20Contract E q) = Some j"
      "kv_get (e_byDenom (DeleteTokenPair E pair s)) (tp_Denom q) = Some j"
      using other registry_stored [OF ok] by (auto simp: registry_defs kv_simps)
  next
    fix a j assume "kv_get (e_byERC20 (DeleteTokenPair E pair s)) a = Some j"
    then have a: "a \<noteq> GetERC20Contract E pair" "kv_get (e_byERC20 s) a = Some j"
      by (auto simp: registry_defs kv_simps split: if_splits)
    from a(2) obtain q where q: "kv_get (e_pairs s) j = Some q" "GetERC20Contract E q = a" by (rule registry_byERC20 [OF ok])
    moreover have "j \<noteq> i" using q a(1) p by auto
    ultimately show "\<exists>q. kv_get (e_pairs (DeleteTokenPair E pair s)) j = Some q \<and> GetERC20Contract E q = a"
      using st(1) by (simp add: registry_defs kv_simps)
  next
    fix d j assume "kv_get (e_byDenom (DeleteTokenPair E pair s)) d = Some j"
    then have d: "d \<noteq> tp_Denom pair" "kv_get (e_byDenom s) d = Some j"
      by (auto simp: registry_defs kv_simps split: if_splits)
    from d(2) obtain q where q: "kv_get (e_pairs s) j = Some q" "tp_Denom q = d" by (rule registry_byDenom [OF ok])
    moreover have "j \<noteq> i" using q d(1) p by auto
    ultimately show "\<exists>q. kv_get (e_pairs (DeleteTokenPair E pair s)) j = Some q \<and> tp_Denom q = d"
      using st(1) by (simp add: registry_defs kv_simps)
  qed
qed

lemma toggle_ok:
  assumes ok: "registry_ok E s" and p: "kv_get (e_pairs s) i = Some pair"
  shows "registry_ok E (SetTokenPair E (pair\<lparr>Enabled := b\<rparr>) s)"
proof -
  note st = registry_stored [OF ok p]
  have same: "GetID E (pair\<lparr>Enabled := b\<rparr>) = i" "GetERC20Contract E (pair\<lparr>Enabled := b\<rparr>) = GetERC20Contract E pair"
    using st(1) by (simp_all add: GetID_def GetERC20Contract_def)
  have get: "kv_get (e_pairs (SetTokenPair E (pair\<lparr>Enabled := b\<rparr>) s)) j =
      (if j = i then Some (pair\<lparr>Enabled := b\<rparr>) else kv_get (e_pairs s) j)" for j
    by (simp add: registry_defs kv_simps same)
  show ?thesis
    unfolding registry_ok_def
  proof (intro conjI allI impI)
    show "kv_ok (e_pairs (SetTokenPair E (pair\<lparr>Enabled := b\<rparr>) s))"
      "kv_ok (e_byERC20 (SetTokenPair E (pair\<lparr>Enabled := b\<rparr>) s))" "kv_ok (e_byDenom (SetTokenPair E (pair\<lparr>Enabled := b\<rparr>) s))"
      using ok by (simp_all add: registry_ok_def registry_defs kv_ok_set)
  next
    fix j q assume "kv_get (e_pairs (SetTokenPair E (pair\<lparr>Enabled := b\<rparr>) s)) j = Some q"
    then have "j = i \<and> q = pair\<lparr>Enabled := b\<rparr> \<or> kv_get (e_pairs s) j = Some q"
      by (auto simp: get split: if_splits)
    then show "j = GetID E q" "IsHexAddress E (Erc20Address q)"
      "kv_get (e_byERC20 (SetTokenPair E (pair\<lparr>Enabled := b\<rparr>) s)) (GetERC20Contract E q) = Some j"
      "kv_get (e_byDenom (SetTokenPair E (pair\<lparr>Enabled := b\<rparr>) s)) (tp_Denom q) = Some j"
      using st same registry_stored [OF ok] by (auto simp: SetTokenPair_def)
  next
    fix a j assume "kv_get (e_byERC20 (SetTokenPair E (pair\<lparr>Enabled := b\<rparr>) s)) a = Some j"
    then have "kv_get (e_byERC20 s) a = Some j" by (simp add: SetTokenPair_def)
    then obtain q where "kv_get (e_pairs s) j = Some q" "GetERC20Contract E q = a" by (rule registry_byERC20 [OF ok])
    then show "\<exists>q. kv_get (e_pairs (SetTokenPair E (pair\<lparr>Enabled := b\<rparr>) s)) j = Some q \<and> GetERC20Contract E q = a"
      using p same by (auto simp: get)
  next
    fix d j assume "kv_get (e_byDenom (SetTokenPair E (pair\<lparr>Enabled := b\<rparr>) s)) d = Some j"
    then have "kv_get (e_byDenom s) d = Some j" by (simp add: SetTokenPair_def)
    then obtain q where "kv_get (e_pairs s) j = Some q" "tp_Denom q = d" by (rule registry_byDenom [OF ok])
    then show "\<exists>q. kv_get (e_pairs (SetTokenPair E (pair\<lparr>Enabled := b\<rparr>) s)) j = Some q \<and> tp_Denom q = d"
      using p by (auto simp: get)
  qed
qed

section \<open>Every operation keeps the registry well-formed\<close>

lemma GetTokenPair_Some: "GetTokenPair s i = Some p \<longleftrightarrow> (\<exists>j. i = Some j \<and> kv_get (e_pairs s) j = Some p)"
  by (cases i) (auto simp: GetTokenPair_def)

lemma MintingEnabled_stored:
  assumes "MintingEnabled K s a b token = Ok pair"
  obtains i where "GetTokenPairID (ek_E K) s token = Some i" and "kv_get (e_pairs s) i = Some pair"
  using assms
  by (auto simp: MintingEnabled_def Let_def GetTokenPair_Some split: if_splits option.splits)

lemma e_call_iff: "e_call m s = (r, s') \<longleftrightarrow> (\<exists>x. m (e_ext s) = (r, x) \<and> s' = s\<lparr>e_ext := x\<rparr>)"
  by (auto simp: e_call_def split: prod.splits)

lemma collision_free_ext [simp]: "collision_free E (s\<lparr>e_ext := x\<rparr>) p = collision_free E s p"
  by (simp add: collision_free_def)

text \<open>A conversion leaves the registry as it is or removes the pair of a destroyed contract.\<close>

lemma ConvertCoin_cases:
  assumes "ConvertCoin K msg s = (Ok r, s')"
  obtains (deleted) i pair where "kv_get (e_pairs s) i = Some pair" and "s' = DeleteTokenPair (ek_E K) pair s" and "r = None"
        and "evm_IsContract (ek_V K) (e_ext s) (GetERC20Contract (ek_E K) pair) \<noteq> Some True"
    | (coin) i pair sender x where "GetTokenPairID (ek_E K) s (Denom (cc_Coin msg)) = Some i" and "kv_get (e_pairs s) i = Some pair"
        and "AccAddressFromBech32 (ek_H K) (cc_Sender msg) = Some sender"
        and "IsNativeCoin pair"
        and "MintingEnabled K s sender (HexToAddress (ek_E K) (cc_Receiver msg)) (Denom (cc_Coin msg)) = Ok pair"
        and "convertCoinNativeCoin K pair msg (HexToAddress (ek_E K) (cc_Receiver msg)) sender (e_ext s) = (Ok (), x)"
        and "s' = s\<lparr>e_ext := x\<rparr>" and "r = Some ()"
    | (erc20) i pair sender x where "GetTokenPairID (ek_E K) s (Denom (cc_Coin msg)) = Some i" and "kv_get (e_pairs s) i = Some pair"
        and "AccAddressFromBech32 (ek_H K) (cc_Sender msg) = Some sender"
        and "IsNativeERC20 pair"
        and "MintingEnabled K s sender (HexToAddress (ek_E K) (cc_Receiver msg)) (Denom (cc_Coin msg)) = Ok pair"
        and "convertCoinNativeERC20 K pair msg (HexToAddress (ek_E K) (cc_Receiver msg)) sender (e_ext s) = (Ok (), x)"
        and "s' = s\<lparr>e_ext := x\<rparr>" and "r = Some ()"
proof -
  from assms obtain sender pair where sender: "AccAddressFromBech32 (ek_H K) (cc_Sender msg) = Some sender"
    and m: "MintingEnabled K s sender (HexToAddress (ek_E K) (cc_Receiver msg)) (Denom (cc_Coin msg)) = Ok pair"
    by (auto simp: ConvertCoin_def Let_def split: option.splits outcome.splits)
  from m obtain i where i: "GetTokenPairID (ek_E K) s (Denom (cc_Coin msg)) = Some i" "kv_get (e_pairs s) i = Some pair"
    by (rule MintingEnabled_stored)
  note def = assms [unfolded ConvertCoin_def Let_def sender m option.case outcome.case]
  show thesis
  proof (cases "evm_IsContract (ek_V K) (e_ext s) (HexToAddress (ek_E K) (Erc20Address pair)) = Some True")
    case False
    with def show thesis by (intro deleted [OF i(2)]) (auto simp: GetERC20Contract_def)
  next
    case True
    with def consider "IsNativeCoin pair" | "\<not> IsNativeCoin pair" "IsNativeERC20 pair"
      by (auto split: if_splits)
    then show thesis
    proof cases
      case 1
      with def True show thesis
        by (auto simp: bindS_Ok_iff e_call_iff ret_def intro: coin [OF i sender 1 m])
    next
      case 2
      with def True show thesis
        by (auto simp: bindS_Ok_iff e_call_iff ret_def intro: erc20 [OF i sender 2(2) m])
    qed
  qed
qed

lemma ConvertERC20_cases:
  assumes "ConvertERC20 K msg s = (Ok r, s')"
  obtains (deleted) i pair where "kv_get (e_pairs s) i = Some pair" and "s' = DeleteTokenPair (ek_E K) pair s" and "r = None"
        and "evm_IsContract (ek_V K) (e_ext s) (GetERC20Contract (ek_E K) pair) \<noteq> Some True"
    | (coin) i pair receiver x where "GetTokenPairID (ek_E K) s (ce_ContractAddress msg) = Some i" and "kv_get (e_pairs s) i = Some pair"
        and "AccAddressFromBech32 (ek_H K) (ce_Receiver msg) = Some receiver"
        and "IsNativeCoin pair"
        and "MintingEnabled K s (HexToAddress (ek_E K) (ce_Sender msg)) receiver (ce_ContractAddress msg) = Ok pair"
        and "convertERC20NativeCoin K pair msg receiver (HexToAddress (ek_E K) (ce_Sender msg)) (e_ext s) = (Ok (), x)"
        and "s' = s\<lparr>e_ext := x\<rparr>" and "r = Some ()"
    | (token) i pair receiver x where "GetTokenPairID (ek_E K) s (ce_ContractAddress msg) = Some i" and "kv_get (e_pairs s) i = Some pair"
        and "AccAddressFromBech32 (ek_H K) (ce_Receiver msg) = Some receiver"
        and "IsNativeERC20 pair"
        and "MintingEnabled K s (HexToAddress (ek_E K) (ce_Sender msg)) receiver (ce_ContractAddress msg) = Ok pair"
        and "convertERC20NativeToken K pair msg receiver (HexToAddress (ek_E K) (ce_Sender msg)) (e_ext s) = (Ok (), x)"
        and "s' = s\<lparr>e_ext := x\<rparr>" and "r = Some ()"
proof -
  from assms obtain receiver pair where receiver: "AccAddressFromBech32 (ek_H K) (ce_Receiver msg) = Some receiver"
    and m: "MintingEnabled K s (HexToAddress (ek_E K) (ce_Sender msg)) receiver (ce_ContractAddress msg) = Ok pair"
    by (auto simp: ConvertERC20_def Let_def split: option.splits outcome.splits)
  from m obtain i where i: "GetTokenPairID (ek_E K) s (ce_ContractAddress msg) = Some i" "kv_get (e_pairs s) i = Some pair"
    by (rule MintingEnabled_stored)
  note def = assms [unfolded ConvertERC20_def Let_def receiver m option.case outcome.case]
  show thesis
  proof (cases "evm_IsContract (ek_V K) (e_ext s) (HexToAddress (ek_E K) (Erc20Address pair)) = Some True")
    case False
    with def show thesis by (intro deleted [OF i(2)]) (auto simp: GetERC20Contract_def)
  next
    case True
    with def consider "IsNativeCoin pair" | "\<not> IsNativeCoin pair" "IsNativeERC20 pair"
      by (auto split: if_splits)
    then show thesis
    proof cases
      case 1
      with def True show thesis
        by (auto simp: bindS_Ok_iff e_call_iff ret_def intro: coin [OF i receiver 1 m])
    next
      case 2
      with def True show thesis
        by (auto simp: bindS_Ok_iff e_call_iff ret_def intro: token [OF i receiver 2(2) m])
    qed
  qed
qed

lemma erc20_PostTxProcessing_registry:
  "erc20_PostTxProcessing K logs s = (r, s') \<Longrightarrow> \<exists>x. s' = s\<lparr>e_ext := x\<rparr>"
  by (auto simp: erc20_PostTxProcessing_def e_call_iff split: if_splits intro: exI [of _ "e_ext s"])

lemma RegisterCoin_registered:
  assumes "RegisterCoin K m s = (Ok pair, s')"
  obtains a x y where "pair = NewTokenPair (ek_E K) a (md_Base m) True OWNER_MODULE"
    and "s' = register_pair (ek_E K) pair (s\<lparr>e_ext := x\<rparr>)" and "DeployERC20Contract K m y = (Ok a, x)"
proof -
  from assms obtain t a u where "e_call (rewrap ErrInternalTokenPair (verifyMetadata K m)) s = (Ok (), t)"
    and "e_call (DeployERC20Contract K m) t = (Ok a, u)"
    and "pair = NewTokenPair (ek_E K) a (md_Base m) True OWNER_MODULE" and "s' = register_pair (ek_E K) pair u"
    by (auto simp: RegisterCoin_def bindS_Ok_iff Let_def split: if_splits)
  then show thesis using that by (auto simp: e_call_iff)
qed

lemma CreateCoinMetadata_Ok:
  assumes "CreateCoinMetadata K c s = (Ok md, s')"
  shows "\<exists>x. s' = s\<lparr>e_ext := x\<rparr>" and "md_Name md = CreateDenom (addr_Hex (ek_E K) c)"
    and "\<not> IsDenomRegistered s (CreateDenom (addr_Hex (ek_E K) c))"
  using assms
  by (auto simp: CreateCoinMetadata_def bindS_Ok_iff e_call_iff Let_def IsDenomRegistered_def split: if_splits)

lemma RegisterERC20_registered:
  assumes "RegisterERC20 K c s = (Ok pair, s')"
  obtains x where "s' = register_pair (ek_E K) pair (s\<lparr>e_ext := x\<rparr>)"
    and "pair = NewTokenPair (ek_E K) c (CreateDenom (addr_Hex (ek_E K) c)) True OWNER_EXTERNAL"
    and "\<not> IsERC20Registered s c" and "\<not> IsDenomRegistered s (CreateDenom (addr_Hex (ek_E K) c))"
proof -
  from assms obtain md t where c: "CreateCoinMetadata K c s = (Ok md, t)" and new: "\<not> IsERC20Registered s c"
    and pair: "pair = NewTokenPair (ek_E K) c (md_Name md) True OWNER_EXTERNAL" and s': "s' = register_pair (ek_E K) pair t"
    by (auto simp: RegisterERC20_def bindS_Ok_iff Let_def split: if_splits)
  show thesis using that CreateCoinMetadata_Ok [OF c] new pair s' by metis
qed

text \<open>
  One successful message, proposal or hook.  A coin is registered once, which is what \<open>RegisterCoin\<close>
  means to check; the address of a deployed contract is new, because the nonce it is derived from is;
  the module account has no key and signs no message; and the denomination of a converted coin does
  not read as a hexadecimal address.
\<close>

inductive erc20_step :: "'x erc20_keepers \<Rightarrow> 'x erc20_state \<Rightarrow> 'x erc20_state \<Rightarrow> bool" for K where
  coin: "RegisterCoin K m s = (Ok p, s') \<Longrightarrow> \<not> IsDenomRegistered s (md_Base m) \<Longrightarrow>
         \<not> IsERC20Registered s (GetERC20Contract (ek_E K) p) \<Longrightarrow> collision_free (ek_E K) s p \<Longrightarrow> erc20_step K s s'"
| token: "RegisterERC20 K c s = (Ok p, s') \<Longrightarrow> length c = 20 \<Longrightarrow> collision_free (ek_E K) s p \<Longrightarrow> erc20_step K s s'"
| toggle: "ToggleConversion K t s = (Ok p, s') \<Longrightarrow> erc20_step K s s'"
| convert_coin: "ConvertCoin K cm s = (Ok r, s') \<Longrightarrow> \<not> IsHexAddress (ek_E K) (Denom (cc_Coin cm)) \<Longrightarrow>
         0 < Amt (cc_Coin cm) \<Longrightarrow>
         AccAddressFromBech32 (ek_H K) (cc_Sender cm) \<noteq> Some (GetModuleAddress (ek_A K) erc20_ModuleName) \<Longrightarrow> erc20_step K s s'"
| convert_erc20: "ConvertERC20 K em s = (Ok r, s') \<Longrightarrow> IsHexAddress (ek_E K) (ce_ContractAddress em) \<Longrightarrow>
         0 < ce_Amount em \<Longrightarrow> erc20_step K s s'"
| hook: "erc20_PostTxProcessing K logs s = (Ok (), s') \<Longrightarrow> erc20_step K s s'"
| params: "erc20_step K s (erc20_SetParams q s)"

lemma step_registry:
  assumes laws: "eth_laws (ek_E K)" and step: "erc20_step K s s'" and ok: "registry_ok (ek_E K) s"
    and len: "\<And>m x a y. DeployERC20Contract K m x = (Ok a, y) \<Longrightarrow> length a = 20"
  shows "registry_ok (ek_E K) s'"
  using step
proof cases
  case (coin m p)
  from coin(1) obtain a x y where p: "p = NewTokenPair (ek_E K) a (md_Base m) True OWNER_MODULE"
    and s': "s' = register_pair (ek_E K) p (s\<lparr>e_ext := x\<rparr>)" and a: "DeployERC20Contract K m y = (Ok a, x)"
    by (rule RegisterCoin_registered)
  have "IsHexAddress (ek_E K) (Erc20Address p)"
    using eth_laws.Hex_IsHex [OF laws len [OF a]] by (simp add: p NewTokenPair_def)
  then show ?thesis
    using eth_laws.register_pair_ok [OF laws, of "s\<lparr>e_ext := x\<rparr>" p] ok coin
    by (simp add: s' p NewTokenPair_def registry_defs kv_has_def)
next
  case (token c p)
  from token(1) obtain x where s': "s' = register_pair (ek_E K) p (s\<lparr>e_ext := x\<rparr>)"
    and p: "p = NewTokenPair (ek_E K) c (CreateDenom (addr_Hex (ek_E K) c)) True OWNER_EXTERNAL"
    and new: "\<not> IsERC20Registered s c" "\<not> IsDenomRegistered s (CreateDenom (addr_Hex (ek_E K) c))"
    by (rule RegisterERC20_registered)
  have "GetERC20Contract (ek_E K) p = c" "IsHexAddress (ek_E K) (Erc20Address p)"
    using eth_laws.Hex_inv [OF laws token(2)] eth_laws.Hex_IsHex [OF laws token(2)]
    by (simp_all add: p NewTokenPair_def GetERC20Contract_def)
  then show ?thesis
    using eth_laws.register_pair_ok [OF laws, of "s\<lparr>e_ext := x\<rparr>" p] ok new token(3)
    by (simp add: s' p NewTokenPair_def registry_defs kv_has_def)
next
  case (toggle t p)
  then show ?thesis
    using toggle_ok [OF ok] by (auto simp: ToggleConversion_def Let_def GetTokenPair_Some split: if_splits option.splits)
next
  case (convert_coin cm r)
  from convert_coin(1) show ?thesis
    by (cases rule: ConvertCoin_cases) (use ok DeleteTokenPair_ok [OF ok] in auto)
next
  case (convert_erc20 em r)
  from convert_erc20(1) show ?thesis
    by (cases rule: ConvertERC20_cases) (use ok DeleteTokenPair_ok [OF ok] in auto)
next
  case (hook logs)
  then show ?thesis using ok erc20_PostTxProcessing_registry by fastforce
next
  case (params q)
  then show ?thesis using ok by (simp add: erc20_SetParams_def)
qed

text \<open>Deploying a contract gives the address derived from the nonce.\<close>

lemma Deploy_address:
  "DeployERC20Contract K m x = (Ok a, y) \<Longrightarrow> \<exists>n. a = CreateAddress (ek_E K) (ModuleAddress K) n"
  by (auto simp: DeployERC20Contract_def Let_def bindS_Ok_iff ret_def split: option.splits outcome.splits if_splits)

abbreviation "pair_text p \<equiv> Erc20Address p @ ''|'' @ tp_Denom p"

lemma genesis_registry:
  assumes laws: "eth_laws E" and ok: "registry_ok E s"
    and valid: "\<And>p. p \<in> set ps \<Longrightarrow> IsHexAddress E (Erc20Address p)"
    and dist: "distinct (map tp_Denom ps)" "distinct (map (GetERC20Contract E) ps)"
    and new: "\<And>p. p \<in> set ps \<Longrightarrow> kv_get (e_byDenom s) (tp_Denom p) = None \<and> kv_get (e_byERC20 s) (GetERC20Contract E p) = None"
    and inj: "inj_on (tm_Sum E) (pair_text ` (snd ` set (e_pairs s) \<union> set ps))"
  shows "registry_ok E (foldl (\<lambda>t p. register_pair E p t) s ps)"
  using ok valid dist new inj
proof (induction ps arbitrary: s)
  case (Cons p ps)
  have "collision_free E s p"
    using Cons.prems(6) by (auto simp: collision_free_def GetID_def inj_on_def)
  then have ok': "registry_ok E (register_pair E p s)"
    using eth_laws.register_pair_ok [OF laws Cons.prems(1)] Cons.prems(2,5) by simp
  have sub: "snd ` set (e_pairs (register_pair E p s)) \<subseteq> insert p (snd ` set (e_pairs s))"
  proof -
    have "set (kv_set kv k v) \<subseteq> insert (k, v) (set kv)" for kv k and v :: token_pair
      by (induction kv k v rule: kv_set.induct) auto
    then have "set (e_pairs (register_pair E p s)) \<subseteq> insert (GetID E p, p) (set (e_pairs s))"
      by (simp add: registry_defs)
    then show ?thesis by (force dest: subsetD)
  qed
  have "registry_ok E (foldl (\<lambda>t p. register_pair E p t) (register_pair E p s) ps)"
  proof (rule Cons.IH [OF ok'])
    show "\<And>q. q \<in> set ps \<Longrightarrow> IsHexAddress E (Erc20Address q)" using Cons.prems(2) by simp
    show "distinct (map tp_Denom ps)" "distinct (map (GetERC20Contract E) ps)" using Cons.prems(3,4) by simp_all
    show "kv_get (e_byDenom (register_pair E p s)) (tp_Denom q) = None \<and>
        kv_get (e_byERC20 (register_pair E p s)) (GetERC20Contract E q) = None" if q: "q \<in> set ps" for q
    proof -
      have "tp_Denom q \<in> tp_Denom ` set ps" "GetERC20Contract E q \<in> GetERC20Contract E ` set ps" using q by auto
      then have "tp_Denom q \<noteq> tp_Denom p" "GetERC20Contract E q \<noteq> GetERC20Contract E p"
        using Cons.prems(3,4) by auto
      then show ?thesis using Cons.prems(5) [of q] q by (simp add: registry_defs kv_simps GetERC20Contract_def)
    qed
    show "inj_on (tm_Sum E) (pair_text ` (snd ` set (e_pairs (register_pair E p s)) \<union> set ps))"
      by (rule inj_on_subset [OF Cons.prems(6)]) (use sub in auto)
  qed
  then show ?case by simp
qed simp

lemma registry_lookup:
  assumes ok: "registry_ok E s" and p: "kv_get (e_pairs s) i = Some p"
  shows "GetTokenPair s (GetTokenPairID E s (Erc20Address p)) = Some p"
    and "\<not> IsHexAddress E (tp_Denom p) \<Longrightarrow> GetTokenPair s (GetTokenPairID E s (tp_Denom p)) = Some p"
  using registry_stored [OF ok p] p
  by (simp_all add: GetTokenPairID_def GetTokenPair_def GetERC20Map_def GetDenomMap_def GetERC20Contract_def)

lemma InitGenesis_registry:
  assumes laws: "eth_laws (ek_E K)" and valid: "erc20_genesis_Validate C (ek_E K) data = Ok ()"
    and dist: "distinct (map (GetERC20Contract (ek_E K)) (eg_TokenPairs data))"
    and inj: "inj_on (tm_Sum (ek_E K)) (pair_text ` set (eg_TokenPairs data))"
    and empty: "e_pairs s0 = []" "e_byERC20 s0 = []" "e_byDenom s0 = []"
    and init: "erc20_InitGenesis K data s0 = (Ok (), s1)"
  shows "registry_ok (ek_E K) s1"
proof -
  have s1: "s1 = foldl (\<lambda>t p. register_pair (ek_E K) p t) (s0\<lparr>e_params := eg_Params data\<rparr>) (eg_TokenPairs data)"
    using init by (auto simp: erc20_InitGenesis_def Let_def erc20_SetParams_def register_pair_def GetERC20Contract_def split: if_splits)
  show ?thesis
    unfolding s1
    by (rule genesis_registry [OF laws])
      (use valid dist inj empty eth_laws.ValidateAddress_iff [OF laws] in
        \<open>auto simp: registry_ok_def kv_get_def erc20_genesis_Validate_def erc20_pairs_Validate_Ok\<close>)
qed


lemma std_collision_free: "collision_free std_eth s p"
proof -
  have "tm_Sum std_eth a = tm_Sum std_eth b \<longleftrightarrow> a = b" for a b by (simp add: std_eth_def)
  then show ?thesis by (simp add: collision_free_def GetID_def)
qed

lemma ex_init: "erc20_InitGenesis std_erc20 ex_genesis ex_empty = (Ok (), ex_erc20)"
  by (simp add: ex_erc20_def erc20_InitGenesis_def std_erc20_def Let_def)

lemma ex_registry: "registry_ok std_eth ex_erc20"
proof -
  have "erc20_genesis_Validate std_coins std_eth ex_genesis = Ok ()" by code_simp
  moreover have "distinct (map (GetERC20Contract std_eth) (eg_TokenPairs ex_genesis))" by code_simp
  moreover have "inj_on (tm_Sum std_eth) (pair_text ` set (eg_TokenPairs ex_genesis))" by (simp add: std_eth_def inj_on_def)
  ultimately show ?thesis
    using InitGenesis_registry [of std_erc20 std_coins ex_genesis ex_empty ex_erc20] ex_init stde.eth_laws_axioms
    by (simp add: ex_empty_def)
qed


section \<open>Registering a coin twice\<close>

text \<open>C31. \<open>RegisterCoin\<close> looks for an existing pair under the metadata's name but registers its base
  denomination.  A coin whose name is not its base denomination can be registered a second time: the
  second pair takes over the denomination, the first one stays stored under its own contract, and the
  registry is no longer well-formed.\<close>

theorem RegisterCoin_twice:
  assumes laws: "eth_laws (ek_E K)" and ok: "registry_ok (ek_E K) s"
    and old: "kv_get (e_pairs s) i = Some old" "tp_Denom old = md_Base m"
    and enabled: "EnableErc20 (e_params s)" and evm: "\<not> Contains (md_Base m) ''evm''"
    and name: "\<not> IsDenomRegistered s (md_Name m)" and total: "HasSupply (ek_M K) (e_ext s) (md_Base m)"
    and meta: "GetDenomMetaData (ek_M K) (e_ext s) (md_Base m) = Some m"
    and deploy: "DeployERC20Contract K m (e_ext s) = (Ok a, x)" and new: "\<not> IsERC20Registered s a"
    and cf: "collision_free (ek_E K) s (NewTokenPair (ek_E K) a (md_Base m) True OWNER_MODULE)"
  shows "\<exists>pair s'. RegisterCoin K m s = (Ok pair, s') \<and> pair \<noteq> old \<and> tp_Denom pair = tp_Denom old \<and>
    GetTokenPair s' (GetDenomMap s' (md_Base m)) = Some pair \<and>
    GetTokenPair s' (GetERC20Map s' (GetERC20Contract (ek_E K) old)) = Some old \<and> \<not> registry_ok (ek_E K) s'"
proof -
  define pair where "pair = NewTokenPair (ek_E K) a (md_Base m) True OWNER_MODULE"
  define s' where "s' = register_pair (ek_E K) pair (s\<lparr>e_ext := x\<rparr>)"
  note st = registry_stored [OF ok old(1)]
  have run: "RegisterCoin K m s = (Ok pair, s')"
    using enabled evm name total meta deploy EqualMetadata_eq [of m m]
    by (simp add: RegisterCoin_def bindS_def e_call_def rewrap_def verifyMetadata_def Let_def pair_def s'_def)
  have "length a = 20" using Deploy_address [OF deploy] eth_laws.Create_len [OF laws] by auto
  then have contract: "GetERC20Contract (ek_E K) pair = a" and hex: "IsHexAddress (ek_E K) (Erc20Address pair)"
    using eth_laws.Hex_inv [OF laws] eth_laws.Hex_IsHex [OF laws] by (simp_all add: pair_def NewTokenPair_def GetERC20Contract_def)
  have diff: "a \<noteq> GetERC20Contract (ek_E K) old" using new st(3) by (auto simp: IsERC20Registered_def kv_has_def)
  then have neq: "pair \<noteq> old" using contract by auto
  have kv: "kv_ok (e_pairs s)" using ok by (simp add: registry_ok_def)
  have "(i, old) \<in> set (e_pairs s)" using kv_get_mem [OF kv, of i old] old(1) by simp
  then have mem: "old \<in> snd ` set (e_pairs s)" by force
  have idneq: "GetID (ek_E K) pair \<noteq> i"
  proof
    assume "GetID (ek_E K) pair = i"
    then have "pair_text old = pair_text pair" using cf mem st(1) unfolding collision_free_def pair_def by metis
    then have "Erc20Address old = Erc20Address pair"
      using bar_split eth_laws.IsHex_bar [OF laws st(2)] eth_laws.IsHex_bar [OF laws hex] by blast
    then show False using diff contract by (simp add: GetERC20Contract_def)
  qed
  have D: "GetTokenPair s' (GetDenomMap s' (md_Base m)) = Some pair"
    by (simp add: s'_def registry_defs kv_simps GetTokenPair_def pair_def NewTokenPair_def)
  have O: "kv_get (e_pairs s') i = Some old" using idneq old(1) by (simp add: s'_def registry_defs kv_simps)
  have E: "GetTokenPair s' (GetERC20Map s' (GetERC20Contract (ek_E K) old)) = Some old"
    using diff contract st(3) O by (simp add: s'_def registry_defs kv_simps GetTokenPair_def GetERC20Contract_def)
  have "\<not> registry_ok (ek_E K) s'"
  proof
    assume "registry_ok (ek_E K) s'"
    from registry_stored(4) [OF this O] have "kv_get (e_byDenom s') (md_Base m) = Some i" by (simp add: old(2))
    then show False using idneq by (simp add: s'_def registry_defs kv_simps pair_def NewTokenPair_def)
  qed
  with run neq D E old(2) show ?thesis by (auto simp: pair_def NewTokenPair_def)
qed

definition ex_metadata :: metadata where
  "ex_metadata = \<lparr>md_Description = ''a coin'', md_DenomUnits = [\<lparr>du_Denom = ''acoin'', du_Exponent = 0, du_Aliases = []\<rparr>],
     md_Base = ''acoin'', md_Display = ''acoin'', md_Name = ''Coin'', md_Symbol = ''C''\<rparr>"

text \<open>The state after the first registration of \<open>ex_metadata\<close>.\<close>

definition ex_once :: "std_chain erc20_state" where
  "ex_once = snd (RegisterCoin std_erc20 ex_metadata ex_empty)"

theorem RegisterCoin_twice_witness:
  "\<exists>pair s'. RegisterCoin std_erc20 ex_metadata ex_once = (Ok pair, s') \<and> tp_Denom pair = ''acoin'' \<and> \<not> registry_ok std_eth s'"
proof -
  define old where "old = NewTokenPair std_eth (CreateAddress std_eth std_module 0) ''acoin'' True OWNER_MODULE"
  have first: "RegisterCoin std_erc20 ex_metadata ex_empty = (Ok old, ex_once)"
  proof -
    have "fst (RegisterCoin std_erc20 ex_metadata ex_empty) = Ok old" unfolding old_def by code_simp
    then show ?thesis by (simp add: ex_once_def prod_eq_iff)
  qed
  have empty: "registry_ok std_eth ex_empty" by (simp add: registry_ok_def ex_empty_def kv_get_def)
  have len: "DeployERC20Contract std_erc20 m x = (Ok a, y) \<Longrightarrow> length a = 20" for m x a y
    using Deploy_address [of std_erc20 m x a y] stde.Create_len by auto
  have "erc20_step std_erc20 ex_empty ex_once"
    by (rule erc20_step.coin [OF first])
      (simp_all add: ex_empty_def IsDenomRegistered_def IsERC20Registered_def kv_has_def kv_get_def collision_free_def)
  then have ok: "registry_ok std_eth ex_once"
    using step_registry [of std_erc20 ex_empty ex_once] empty stde.eth_laws_axioms len by simp
  define a where "a = CreateAddress std_eth std_module 1"
  define x where "x = snd (DeployERC20Contract std_erc20 ex_metadata (e_ext ex_once))"
  have deploy: "DeployERC20Contract std_erc20 ex_metadata (e_ext ex_once) = (Ok a, x)"
  proof -
    have "fst (DeployERC20Contract std_erc20 ex_metadata (e_ext ex_once)) = Ok a" unfolding a_def by code_simp
    then show ?thesis by (simp add: x_def prod_eq_iff)
  qed
  have "kv_get (e_pairs ex_once) (GetID std_eth old) = Some old" unfolding old_def by code_simp
  moreover have "tp_Denom old = md_Base ex_metadata" by (simp add: old_def NewTokenPair_def ex_metadata_def)
  moreover have "EnableErc20 (e_params ex_once)" by code_simp
  moreover have "\<not> Contains (md_Base ex_metadata) ''evm''" by code_simp
  moreover have "\<not> IsDenomRegistered ex_once (md_Name ex_metadata)" by code_simp
  moreover have "HasSupply std_meta (e_ext ex_once) (md_Base ex_metadata)" by code_simp
  moreover have "GetDenomMetaData std_meta (e_ext ex_once) (md_Base ex_metadata) = Some ex_metadata" by code_simp
  moreover have "\<not> IsERC20Registered ex_once a" unfolding a_def by code_simp
  moreover have "collision_free std_eth ex_once (NewTokenPair std_eth a (md_Base ex_metadata) True OWNER_MODULE)"
    by (rule std_collision_free)
  ultimately show ?thesis
    using RegisterCoin_twice [of std_erc20 ex_once "GetID std_eth old" old ex_metadata a x] ok deploy stde.eth_laws_axioms
    by (auto simp: ex_metadata_def)
qed

section \<open>Token names\<close>

lemma drop_numbers_set: "set (drop_numbers b s) \<subseteq> set s"
  by (induction b s rule: drop_numbers.induct) auto

lemma drop_numbers_no_digit: "s = [] \<or> \<not> is_digit (hd s) \<Longrightarrow> CHR 0x0A \<notin> set s \<Longrightarrow> drop_numbers b s = s"
proof (induction b s rule: drop_numbers.induct)
  case (2 b c cs)
  have "drop_numbers False cs = cs" if "CHR 0x0A \<notin> set cs" for cs
    using that by (induction cs) auto
  then show ?case using 2 by auto
qed simp

lemma removeSpecialChars_chars: "list_all denom_char (removeSpecialChars s)"
  by (cases s) (auto simp: list_all_iff denom_char_def)

lemma removeSpecialChars_id: "s = [] \<or> is_letter (hd s) \<Longrightarrow> list_all denom_char s \<Longrightarrow> removeSpecialChars s = s"
  by (cases s) (auto simp: list_all_iff)

lemma removeInvalidPrefixes_spec:
  "\<not> HasPrefix (removeInvalidPrefixes s) ''ibc/'' \<and> \<not> HasPrefix (removeInvalidPrefixes s) ''erc20/'' \<and>
   (\<exists>n. removeInvalidPrefixes s = drop n s)"
proof (induction s rule: removeInvalidPrefixes.induct)
  case (1 s)
  show ?case
  proof (cases "HasPrefix s ''ibc/''")
    case True
    then show ?thesis using 1(1) by (subst (1 2 3) removeInvalidPrefixes.simps) (auto simp: add.commute)
  next
    case F: False
    show ?thesis
    proof (cases "HasPrefix s ''erc20/''")
      case True
      then show ?thesis using F 1(2) by (subst (1 2 3) removeInvalidPrefixes.simps) auto
    next
      case False
      then show ?thesis using F by (subst (1 2 3) removeInvalidPrefixes.simps) (auto intro: exI [of _ 0])
    qed
  qed
qed

text \<open>C32. Sanitising a token name ends for every name, with at most 128 characters that may occur in a
  denomination and without an \<open>ibc/\<close> or \<open>erc20/\<close> prefix left; a name that is already in this form and
  starts with a letter is not changed.\<close>

theorem SanitizeERC20Name_correct:
  "length (SanitizeERC20Name s) \<le> 128 \<and> list_all denom_char (SanitizeERC20Name s) \<and>
   \<not> HasPrefix (SanitizeERC20Name s) ''ibc/'' \<and> \<not> HasPrefix (SanitizeERC20Name s) ''erc20/'' \<and>
   (s \<noteq> [] \<and> is_letter (hd s) \<and> list_all denom_char s \<and> length s \<le> 128 \<and> \<not> HasPrefix s ''ibc/'' \<and> \<not> HasPrefix s ''erc20/''
      \<longrightarrow> SanitizeERC20Name s = s)"
proof -
  define t where "t = (let n = removeSpecialChars (removeLeadingNumbers s) in if length n > 128 then take 128 n else n)"
  have san: "SanitizeERC20Name s = removeInvalidPrefixes t" by (simp add: SanitizeERC20Name_def t_def Let_def)
  have t: "length t \<le> 128" "list_all denom_char t"
    using removeSpecialChars_chars [of "removeLeadingNumbers s"]
    by (auto simp: t_def Let_def list_all_iff dest: in_set_takeD)
  obtain n where n: "removeInvalidPrefixes t = drop n t" using removeInvalidPrefixes_spec by blast
  have "list_all denom_char (drop n t)" using t(2) by (auto simp: list_all_iff dest: in_set_dropD)
  moreover have "SanitizeERC20Name s = s"
    if c: "s \<noteq> []" "is_letter (hd s)" "list_all denom_char s" "length s \<le> 128" "\<not> HasPrefix s ''ibc/''" "\<not> HasPrefix s ''erc20/''"
  proof -
    have "\<not> denom_char (CHR 0x0A)" by code_simp
    then have "CHR 0x0A \<notin> set s" using c(3) by (auto simp: list_all_iff)
    moreover have "\<not> is_digit (hd s)" using c(2) by (auto simp: is_digit_def is_letter_def)
    ultimately have "removeLeadingNumbers s = s" by (simp add: removeLeadingNumbers_def drop_numbers_no_digit)
    then have "t = s" using c by (simp add: t_def removeSpecialChars_id)
    then show ?thesis using c by (simp add: san removeInvalidPrefixes.simps [of s])
  qed
  ultimately show ?thesis using t n removeInvalidPrefixes_spec [of t] by (auto simp: san)
qed

theorem SanitizeERC20Name_correct_witness:
  "SanitizeERC20Name ''USDCoin'' = ''USDCoin'' \<and> SanitizeERC20Name ''12ibc/erc20/A b'' = ''Ab''"
proof -
  have "SanitizeERC20Name ''12ibc/erc20/A b'' = ''Ab''" by code_simp
  moreover have "''USDCoin'' \<noteq> [] \<and> is_letter (hd ''USDCoin'') \<and> list_all denom_char ''USDCoin'' \<and> length ''USDCoin'' \<le> 128 \<and>
      \<not> HasPrefix ''USDCoin'' ''ibc/'' \<and> \<not> HasPrefix ''USDCoin'' ''erc20/''" by code_simp
  ultimately show ?thesis using SanitizeERC20Name_correct [of "''USDCoin''"] by blast
qed

end
