(* ===== verification/Erc20_Convert.thy ===== *)
theory Erc20_Convert
  imports Erc20_Registry
begin

text \<open>
  Conversions between coins and tokens.  For a token whose contract is not the module's, the checks of
  the message server make a successful conversion exact whatever the contract does; for a contract
  that the module owns, the message server and the hook implement a vault whose escrow covers the
  tokens in circulation.
\<close>

section \<open>What the EVM and the bank promise each other\<close>

text \<open>Two states in which every uncommitted call of the module gets the same answer.\<close>

definition same_view :: "'x erc20_keepers \<Rightarrow> 'x \<Rightarrow> 'x \<Rightarrow> bool" where
  "same_view K x x' \<longleftrightarrow>
     GetSequence (ek_V K) x' (ModuleAddress K) = GetSequence (ek_V K) x (ModuleAddress K) \<and>
     (\<forall>m. fst (ApplyMessage (ek_V K) m False x') = fst (ApplyMessage (ek_V K) m False x))"

lemma coin_eta [simp]: "oneCoin (Denom k) (Amt k) = k"
  by (cases k) simp

text \<open>The token balance the module observes.\<close>

definition tokens_of :: "'x erc20_keepers \<Rightarrow> addr \<Rightarrow> addr \<Rightarrow> 'x \<Rightarrow> int option" where
  "tokens_of K c a x = (case fst (BalanceOf K c a x) of Ok b \<Rightarrow> b | _ \<Rightarrow> None)"

text \<open>
  A message that is not committed changes nothing; a committed one that carries no value changes
  balances only in the denomination \<open>evmd\<close> the EVM itself works in; and a bank operation on another
  denomination is invisible to the EVM.
\<close>

locale erc20_laws = keeper_laws C "ek_A K" "ek_B K" D reg + eth_laws "ek_E K"
  for C :: coins_ops and K :: "'x erc20_keepers" and D :: "'x distr_ops" and reg :: "string set" +
  fixes evmd :: denom
  assumes view_state: "ApplyMessage (ek_V K) m False x = (r, x') \<Longrightarrow> x' = x"
    and evm_bank: "ApplyMessage (ek_V K) m True x = (r, x') \<Longrightarrow> em_Amount m = 0 \<Longrightarrow> d \<noteq> evmd \<Longrightarrow>
      GetBalance (ek_B K) x' a d = GetBalance (ek_B K) x a d \<and> GetSupply (ek_B K) x' d = GetSupply (ek_B K) x d"
    and lock_view: "SendCoinsFromAccountToModule (ek_B K) a erc20_ModuleName [oneCoin d n] x = (Ok u, x') \<Longrightarrow> d \<noteq> evmd \<Longrightarrow> same_view K x x'"
    and unlock_view: "SendCoinsFromModuleToAccount (ek_B K) erc20_ModuleName a [oneCoin d n] x = (Ok u, x') \<Longrightarrow> d \<noteq> evmd \<Longrightarrow> same_view K x x'"
    and mint_view: "MintCoins (ek_B K) erc20_ModuleName [oneCoin d n] x = (Ok u, x') \<Longrightarrow> d \<noteq> evmd \<Longrightarrow> same_view K x x'"
    and burn_view: "BurnCoins (ek_B K) erc20_ModuleName [oneCoin d n] x = (Ok u, x') \<Longrightarrow> d \<noteq> evmd \<Longrightarrow> same_view K x x'"
begin

abbreviation "MOD \<equiv> GetModuleAddress (ek_A K) erc20_ModuleName"
abbreviation "bal \<equiv> GetBalance (ek_B K)"

lemma CallEVMWithData_state:
  assumes "CallEVMWithData K from c data commit x = (r, x')"
  obtains "x' = x" "\<forall>v. r \<noteq> Ok v"
  | m q where "ApplyMessage (ek_V K) m commit x = (q, x')" "em_Amount m = 0" "em_From m = from" "em_To m = c" "em_Data m = data"
      "\<And>v. r = Ok v \<Longrightarrow> q = Ok v \<and> \<not> res_Failed v" "(\<forall>v. r \<noteq> Ok v) \<Longrightarrow> (\<forall>v. q = Ok v \<longrightarrow> res_Failed v)"
proof -
  define gas where "gas = (if \<not> commit then Ok (DefaultGasCap (ek_V K)) else
      case evm_MarshalArgs (ek_V K) from c data of None \<Rightarrow> Err ErrJSONMarshal
      | Some args \<Rightarrow> EstimateGas (ek_V K) x args (DefaultGasCap (ek_V K)))"
  note def = assms [unfolded CallEVMWithData_def Let_def, folded gas_def]
  show thesis
  proof (cases "\<exists>nonce g. GetSequence (ek_V K) x from = Ok nonce \<and> gas = Ok g")
    case False
    then have "x' = x \<and> (\<forall>v. r \<noteq> Ok v)" using def by (auto split: outcome.splits)
    then show thesis using that(1) by simp
  next
    case True
    then obtain nonce g where ok: "GetSequence (ek_V K) x from = Ok nonce" "gas = Ok g" by blast
    define m where "m = \<lparr>em_From = from, em_To = c, em_Nonce = nonce, em_Amount = 0, em_GasLimit = g,
        em_GasFeeCap = 0, em_GasTipCap = 0, em_GasPrice = 0, em_Data = data, em_IsFake = \<not> commit\<rparr>"
    have b: "bindS (ApplyMessage (ek_V K) m commit) (\<lambda>res. if res_Failed res then fail ErrVMExecution else ret res) x = (r, x')"
      using def by (simp add: ok m_def)
    obtain q y where q: "ApplyMessage (ek_V K) m commit x = (q, y)" by fastforce
    have y: "y = x'" using b q by (auto simp: bindS_def fail_def ret_def split: outcome.splits if_splits)
    show thesis
    proof (rule that(2))
      show "ApplyMessage (ek_V K) m commit x = (q, x')" using q y by simp
      show "q = Ok v \<and> \<not> res_Failed v" if "r = Ok v" for v
        using b q that by (auto simp: bindS_def fail_def ret_def split: outcome.splits if_splits)
      show "\<forall>v. q = Ok v \<longrightarrow> res_Failed v" if "\<forall>v. r \<noteq> Ok v"
        using b q that by (auto simp: bindS_def fail_def ret_def split: outcome.splits if_splits)
    qed (simp_all add: m_def)
  qed
qed

lemma view_call: "CallEVM K from c False meth args x = (r, x') \<Longrightarrow> x' = x"
  by (auto simp: CallEVM_def split: option.splits elim!: CallEVMWithData_state dest: view_state)

lemma BalanceOf_state: "BalanceOf K c a x = (r, x') \<Longrightarrow> x' = x"
  by (auto simp: BalanceOf_def split: prod.splits outcome.splits dest: view_call)

lemma balance_or_fail_iff: "balance_or_fail K c a x = (Ok n, y) \<longleftrightarrow> y = x \<and> tokens_of K c a x = Some n"
  using BalanceOf_state [of c a x]
  by (cases "BalanceOf K c a x")
    (auto simp: balance_or_fail_def bindS_def tokens_of_def fail_def ret_def split: outcome.splits option.splits)

lemma same_view_tokens:
  assumes "same_view K x x'" shows "tokens_of K c a x' = tokens_of K c a x"
proof -
  have "fst (CallEVMWithData K (ModuleAddress K) t data False x') = fst (CallEVMWithData K (ModuleAddress K) t data False x)" for t data
  proof -
    have a: "fst (ApplyMessage (ek_V K) m False x') = fst (ApplyMessage (ek_V K) m False x)" for m
      using assms by (simp add: same_view_def)
    have b: "fst (bindS (ApplyMessage (ek_V K) m False) (\<lambda>res. if res_Failed res then fail ErrVMExecution else ret res) x') =
        fst (bindS (ApplyMessage (ek_V K) m False) (\<lambda>res. if res_Failed res then fail ErrVMExecution else ret res) x)" for m
      using a [of m] by (auto simp: bindS_def fail_def ret_def split: prod.splits outcome.splits)
    show ?thesis using assms b by (simp add: CallEVMWithData_def Let_def same_view_def split: outcome.splits)
  qed
  then have "fst (CallEVM K (ModuleAddress K) c False ''balanceOf'' [VAddr a] x') = fst (CallEVM K (ModuleAddress K) c False ''balanceOf'' [VAddr a] x)"
    by (simp add: CallEVM_def split: option.splits)
  moreover have "fst (BalanceOf K c a y) =
      (case fst (CallEVM K (ModuleAddress K) c False ''balanceOf'' [VAddr a] y) of
         Panic \<Rightarrow> Panic | Err _ \<Rightarrow> Ok None
       | Ok res \<Rightarrow> Ok (case abi_Unpack (ek_P K) ''balanceOf'' (res_Ret res) of Some (VInt balance # _) \<Rightarrow> Some balance | _ \<Rightarrow> None))" for y
    by (simp add: BalanceOf_def split: prod.split outcome.split)
  ultimately show ?thesis by (simp add: tokens_of_def)
qed

lemma commit_bank:
  assumes "CallEVMWithData K from c data True x = (r, x')" and "d \<noteq> evmd"
  shows "bal x' a d = bal x a d \<and> GetSupply (ek_B K) x' d = GetSupply (ek_B K) x d"
  using assms(1)
proof (cases rule: CallEVMWithData_state)
  case (2 m q)
  show ?thesis by (rule evm_bank [OF 2(1,2) assms(2)])
qed simp

lemma commit_call_bank:
  assumes "CallEVM K from c True meth args x = (r, x')" and "d \<noteq> evmd"
  shows "bal x' a d = bal x a d \<and> GetSupply (ek_B K) x' d = GetSupply (ek_B K) x d"
proof (cases "abi_Pack (ek_P K) meth args")
  case None
  then show ?thesis using assms(1) by (simp add: CallEVM_def)
next
  case (Some data)
  then have "CallEVMWithData K from (Some c) data True x = (r, x')" using assms(1) by (simp add: CallEVM_def)
  then show ?thesis by (rule commit_bank [OF _ assms(2)])
qed

subsection \<open>What a successful conversion has done\<close>

lemma unit_all [simp]: "(\<exists>u :: unit. P u) \<longleftrightarrow> P ()"
  by auto

lemma token_in_steps:
  assumes "convertERC20NativeToken K pair msg recv sender x = (Ok (), x')"
  obtains b data res x1 x2 where "tokens_of K (GetERC20Contract (ek_E K) pair) (ModuleAddress K) x = Some b"
    and "CallEVMWithData K sender (Some (GetERC20Contract (ek_E K) pair)) data True x = (Ok res, x1)"
    and "tokens_of K (GetERC20Contract (ek_E K) pair) (ModuleAddress K) x1 = Some (b + ce_Amount msg)"
    and "MintCoins (ek_B K) erc20_ModuleName [oneCoin (tp_Denom pair) (ce_Amount msg)] x1 = (Ok (), x2)"
    and "SendCoinsFromModuleToAccount (ek_B K) erc20_ModuleName recv [oneCoin (tp_Denom pair) (ce_Amount msg)] x2 = (Ok (), x')"
  using assms
  by (auto simp: convertERC20NativeToken_def Let_def bindS_Ok_iff balance_or_fail_iff fail_def split: option.splits if_splits)

lemma token_out_steps:
  assumes "convertCoinNativeERC20 K pair msg recv sender x = (Ok (), x')"
  obtains b res x1 x2 where "tokens_of K (GetERC20Contract (ek_E K) pair) recv x = Some b"
    and "SendCoinsFromAccountToModule (ek_B K) sender erc20_ModuleName [cc_Coin msg] x = (Ok (), x1)"
    and "CallEVM K (ModuleAddress K) (GetERC20Contract (ek_E K) pair) True ''transfer'' [VAddr recv, VInt (Amt (cc_Coin msg))] x1 = (Ok res, x2)"
    and "tokens_of K (GetERC20Contract (ek_E K) pair) recv x2 = Some (b + Amt (cc_Coin msg))"
    and "BurnCoins (ek_B K) erc20_ModuleName [cc_Coin msg] x2 = (Ok (), x')"
  using assms
  by (auto simp: convertCoinNativeERC20_def Let_def bindS_Ok_iff balance_or_fail_iff fail_def pure_def split: option.splits if_splits)

lemma coin_in_steps:
  assumes "convertCoinNativeCoin K pair msg recv sender x = (Ok (), x')"
  obtains b res x1 where "tokens_of K (GetERC20Contract (ek_E K) pair) recv x = Some b"
    and "SendCoinsFromAccountToModule (ek_B K) sender erc20_ModuleName [cc_Coin msg] x = (Ok (), x1)"
    and "CallEVM K (ModuleAddress K) (GetERC20Contract (ek_E K) pair) True ''mint'' [VAddr recv, VInt (Amt (cc_Coin msg))] x1 = (Ok res, x')"
    and "tokens_of K (GetERC20Contract (ek_E K) pair) recv x' = Some (b + Amt (cc_Coin msg))"
  using assms
  by (auto simp: convertCoinNativeCoin_def Let_def bindS_Ok_iff balance_or_fail_iff fail_def ret_def split: if_splits)

lemma coin_out_steps:
  assumes "convertERC20NativeCoin K pair msg recv sender x = (Ok (), x')"
  obtains b res x1 where "tokens_of K (GetERC20Contract (ek_E K) pair) sender x = Some b"
    and "CallEVM K (ModuleAddress K) (GetERC20Contract (ek_E K) pair) True ''burnCoins'' [VAddr sender, VInt (ce_Amount msg)] x = (Ok res, x1)"
    and "SendCoinsFromModuleToAccount (ek_B K) erc20_ModuleName recv [oneCoin (tp_Denom pair) (ce_Amount msg)] x1 = (Ok (), x')"
    and "tokens_of K (GetERC20Contract (ek_E K) pair) sender x' = Some (b - ce_Amount msg)"
  using assms
  by (auto simp: convertERC20NativeCoin_def Let_def bindS_Ok_iff balance_or_fail_iff fail_def ret_def split: if_splits)

lemma token_in_exact:
  assumes run: "convertERC20NativeToken K pair msg recv sender x = (Ok (), x')"
    and d: "tp_Denom pair \<noteq> evmd" "coins_ValidDenom C (tp_Denom pair)" and n: "0 < ce_Amount msg"
  shows "bal x' a (tp_Denom pair) = bal x a (tp_Denom pair) + (if a = recv then ce_Amount msg else 0)"
    and "GetSupply (ek_B K) x' (tp_Denom pair) = GetSupply (ek_B K) x (tp_Denom pair) + ce_Amount msg"
    and "\<exists>b. tokens_of K (GetERC20Contract (ek_E K) pair) (ModuleAddress K) x = Some b \<and>
             tokens_of K (GetERC20Contract (ek_E K) pair) (ModuleAddress K) x' = Some (b + ce_Amount msg)"
proof -
  let ?c = "GetERC20Contract (ek_E K) pair" and ?d = "tp_Denom pair" and ?n = "ce_Amount msg"
  obtain b data res x1 x2 where b: "tokens_of K ?c (ModuleAddress K) x = Some b"
    and call: "CallEVMWithData K sender (Some ?c) data True x = (Ok res, x1)"
    and b1: "tokens_of K ?c (ModuleAddress K) x1 = Some (b + ?n)"
    and mint: "MintCoins (ek_B K) erc20_ModuleName [oneCoin ?d ?n] x1 = (Ok (), x2)"
    and send: "SendCoinsFromModuleToAccount (ek_B K) erc20_ModuleName recv [oneCoin ?d ?n] x2 = (Ok (), x')"
    using run by (rule token_in_steps)
  have v: "valid [oneCoin ?d ?n]" using d n by (simp add: valid_one)
  have mv: "moved C (ek_B K) MOD recv [oneCoin ?d ?n] x2 x'" by (rule ModuleToAccount_moved [OF v send])
  show "bal x' a ?d = bal x a ?d + (if a = recv then ?n else 0)"
    using mv Mint_balance [OF v mint] commit_bank [OF call d(1)] by (simp add: moved_def amount_one)
  show "GetSupply (ek_B K) x' ?d = GetSupply (ek_B K) x ?d + ?n"
    using mv Mint_supply [OF v mint] commit_bank [OF call d(1)] by (simp add: moved_def amount_one)
  have "tokens_of K ?c (ModuleAddress K) x' = tokens_of K ?c (ModuleAddress K) x1"
    using same_view_tokens [OF unlock_view [OF send d(1)]] same_view_tokens [OF mint_view [OF mint d(1)]] by simp
  with b b1 show "\<exists>b. tokens_of K ?c (ModuleAddress K) x = Some b \<and> tokens_of K ?c (ModuleAddress K) x' = Some (b + ?n)" by simp
qed

lemma token_out_exact:
  assumes run: "convertCoinNativeERC20 K pair msg recv sender x = (Ok (), x')"
    and d: "Denom (cc_Coin msg) \<noteq> evmd" "coins_ValidDenom C (Denom (cc_Coin msg))" and n: "0 < Amt (cc_Coin msg)"
  shows "bal x' a (Denom (cc_Coin msg)) = bal x a (Denom (cc_Coin msg)) - (if a = sender then Amt (cc_Coin msg) else 0)"
    and "GetSupply (ek_B K) x' (Denom (cc_Coin msg)) = GetSupply (ek_B K) x (Denom (cc_Coin msg)) - Amt (cc_Coin msg)"
    and "\<exists>b. tokens_of K (GetERC20Contract (ek_E K) pair) recv x = Some b \<and>
             tokens_of K (GetERC20Contract (ek_E K) pair) recv x' = Some (b + Amt (cc_Coin msg))"
proof -
  let ?c = "GetERC20Contract (ek_E K) pair" and ?d = "Denom (cc_Coin msg)" and ?n = "Amt (cc_Coin msg)"
  obtain b res x1 x2 where b: "tokens_of K ?c recv x = Some b"
    and lock: "SendCoinsFromAccountToModule (ek_B K) sender erc20_ModuleName [cc_Coin msg] x = (Ok (), x1)"
    and call: "CallEVM K (ModuleAddress K) ?c True ''transfer'' [VAddr recv, VInt ?n] x1 = (Ok res, x2)"
    and b2: "tokens_of K ?c recv x2 = Some (b + ?n)"
    and burn: "BurnCoins (ek_B K) erc20_ModuleName [cc_Coin msg] x2 = (Ok (), x')"
    using run by (rule token_out_steps)
  have v: "valid [cc_Coin msg]" using d n valid_one [of ?d ?n] by simp
  have amt1: "amt [cc_Coin msg] ?d = ?n" using amount_one [of ?d ?n ?d] by simp
  have mv: "moved C (ek_B K) sender MOD [cc_Coin msg] x x1" by (rule AccountToModule_moved [OF v lock])
  show "bal x' a ?d = bal x a ?d - (if a = sender then ?n else 0)"
    using mv Burn_balance [OF v burn] commit_call_bank [OF call d(1)] amt1 by (simp add: moved_def)
  show "GetSupply (ek_B K) x' ?d = GetSupply (ek_B K) x ?d - ?n"
    using mv Burn_supply [OF v burn] commit_call_bank [OF call d(1)] amt1 by (simp add: moved_def)
  have "tokens_of K ?c recv x' = tokens_of K ?c recv x2"
    using same_view_tokens burn_view [of ?d ?n x2 "()" x'] burn d(1) by simp
  with b b2 show "\<exists>b. tokens_of K ?c recv x = Some b \<and> tokens_of K ?c recv x' = Some (b + ?n)" by simp
qed

end

section \<open>A contract owned by the module\<close>

text \<open>
  The vault of one coin: what the module account holds of it and how many tokens its contract has
  issued.  Locking coins issues as many tokens, releasing coins destroys as many; besides, the account
  may receive coins and holders may destroy tokens.
\<close>

type_synonym vault = "int \<times> int"

inductive vault_step :: "vault \<Rightarrow> vault \<Rightarrow> bool" where
  lock: "0 < n \<Longrightarrow> vault_step (e, m) (e + n, m + n)"
| release: "0 < n \<Longrightarrow> vault_step (e, m) (e - n, m - n)"
| slack: "e \<le> e' \<Longrightarrow> m' \<le> m \<Longrightarrow> vault_step (e, m) (e', m')"

definition backed :: "vault \<Rightarrow> bool" where
  "backed v \<longleftrightarrow> snd v \<le> fst v"

lemma vault_run_backed: "vault_step\<^sup>*\<^sup>* v w \<Longrightarrow> backed v \<Longrightarrow> backed w"
proof (induction rule: rtranclp_induct)
  case (step v w)
  from step.hyps(2) step.IH [OF step.prems] show ?case by (auto simp: backed_def elim!: vault_step.cases)
qed

text \<open>
  \<open>issued\<close> is the number of tokens the contract at \<open>c\<close> has issued.  Only the module can have tokens
  issued; a call that fails changes nothing; the code of the contract stays; calls of other contracts
  issue no tokens; bank operations and metadata do not touch the contract, and a bank operation that
  fails changes nothing.
\<close>

definition vault_of :: "'x erc20_keepers \<Rightarrow> denom \<Rightarrow> ('x \<Rightarrow> int) \<Rightarrow> 'x \<Rightarrow> vault" where
  "vault_of K d issued x = (GetBalance (ek_B K) x (GetModuleAddress (ek_A K) erc20_ModuleName) d, issued x)"

text \<open>The registry knows the contract \<open>c\<close> as the module's contract for the coin \<open>d\<close>.\<close>

definition vault_ok :: "'x erc20_keepers \<Rightarrow> addr \<Rightarrow> denom \<Rightarrow> 'x erc20_state \<Rightarrow> bool" where
  "vault_ok K c d s \<longleftrightarrow> registry_ok (ek_E K) s \<and> evm_IsContract (ek_V K) (e_ext s) c = Some True \<and>
     (\<exists>i p. kv_get (e_pairs s) i = Some p \<and> GetERC20Contract (ek_E K) p = c \<and> tp_Denom p = d \<and> ContractOwner p = OWNER_MODULE)"

locale module_token = erc20_laws C K D reg evmd
  for C :: coins_ops and K :: "'x erc20_keepers" and D :: "'x distr_ops" and reg :: "string set" and evmd :: denom +
  fixes c :: addr and d :: denom and issued :: "'x \<Rightarrow> int"
  assumes d_evm: "d \<noteq> evmd"
    and tok_mint: "ApplyMessage (ek_V K) m True x = (Ok r, x') \<Longrightarrow> em_From m = ModuleAddress K \<Longrightarrow> em_To m = Some c \<Longrightarrow>
      abi_Pack (ek_P K) ''mint'' [VAddr a, VInt n] = Some (em_Data m) \<Longrightarrow> \<not> res_Failed r \<Longrightarrow> evm_IsContract (ek_V K) x c = Some True \<Longrightarrow> issued x' = issued x + n"
    and tok_burnCoins: "ApplyMessage (ek_V K) m True x = (Ok r, x') \<Longrightarrow> em_From m = ModuleAddress K \<Longrightarrow> em_To m = Some c \<Longrightarrow>
      abi_Pack (ek_P K) ''burnCoins'' [VAddr a, VInt n] = Some (em_Data m) \<Longrightarrow> \<not> res_Failed r \<Longrightarrow> evm_IsContract (ek_V K) x c = Some True \<Longrightarrow> issued x' = issued x - n"
    and tok_burn: "ApplyMessage (ek_V K) m True x = (Ok r, x') \<Longrightarrow> em_From m = ModuleAddress K \<Longrightarrow> em_To m = Some c \<Longrightarrow>
      abi_Pack (ek_P K) ''burn'' [VInt n] = Some (em_Data m) \<Longrightarrow> \<not> res_Failed r \<Longrightarrow> evm_IsContract (ek_V K) x c = Some True \<Longrightarrow> issued x' = issued x - n"
    and tok_fail: "ApplyMessage (ek_V K) m True x = (q, x') \<Longrightarrow> (\<And>v. q = Ok v \<Longrightarrow> res_Failed v) \<Longrightarrow> issued x' = issued x"
    and tok_other: "ApplyMessage (ek_V K) m True x = (q, x') \<Longrightarrow> em_To m \<noteq> Some c \<Longrightarrow> issued x' \<le> issued x"
    and tok_code: "ApplyMessage (ek_V K) m True x = (q, x') \<Longrightarrow> evm_IsContract (ek_V K) x c = Some True \<Longrightarrow> evm_IsContract (ek_V K) x' c = Some True"
    and lock_tok: "SendCoinsFromAccountToModule (ek_B K) a erc20_ModuleName k x = (w, x') \<Longrightarrow> issued x' = issued x \<and> evm_IsContract (ek_V K) x' c = evm_IsContract (ek_V K) x c"
    and unlock_tok: "SendCoinsFromModuleToAccount (ek_B K) erc20_ModuleName a k x = (w, x') \<Longrightarrow> issued x' = issued x \<and> evm_IsContract (ek_V K) x' c = evm_IsContract (ek_V K) x c"
    and mint_tok: "MintCoins (ek_B K) erc20_ModuleName k x = (w, x') \<Longrightarrow> issued x' = issued x \<and> evm_IsContract (ek_V K) x' c = evm_IsContract (ek_V K) x c"
    and burn_tok: "BurnCoins (ek_B K) erc20_ModuleName k x = (w, x') \<Longrightarrow> issued x' = issued x \<and> evm_IsContract (ek_V K) x' c = evm_IsContract (ek_V K) x c"
    and meta_tok: "issued (SetDenomMetaData (ek_M K) md x) = issued x \<and> evm_IsContract (ek_V K) (SetDenomMetaData (ek_M K) md x) c = evm_IsContract (ek_V K) x c \<and>
      GetBalance (ek_B K) (SetDenomMetaData (ek_M K) md x) = GetBalance (ek_B K) x"
    and unlock_err: "SendCoinsFromModuleToAccount (ek_B K) erc20_ModuleName a k x = (Err e, x') \<Longrightarrow> x' = x"
    and mint_err: "MintCoins (ek_B K) erc20_ModuleName k x = (Err e, x') \<Longrightarrow> x' = x"
begin

abbreviation "code x \<equiv> evm_IsContract (ek_V K) x c = Some True"

definition keeps :: "'x \<Rightarrow> 'x \<Rightarrow> bool" where
  "keeps x x' \<longleftrightarrow> issued x' \<le> issued x \<and> bal x' MOD d = bal x MOD d \<and> (code x \<longrightarrow> code x')"

lemma keeps_refl [simp]: "keeps x x"
  by (simp add: keeps_def)

lemma keeps_trans: "keeps x y \<Longrightarrow> keeps y z \<Longrightarrow> keeps x z"
  by (auto simp: keeps_def)

lemma keeps_vault: "keeps x x' \<Longrightarrow> vault_step (vault_of K d issued x) (vault_of K d issued x')"
  by (auto simp: keeps_def vault_of_def intro: vault_step.slack)

lemma other_call:
  assumes "CallEVMWithData K from t data True x = (r, x')" and "t \<noteq> Some c"
  shows "keeps x x'"
  using assms(1)
proof (cases rule: CallEVMWithData_state)
  case (2 m q)
  have "issued x' \<le> issued x" using tok_other [OF 2(1)] 2(4) assms(2) by simp
  moreover have "bal x' MOD d = bal x MOD d" using evm_bank [OF 2(1,2) d_evm] by simp
  moreover have "code x \<longrightarrow> code x'" using tok_code [OF 2(1)] by blast
  ultimately show ?thesis by (simp add: keeps_def)
qed simp

lemma other_CallEVM: "CallEVM K from t True meth args x = (r, x') \<Longrightarrow> t \<noteq> c \<Longrightarrow> keeps x x'"
  by (auto simp: CallEVM_def split: option.splits intro: other_call)

lemma failed_call:
  assumes "CallEVM K from t True meth args x = (r, x')" and "\<forall>v. r \<noteq> Ok v"
  shows "keeps x x'"
proof (cases "abi_Pack (ek_P K) meth args")
  case None
  then show ?thesis using assms by (simp add: CallEVM_def)
next
  case (Some data)
  then have "CallEVMWithData K from (Some t) data True x = (r, x')" using assms(1) by (simp add: CallEVM_def)
  then show ?thesis
  proof (cases rule: CallEVMWithData_state)
    case (2 m q)
    have "issued x' = issued x" by (rule tok_fail [OF 2(1)]) (use 2(7) assms(2) in blast)
    moreover have "bal x' MOD d = bal x MOD d" using evm_bank [OF 2(1,2) d_evm] by simp
    moreover have "code x \<longrightarrow> code x'" using tok_code [OF 2(1)] by blast
    ultimately show ?thesis by (simp add: keeps_def)
  qed simp
qed

lemma own_call:
  assumes "CallEVM K (ModuleAddress K) c True meth args x = (Ok v, x')"
  obtains m where "ApplyMessage (ek_V K) m True x = (Ok v, x')" "em_From m = ModuleAddress K" "em_To m = Some c"
    "abi_Pack (ek_P K) meth args = Some (em_Data m)" "\<not> res_Failed v" "bal x' MOD d = bal x MOD d" "code x \<longrightarrow> code x'"
proof -
  from assms obtain data where data: "abi_Pack (ek_P K) meth args = Some data"
    and call: "CallEVMWithData K (ModuleAddress K) (Some c) data True x = (Ok v, x')"
    by (auto simp: CallEVM_def split: option.splits)
  from call show thesis
  proof (cases rule: CallEVMWithData_state)
    case (2 m q)
    have q: "q = Ok v" "\<not> res_Failed v" using 2(6) by auto
    show thesis
    proof (rule that)
      show "ApplyMessage (ek_V K) m True x = (Ok v, x')" using 2(1) q by simp
      show "bal x' MOD d = bal x MOD d" using evm_bank [OF 2(1,2) d_evm] by simp
      show "code x \<longrightarrow> code x'" using tok_code [OF 2(1)] by blast
    qed (simp_all add: 2(3-5) q data)
  qed simp
qed

lemma own_mint:
  assumes "CallEVM K (ModuleAddress K) c True ''mint'' [VAddr a, VInt n] x = (Ok v, x')" and code: "code x"
  shows "issued x' = issued x + n \<and> bal x' MOD d = bal x MOD d \<and> code x'"
proof -
  from assms(1) obtain m where m: "ApplyMessage (ek_V K) m True x = (Ok v, x')" "em_From m = ModuleAddress K" "em_To m = Some c"
    "abi_Pack (ek_P K) ''mint'' [VAddr a, VInt n] = Some (em_Data m)" "\<not> res_Failed v" "bal x' MOD d = bal x MOD d" "code x \<longrightarrow> code x'"
    by (rule own_call)
  show ?thesis using tok_mint [OF m(1-5) code] m(6,7) code by simp
qed

lemma own_burnCoins:
  assumes "CallEVM K (ModuleAddress K) c True ''burnCoins'' [VAddr a, VInt n] x = (Ok v, x')" and code: "code x"
  shows "issued x' = issued x - n \<and> bal x' MOD d = bal x MOD d \<and> code x'"
proof -
  from assms(1) obtain m where m: "ApplyMessage (ek_V K) m True x = (Ok v, x')" "em_From m = ModuleAddress K" "em_To m = Some c"
    "abi_Pack (ek_P K) ''burnCoins'' [VAddr a, VInt n] = Some (em_Data m)" "\<not> res_Failed v" "bal x' MOD d = bal x MOD d" "code x \<longrightarrow> code x'"
    by (rule own_call)
  show ?thesis using tok_burnCoins [OF m(1-5) code] m(6,7) code by simp
qed

lemma own_burn:
  assumes "CallEVM K (ModuleAddress K) c True ''burn'' [VInt n] x = (Ok v, x')" and code: "code x"
  shows "issued x' = issued x - n \<and> bal x' MOD d = bal x MOD d \<and> code x'"
proof -
  from assms(1) obtain m where m: "ApplyMessage (ek_V K) m True x = (Ok v, x')" "em_From m = ModuleAddress K" "em_To m = Some c"
    "abi_Pack (ek_P K) ''burn'' [VInt n] = Some (em_Data m)" "\<not> res_Failed v" "bal x' MOD d = bal x MOD d" "code x \<longrightarrow> code x'"
    by (rule own_call)
  show ?thesis using tok_burn [OF m(1-5) code] m(6,7) code by simp
qed

lemma other_lock:
  assumes run: "SendCoinsFromAccountToModule (ek_B K) a erc20_ModuleName [oneCoin e n] x = (Ok u, x')" and "e \<noteq> d"
  shows "keeps x x'"
  using lock_tok [OF run] AccountToModule_moved [OF AccountToModule_valid [OF run] run] assms(2)
  by (simp add: keeps_def moved_def amount_one)

lemma other_unlock:
  assumes run: "SendCoinsFromModuleToAccount (ek_B K) erc20_ModuleName a [oneCoin e n] x = (Ok u, x')" and "e \<noteq> d"
  shows "keeps x x'"
  using unlock_tok [OF run] ModuleToAccount_moved [OF ModuleToAccount_valid [OF run] run] assms(2)
  by (simp add: keeps_def moved_def amount_one)

lemma other_mint:
  assumes run: "MintCoins (ek_B K) erc20_ModuleName [oneCoin e n] x = (Ok u, x')" and "e \<noteq> d"
  shows "keeps x x'"
  using mint_tok [OF run] Mint_balance [OF Mint_valid [OF run] run, of MOD d] assms(2)
  by (simp add: keeps_def amount_one)

lemma other_burn:
  assumes run: "BurnCoins (ek_B K) erc20_ModuleName [oneCoin e n] x = (Ok u, x')" and "e \<noteq> d"
  shows "keeps x x'"
  using burn_tok [OF run] Burn_balance [OF Burn_valid [OF run] run, of MOD d] assms(2)
  by (simp add: keeps_def amount_one)

subsection \<open>Conversions of other pairs\<close>

lemma other_token_in:
  assumes "convertERC20NativeToken K pair msg recv sender x = (Ok (), x')"
    and "GetERC20Contract (ek_E K) pair \<noteq> c" and "tp_Denom pair \<noteq> d"
  shows "keeps x x'"
  using assms(1) by (rule token_in_steps) (use assms(2,3) in \<open>blast intro: keeps_trans other_call other_mint other_unlock\<close>)

lemma other_token_out:
  assumes "convertCoinNativeERC20 K pair msg recv sender x = (Ok (), x')"
    and "GetERC20Contract (ek_E K) pair \<noteq> c" and "Denom (cc_Coin msg) \<noteq> d"
  shows "keeps x x'"
  using assms(1)
proof (rule token_out_steps)
  fix b res x1 x2
  assume lock: "SendCoinsFromAccountToModule (ek_B K) sender erc20_ModuleName [cc_Coin msg] x = (Ok (), x1)"
    and call: "CallEVM K (ModuleAddress K) (GetERC20Contract (ek_E K) pair) True ''transfer'' [VAddr recv, VInt (Amt (cc_Coin msg))] x1 = (Ok res, x2)"
    and burn: "BurnCoins (ek_B K) erc20_ModuleName [cc_Coin msg] x2 = (Ok (), x')"
  have "keeps x x1" using other_lock [of sender "Denom (cc_Coin msg)" "Amt (cc_Coin msg)"] lock assms(3) by simp
  moreover have "keeps x1 x2" using other_CallEVM [OF call] assms(2) by simp
  moreover have "keeps x2 x'" using other_burn [of "Denom (cc_Coin msg)" "Amt (cc_Coin msg)"] burn assms(3) by simp
  ultimately show ?thesis by (blast intro: keeps_trans)
qed

lemma other_coin_in:
  assumes "convertCoinNativeCoin K pair msg recv sender x = (Ok (), x')"
    and "GetERC20Contract (ek_E K) pair \<noteq> c" and "Denom (cc_Coin msg) \<noteq> d"
  shows "keeps x x'"
  using assms(1)
proof (rule coin_in_steps)
  fix b res x1
  assume lock: "SendCoinsFromAccountToModule (ek_B K) sender erc20_ModuleName [cc_Coin msg] x = (Ok (), x1)"
    and call: "CallEVM K (ModuleAddress K) (GetERC20Contract (ek_E K) pair) True ''mint'' [VAddr recv, VInt (Amt (cc_Coin msg))] x1 = (Ok res, x')"
  have "keeps x x1" using other_lock [of sender "Denom (cc_Coin msg)" "Amt (cc_Coin msg)"] lock assms(3) by simp
  moreover have "keeps x1 x'" using other_CallEVM [OF call] assms(2) by simp
  ultimately show ?thesis by (rule keeps_trans)
qed

lemma other_coin_out:
  assumes "convertERC20NativeCoin K pair msg recv sender x = (Ok (), x')"
    and "GetERC20Contract (ek_E K) pair \<noteq> c" and "tp_Denom pair \<noteq> d"
  shows "keeps x x'"
  using assms(1) by (rule coin_out_steps) (use assms(2,3) in \<open>blast intro: keeps_trans other_CallEVM other_unlock\<close>)

subsection \<open>Conversions of the pair itself\<close>

lemma own_coin_in:
  assumes "convertCoinNativeCoin K pair msg recv sender x = (Ok (), x')" and "GetERC20Contract (ek_E K) pair = c"
    and "Denom (cc_Coin msg) = d" and n: "0 < Amt (cc_Coin msg)" and "sender \<noteq> MOD" and code: "code x"
  shows "vault_step (vault_of K d issued x) (vault_of K d issued x')" and "code x'"
proof -
  obtain res x1 where lock: "SendCoinsFromAccountToModule (ek_B K) sender erc20_ModuleName [cc_Coin msg] x = (Ok (), x1)"
    and call: "CallEVM K (ModuleAddress K) c True ''mint'' [VAddr recv, VInt (Amt (cc_Coin msg))] x1 = (Ok res, x')"
    using assms(1) by (rule coin_in_steps) (use assms(2) in simp)
  have code1: "code x1" using code lock_tok [OF lock] by simp
  have one: "amt [cc_Coin msg] d = Amt (cc_Coin msg)"
    using amount_one [of "Denom (cc_Coin msg)" "Amt (cc_Coin msg)" "Denom (cc_Coin msg)"] by (simp add: assms(3) [symmetric])
  have "bal x1 MOD d = bal x MOD d + Amt (cc_Coin msg)"
    using AccountToModule_moved [OF AccountToModule_valid [OF lock] lock] assms(5) one by (simp add: moved_def)
  then have "vault_of K d issued x' = (bal x MOD d + Amt (cc_Coin msg), issued x + Amt (cc_Coin msg))"
    using own_mint [OF call code1] lock_tok [OF lock] by (simp add: vault_of_def)
  then show "vault_step (vault_of K d issued x) (vault_of K d issued x')"
    using vault_step.lock [OF n] by (simp add: vault_of_def)
  show "code x'" using own_mint [OF call code1] by simp
qed

lemma vault_release:
  assumes send: "SendCoinsFromModuleToAccount (ek_B K) erc20_ModuleName recv [oneCoin d n] x1 = (Ok (), x')"
    and "issued x1 = issued x - n" and "bal x1 MOD d = bal x MOD d" and n: "0 < n"
  shows "vault_step (vault_of K d issued x) (vault_of K d issued x')"
proof (cases "recv = MOD")
  case False
  have "bal x' MOD d = bal x MOD d - n"
    using ModuleToAccount_moved [OF ModuleToAccount_valid [OF send] send] assms(3) False by (auto simp: moved_def amount_one)
  then show ?thesis using assms(2) unlock_tok [OF send] vault_step.release [OF n] by (simp add: vault_of_def)
next
  case True
  have "bal x' MOD d = bal x MOD d"
    using ModuleToAccount_moved [OF ModuleToAccount_valid [OF send] send] assms(3) True by (simp add: moved_def)
  then show ?thesis using assms(2) n unlock_tok [OF send] by (simp add: vault_of_def vault_step.slack)
qed

lemma own_coin_out:
  assumes "convertERC20NativeCoin K pair msg recv sender x = (Ok (), x')" and "GetERC20Contract (ek_E K) pair = c"
    and "tp_Denom pair = d" and n: "0 < ce_Amount msg" and code: "code x"
  shows "vault_step (vault_of K d issued x) (vault_of K d issued x')" and "code x'"
proof -
  obtain res x1 where call: "CallEVM K (ModuleAddress K) c True ''burnCoins'' [VAddr sender, VInt (ce_Amount msg)] x = (Ok res, x1)"
    and send: "SendCoinsFromModuleToAccount (ek_B K) erc20_ModuleName recv [oneCoin d (ce_Amount msg)] x1 = (Ok (), x')"
    using assms(1) by (rule coin_out_steps) (use assms(2,3) in simp)
  show "vault_step (vault_of K d issued x) (vault_of K d issued x')"
    by (rule vault_release [OF send]) (use own_burnCoins [OF call code] n in simp_all)
  show "code x'" using own_burnCoins [OF call code] unlock_tok [OF send] by simp
qed

subsection \<open>The hook\<close>

abbreviation "vault \<equiv> vault_of K d issued"

lemma unlock_any:
  assumes "SendCoinsFromModuleToAccount (ek_B K) erc20_ModuleName a [oneCoin e n] x = (r, x')" and "r \<noteq> Panic" and "e \<noteq> d"
  shows "keeps x x'"
  using assms by (cases r) (auto dest: unlock_err other_unlock)

lemma hook_other:
  assumes run: "hook_convert K pair log n x = (Ok (), x')" and "log_Address log \<noteq> c" and "tp_Denom pair \<noteq> d"
  shows "keeps x x'"
proof -
  define r where "r = (case ContractOwner pair of
      OWNER_MODULE \<Rightarrow> bindS (CallEVM K (ModuleAddress K) (log_Address log) True ''burn'' [VInt n]) (\<lambda>_. ret ()) x
    | OWNER_EXTERNAL \<Rightarrow> MintCoins (ek_B K) erc20_ModuleName [oneCoin (tp_Denom pair) n] x
    | OWNER_UNSPECIFIED \<Rightarrow> (Err ErrUndefinedOwner, x))"
  obtain q y where r: "r = (q, y)" by fastforce
  have "q \<noteq> Panic \<Longrightarrow> keeps x y"
    using r other_CallEVM [of "ModuleAddress K" "log_Address log" "''burn''" "[VInt n]" x] assms(2,3)
    by (auto simp: r_def bindS_def ret_def split: owner.splits prod.splits outcome.splits dest: mint_err other_mint)
      (cases q; auto dest: mint_err other_mint)+
  moreover have "q \<noteq> Panic" using run by (auto simp: hook_convert_def Let_def r_def [symmetric] r)
  moreover have "keeps y x'"
    using run unlock_any [of _ "tp_Denom pair" n y] assms(3) \<open>q \<noteq> Panic\<close>
    by (auto simp: hook_convert_def Let_def r_def [symmetric] r split: outcome.splits prod.splits)
  ultimately show ?thesis by (blast intro: keeps_trans)
qed

lemma hook_own:
  assumes run: "hook_convert K pair log n x = (Ok (), x')" and "log_Address log = c" and "tp_Denom pair = d"
    and "ContractOwner pair = OWNER_MODULE" and n: "0 < n" and code: "code x"
  shows "vault_step (vault x) (vault x') \<and> code x'"
proof -
  obtain q y where call: "CallEVM K (ModuleAddress K) c True ''burn'' [VInt n] x = (q, y)" by fastforce
  show ?thesis
  proof (cases q)
    case (Ok v)
    note burn = own_burn [OF call [unfolded Ok] code]
    obtain q2 z where send: "SendCoinsFromModuleToAccount (ek_B K) erc20_ModuleName
        (BytesToAddress (ek_E K) (log_Topics log ! 1)) [oneCoin d n] y = (q2, z)" by fastforce
    have q2: "q2 \<noteq> Panic" and z: "x' = z"
      using run send by (auto simp: hook_convert_def Let_def assms(2-4) call Ok bindS_def ret_def split: outcome.splits)
    show ?thesis
    proof (cases q2)
      case u: (Ok u)
      have sent: "SendCoinsFromModuleToAccount (ek_B K) erc20_ModuleName
          (BytesToAddress (ek_E K) (log_Topics log ! 1)) [oneCoin d n] y = (Ok (), z)" using send u by simp
      have "vault_step (vault x) (vault z)"
        by (rule vault_release [OF sent]) (use burn n in simp_all)
      then show ?thesis using burn unlock_tok [OF send] z by simp
    next
      case (Err e)
      then have "z = y" using send unlock_err by simp
      then have "vault x' = (bal x MOD d, issued x - n)" using burn z by (simp add: vault_of_def)
      then show ?thesis using burn n z \<open>z = y\<close> by (simp add: vault_of_def vault_step.slack)
    qed (use q2 in simp)
  next
    case (Err e)
    have "keeps x y" by (rule failed_call [OF call]) (simp add: Err)
    moreover have "x' = y" using run by (simp add: hook_convert_def Let_def assms(2-4) call Err bindS_def)
    ultimately show ?thesis using keeps_vault code by (auto simp: keeps_def)
  next
    case Panic
    then show ?thesis using run by (simp add: hook_convert_def Let_def assms(2-4) call bindS_def)
  qed
qed

lemma hook_log_vault:
  assumes inv: "registry_ok (ek_E K) s" "kv_get (e_pairs s) i = Some p" "GetERC20Contract (ek_E K) p = c" "tp_Denom p = d"
      "ContractOwner p = OWNER_MODULE"
    and run: "hook_log K s log x = (Ok (), x')" and code: "code x"
  shows "vault_step\<^sup>*\<^sup>* (vault x) (vault x') \<and> code x'"
proof (cases "x' = x")
  case False
  with run obtain n j pair where n: "0 < n" and j: "kv_get (e_byERC20 s) (log_Address log) = Some j" "kv_get (e_pairs s) j = Some pair"
    and conv: "hook_convert K pair log n x = (Ok (), x')"
    by (auto simp: hook_log_def Let_def GetERC20Map_def GetTokenPair_Some split: if_splits option.splits list.splits abi_val.splits)
  from j(1) obtain q where q: "kv_get (e_pairs s) j = Some q" "GetERC20Contract (ek_E K) q = log_Address log"
    by (rule registry_byERC20 [OF inv(1)])
  with j(2) have contract: "GetERC20Contract (ek_E K) pair = log_Address log" by simp
  show ?thesis
  proof (cases "log_Address log = c")
    case True
    have "j = i" by (rule registry_same [OF inv(1) j(2) inv(2)]) (simp add: True contract inv(3))
    then have "pair = p" using j(2) inv(2) by simp
    then show ?thesis using hook_own [OF conv True] n code inv(4,5) by (auto intro: r_into_rtranclp)
  next
    case F: False
    have "tp_Denom pair \<noteq> d"
    proof
      assume "tp_Denom pair = d"
      then have "j = i" by (intro registry_same [OF inv(1) j(2) inv(2)]) (simp add: inv(4))
      then have "pair = p" using j(2) inv(2) by simp
      then show False using F contract inv(3) by simp
    qed
    then have "keeps x x'" by (rule hook_other [OF conv F])
    then show ?thesis using keeps_vault code by (auto simp: keeps_def intro: r_into_rtranclp)
  qed
qed (use code in simp)

lemma hook_logs_vault:
  assumes inv: "registry_ok (ek_E K) s" "kv_get (e_pairs s) i = Some p" "GetERC20Contract (ek_E K) p = c" "tp_Denom p = d"
      "ContractOwner p = OWNER_MODULE"
  shows "hook_logs K s logs x = (Ok (), x') \<Longrightarrow> code x \<Longrightarrow> vault_step\<^sup>*\<^sup>* (vault x) (vault x') \<and> code x'"
proof (induction logs arbitrary: x)
  case (Cons log logs)
  from Cons.prems(1) obtain y where y: "hook_log K s log x = (Ok (), y)" and rest: "hook_logs K s logs y = (Ok (), x')"
    by (auto simp: bindS_Ok_iff)
  from hook_log_vault [OF inv y] Cons.IH [OF rest] Cons.prems(2) show ?case by (auto intro: rtranclp_trans)
qed (simp add: ret_def)

subsection \<open>Every step is a run of the vault\<close>

lemma vault_okD:
  assumes "vault_ok K c d s"
  obtains i p where "registry_ok (ek_E K) s" "code (e_ext s)" "kv_get (e_pairs s) i = Some p" "GetERC20Contract (ek_E K) p = c"
    "tp_Denom p = d" "ContractOwner p = OWNER_MODULE"
  using assms by (auto simp: vault_ok_def)

lemma vault_okI:
  "registry_ok (ek_E K) s \<Longrightarrow> code (e_ext s) \<Longrightarrow> kv_get (e_pairs s) i = Some p \<Longrightarrow> GetERC20Contract (ek_E K) p = c \<Longrightarrow>
   tp_Denom p = d \<Longrightarrow> ContractOwner p = OWNER_MODULE \<Longrightarrow> vault_ok K c d s"
  unfolding vault_ok_def by blast

lemma other_pair:
  assumes inv: "registry_ok (ek_E K) s" "kv_get (e_pairs s) i = Some p" "GetERC20Contract (ek_E K) p = c" "tp_Denom p = d"
    and q: "kv_get (e_pairs s) j = Some q" "q \<noteq> p"
  shows "GetERC20Contract (ek_E K) q \<noteq> c" and "tp_Denom q \<noteq> d"
  using registry_same [OF inv(1) q(1) inv(2)] q inv by auto

lemma id_denom:
  assumes ok: "registry_ok (ek_E K) s" and "GetTokenPairID (ek_E K) s t = Some i" and "\<not> IsHexAddress (ek_E K) t"
    and "kv_get (e_pairs s) i = Some q"
  shows "tp_Denom q = t"
proof -
  have "kv_get (e_byDenom s) t = Some i" using assms(2,3) by (simp add: GetTokenPairID_def GetDenomMap_def)
  then obtain p where "kv_get (e_pairs s) i = Some p" "tp_Denom p = t" by (rule registry_byDenom [OF ok])
  with assms(4) show ?thesis by simp
qed

lemma convert_coin_vault:
  assumes inv: "registry_ok (ek_E K) s" "code (e_ext s)" "kv_get (e_pairs s) i = Some p" "GetERC20Contract (ek_E K) p = c"
      "tp_Denom p = d" "ContractOwner p = OWNER_MODULE"
    and run: "ConvertCoin K cm s = (Ok r, s')" and hex: "\<not> IsHexAddress (ek_E K) (Denom (cc_Coin cm))" and n: "0 < Amt (cc_Coin cm)"
    and signer: "AccAddressFromBech32 (ek_H K) (cc_Sender cm) \<noteq> Some MOD"
  shows "vault_step\<^sup>*\<^sup>* (vault (e_ext s)) (vault (e_ext s')) \<and> code (e_ext s') \<and> kv_get (e_pairs s') i = Some p"
  using run
proof (cases rule: ConvertCoin_cases)
  case (deleted j q)
  then have "q \<noteq> p" using inv(2,4) by auto
  then have "GetID (ek_E K) q \<noteq> i"
    using registry_stored(1) [OF inv(1) deleted(1)] deleted(1) inv(3) by auto
  then show ?thesis using deleted(2) inv(2,3) by (simp add: registry_defs kv_simps)
next
  case (coin j q sender x)
  note denom = id_denom [OF inv(1) coin(1) hex coin(2)]
  show ?thesis
  proof (cases "q = p")
    case True
    have "sender \<noteq> MOD" using coin(3) signer by auto
    then show ?thesis
      using own_coin_in [OF coin(6)] True inv n denom coin(7) by (auto intro: r_into_rtranclp)
  next
    case False
    have "keeps (e_ext s) x"
      by (rule other_coin_in [OF coin(6)]) (use other_pair [OF inv(1,3-5) coin(2) False] denom in auto)
    then show ?thesis using keeps_vault coin(7) inv(2,3) by (auto simp: keeps_def intro: r_into_rtranclp)
  qed
next
  case (erc20 j q sender x)
  note denom = id_denom [OF inv(1) erc20(1) hex erc20(2)]
  have "q \<noteq> p" using erc20(4) inv(6) by (auto simp: IsNativeERC20_def)
  then have "keeps (e_ext s) x"
    using other_token_out [OF erc20(6)] other_pair [OF inv(1,3-5) erc20(2)] denom by auto
  then show ?thesis using keeps_vault erc20(7) inv(2,3) by (auto simp: keeps_def intro: r_into_rtranclp)
qed

lemma convert_erc20_vault:
  assumes inv: "registry_ok (ek_E K) s" "code (e_ext s)" "kv_get (e_pairs s) i = Some p" "GetERC20Contract (ek_E K) p = c"
      "tp_Denom p = d" "ContractOwner p = OWNER_MODULE"
    and run: "ConvertERC20 K em s = (Ok r, s')" and n: "0 < ce_Amount em"
  shows "vault_step\<^sup>*\<^sup>* (vault (e_ext s)) (vault (e_ext s')) \<and> code (e_ext s') \<and> kv_get (e_pairs s') i = Some p"
  using run
proof (cases rule: ConvertERC20_cases)
  case (deleted j q)
  then have "q \<noteq> p" using inv(2,4) by auto
  then have "GetID (ek_E K) q \<noteq> i"
    using registry_stored(1) [OF inv(1) deleted(1)] deleted(1) inv(3) by auto
  then show ?thesis using deleted(2) inv(2,3) by (simp add: registry_defs kv_simps)
next
  case (coin j q recv x)
  show ?thesis
  proof (cases "q = p")
    case True
    then show ?thesis using own_coin_out [OF coin(6)] inv n coin(7) by (auto intro: r_into_rtranclp)
  next
    case False
    have "keeps (e_ext s) x"
      by (rule other_coin_out [OF coin(6)]) (use other_pair [OF inv(1,3-5) coin(2) False] in auto)
    then show ?thesis using keeps_vault coin(7) inv(2,3) by (auto simp: keeps_def intro: r_into_rtranclp)
  qed
next
  case (token j q recv x)
  have "q \<noteq> p" using token(4) inv(6) by (auto simp: IsNativeERC20_def)
  then have "keeps (e_ext s) x"
    using other_token_in [OF token(6)] other_pair [OF inv(1,3-5) token(2)] by auto
  then show ?thesis using keeps_vault token(7) inv(2,3) by (auto simp: keeps_def intro: r_into_rtranclp)
qed

lemma meta_keeps: "keeps x (SetDenomMetaData (ek_M K) md x)"
  using meta_tok [of md x] by (simp add: keeps_def)

lemma deploy_keeps: "DeployERC20Contract K m x = (Ok a, y) \<Longrightarrow> keeps x y"
  by (auto simp: DeployERC20Contract_def Let_def bindS_Ok_iff ret_def split: option.splits outcome.splits intro: other_call)

lemma RegisterCoin_keeps:
  assumes "RegisterCoin K m s = (Ok p, s')" shows "keeps (e_ext s) (e_ext s')"
proof -
  from assms obtain t a u where t: "e_call (rewrap ErrInternalTokenPair (verifyMetadata K m)) s = (Ok (), t)"
    and u: "e_call (DeployERC20Contract K m) t = (Ok a, u)" and s': "e_ext s' = e_ext u"
    by (auto simp: RegisterCoin_def bindS_Ok_iff Let_def registry_defs split: if_splits)
  have "keeps (e_ext s) (e_ext t)"
    using t meta_keeps by (auto simp: e_call_iff rewrap_def verifyMetadata_def split: option.splits outcome.splits prod.splits)
  moreover have "keeps (e_ext t) (e_ext u)" using u deploy_keeps by (auto simp: e_call_iff)
  ultimately show ?thesis using s' keeps_trans by simp
qed

lemma QueryERC20_state: "QueryERC20 K a x = (Ok v, y) \<Longrightarrow> y = x"
  by (auto simp: QueryERC20_def bindS_Ok_iff fail_def ret_def dest!: view_call split: option.splits)

lemma RegisterERC20_keeps:
  assumes "RegisterERC20 K a s = (Ok p, s')" shows "keeps (e_ext s) (e_ext s')"
proof -
  from assms obtain md t where t: "CreateCoinMetadata K a s = (Ok md, t)" and s': "e_ext s' = e_ext t"
    by (auto simp: RegisterERC20_def bindS_Ok_iff Let_def registry_defs split: if_splits)
  from t have "\<exists>md. e_ext t = SetDenomMetaData (ek_M K) md (e_ext s)"
    by (auto simp: CreateCoinMetadata_def Let_def bindS_Ok_iff e_call_iff dest!: QueryERC20_state split: if_splits)
  then show ?thesis using s' meta_keeps by auto
qed

lemma register_keeps_pair:
  assumes ok: "registry_ok (ek_E K) s" and p: "kv_get (e_pairs s) i = Some p"
    and hex: "IsHexAddress (ek_E K) (Erc20Address q)" and cf: "collision_free (ek_E K) s q" and new: "\<not> IsDenomRegistered s (tp_Denom q)"
  shows "kv_get (e_pairs (register_pair (ek_E K) q (s\<lparr>e_ext := x\<rparr>))) i = Some p"
proof -
  have "kv_get (e_pairs s) (GetID (ek_E K) q) = None"
    by (rule fresh_id [OF ok hex cf]) (use new in \<open>simp add: IsDenomRegistered_def kv_has_def\<close>)
  then have "GetID (ek_E K) q \<noteq> i" using p by auto
  then show ?thesis using p by (simp add: registry_defs kv_simps)
qed

lemma step_vault:
  assumes step: "erc20_step K s s'" and inv: "vault_ok K c d s"
  shows "vault_step\<^sup>*\<^sup>* (vault (e_ext s)) (vault (e_ext s')) \<and> vault_ok K c d s'"
proof -
  obtain i p where inv: "registry_ok (ek_E K) s" "code (e_ext s)" "kv_get (e_pairs s) i = Some p" "GetERC20Contract (ek_E K) p = c"
    "tp_Denom p = d" "ContractOwner p = OWNER_MODULE"
    using inv by (rule vault_okD)
  have len: "DeployERC20Contract K m x = (Ok a, y) \<Longrightarrow> length a = 20" for m x a y
    using Deploy_address [of K m x a y] Create_len by auto
  have ok': "registry_ok (ek_E K) s'" by (rule step_registry [OF eth_laws_axioms step inv(1) len])
  have finish: ?thesis
    if "vault_step\<^sup>*\<^sup>* (vault (e_ext s)) (vault (e_ext s')) \<and> code (e_ext s') \<and> kv_get (e_pairs s') i = Some p"
    using that vault_okI [OF ok' _ _ inv(4-6)] by blast
  have kept: ?thesis if "keeps (e_ext s) (e_ext s')" "kv_get (e_pairs s') i = Some p"
    by (rule finish) (use that keeps_vault [OF that(1)] inv(2) in \<open>auto simp: keeps_def\<close>)
  from step show ?thesis
  proof cases
    case (coin m q)
    from coin(1) obtain a x y where q: "q = NewTokenPair (ek_E K) a (md_Base m) True OWNER_MODULE"
      and s': "s' = register_pair (ek_E K) q (s\<lparr>e_ext := x\<rparr>)" and a: "DeployERC20Contract K m y = (Ok a, x)"
      by (rule RegisterCoin_registered)
    have "kv_get (e_pairs s') i = Some p" unfolding s'
      by (rule register_keeps_pair [OF inv(1,3)]) (use coin Hex_IsHex [OF len [OF a]] in \<open>simp_all add: q NewTokenPair_def\<close>)
    then show ?thesis by (rule kept [OF RegisterCoin_keeps [OF coin(1)]])
  next
    case (token t q)
    from token(1) obtain x where s': "s' = register_pair (ek_E K) q (s\<lparr>e_ext := x\<rparr>)"
      and q: "q = NewTokenPair (ek_E K) t (CreateDenom (addr_Hex (ek_E K) t)) True OWNER_EXTERNAL"
      and new: "\<not> IsDenomRegistered s (CreateDenom (addr_Hex (ek_E K) t))"
      by (rule RegisterERC20_registered)
    have "kv_get (e_pairs s') i = Some p" unfolding s'
      by (rule register_keeps_pair [OF inv(1,3)]) (use token Hex_IsHex [OF token(2)] new in \<open>simp_all add: q NewTokenPair_def\<close>)
    then show ?thesis by (rule kept [OF RegisterERC20_keeps [OF token(1)]])
  next
    case (toggle t q)
    then obtain j r where r: "kv_get (e_pairs s) j = Some r" and s': "s' = SetTokenPair (ek_E K) (r\<lparr>Enabled := \<not> Enabled r\<rparr>) s"
      by (auto simp: ToggleConversion_def Let_def GetTokenPair_Some split: if_splits option.splits)
    have j: "GetID (ek_E K) (r\<lparr>Enabled := \<not> Enabled r\<rparr>) = j" using registry_stored(1) [OF inv(1) r] by (simp add: GetID_def)
    have get: "kv_get (e_pairs s') i = (if i = j then Some (r\<lparr>Enabled := \<not> Enabled r\<rparr>) else Some p)" and x: "e_ext s' = e_ext s"
      using inv(3) by (simp_all add: s' SetTokenPair_def kv_simps j)
    have "\<exists>b. kv_get (e_pairs s') i = Some (p\<lparr>Enabled := b\<rparr>)"
      using get r inv(3) by (cases "i = j") (auto intro: exI [of _ "Enabled p"])
    then obtain b where "kv_get (e_pairs s') i = Some (p\<lparr>Enabled := b\<rparr>)" by blast
    then show ?thesis using vault_okI [OF ok', of i "p\<lparr>Enabled := b\<rparr>"] inv x by (simp add: GetERC20Contract_def)
  next
    case (convert_coin cm r)
    show ?thesis by (rule finish [OF convert_coin_vault [OF inv convert_coin]])
  next
    case (convert_erc20 em r)
    show ?thesis by (rule finish [OF convert_erc20_vault [OF inv convert_erc20(1,3)]])
  next
    case (hook logs)
    then have "vault_step\<^sup>*\<^sup>* (vault (e_ext s)) (vault (e_ext s')) \<and> code (e_ext s') \<and> kv_get (e_pairs s') i = Some p"
      using hook_logs_vault [OF inv(1,3-6)] inv(2,3)
      by (auto simp: erc20_PostTxProcessing_def e_call_iff split: if_splits)
    then show ?thesis by (rule finish)
  next
    case (params q)
    then show ?thesis by (intro kept) (simp_all add: erc20_SetParams_def inv(3))
  qed
qed

end

section \<open>The laws on the executable chain\<close>

lemma std_apply_bank: "std_ApplyMessage m b x = (r, x') \<Longrightarrow> fst x' = fst x"
  by (cases x) (auto simp: std_ApplyMessage_def Let_def split: option.splits prod.splits if_splits)

lemma std_apply_view: "std_ApplyMessage m False x = (r, x') \<Longrightarrow> x' = x"
  by (cases x) (auto simp: std_ApplyMessage_def Let_def split: option.splits prod.splits if_splits)

lemma std_same_view: "snd x' = snd x \<Longrightarrow> same_view std_erc20 x x'"
  by (cases x; cases x') (auto simp: same_view_def std_ApplyMessage_def Let_def split: option.splits prod.splits)

interpretation stdc: erc20_laws std_coins std_erc20 "pair_distr std_distr" UNIV "''aevmos''"
proof (rule erc20_laws.intro)
  show "keeper_laws std_coins (ek_A std_erc20) (ek_B std_erc20) (pair_distr std_distr) UNIV"
    using stdp.keeper_laws_axioms by simp
  show "eth_laws (ek_E std_erc20)" using stde.eth_laws_axioms by simp
  show "erc20_laws_axioms std_erc20 ''aevmos''"
  proof
    show "ApplyMessage (ek_V std_erc20) m False x = (r, x') \<Longrightarrow> x' = x" for m x r x'
      using std_apply_view by simp
    show "ApplyMessage (ek_V std_erc20) m True x = (r, x') \<Longrightarrow>
        GetBalance (ek_B std_erc20) x' a d = GetBalance (ek_B std_erc20) x a d \<and>
        GetSupply (ek_B std_erc20) x' d = GetSupply (ek_B std_erc20) x d" for m x r x' a d
      using std_apply_bank [of m True x r x'] by simp
  qed (simp_all add: on_fst_iff std_same_view)
qed

text \<open>The number of tokens that \<open>ex_contract\<close> has issued.\<close>

definition ex_issued :: "std_chain \<Rightarrow> int" where
  "ex_issued x = (case v_tokens (snd x) ex_contract of None \<Rightarrow> 0 | Some t \<Rightarrow> t_supply t)"

lemma std_exec_supply:
  assumes "std_exec from data t = Some (r, t')"
  shows "hd data \<noteq> CHR ''m'' \<Longrightarrow> t_supply t' \<le> t_supply t"
    and "std_Pack ''mint'' [VAddr a, VInt n] = Some data \<Longrightarrow> t_supply t' = t_supply t + n"
    and "std_Pack ''burnCoins'' [VAddr a, VInt n] = Some data \<Longrightarrow> t_supply t' = t_supply t - n"
    and "std_Pack ''burn'' [VInt n] = Some data \<Longrightarrow> t_supply t' = t_supply t - n"
  using assms by (auto simp: std_exec_def Let_def split: list.splits if_splits)

interpretation stdt: module_token std_coins std_erc20 "pair_distr std_distr" UNIV "''aevmos''" ex_contract "''acoin''" ex_issued
proof (rule module_token.intro)
  show "erc20_laws std_coins std_erc20 (pair_distr std_distr) UNIV ''aevmos''" by (rule stdc.erc20_laws_axioms)
  note defs = std_ApplyMessage_def ex_issued_def Let_def
  show "module_token_axioms std_erc20 ''aevmos'' ex_contract ''acoin'' ex_issued"
  proof
    fix m x r x' a n q
    show "ApplyMessage (ek_V std_erc20) m True x = (Ok r, x') \<Longrightarrow> em_To m = Some ex_contract \<Longrightarrow>
        abi_Pack (ek_P std_erc20) ''mint'' [VAddr a, VInt n] = Some (em_Data m) \<Longrightarrow> \<not> res_Failed r \<Longrightarrow>
        evm_IsContract (ek_V std_erc20) x ex_contract = Some True \<Longrightarrow> ex_issued x' = ex_issued x + n"
      by (auto simp: defs split: option.splits prod.splits dest: std_exec_supply(2) simp del: std_Pack.simps)
    show "ApplyMessage (ek_V std_erc20) m True x = (Ok r, x') \<Longrightarrow> em_To m = Some ex_contract \<Longrightarrow>
        abi_Pack (ek_P std_erc20) ''burnCoins'' [VAddr a, VInt n] = Some (em_Data m) \<Longrightarrow> \<not> res_Failed r \<Longrightarrow>
        evm_IsContract (ek_V std_erc20) x ex_contract = Some True \<Longrightarrow> ex_issued x' = ex_issued x - n"
      by (auto simp: defs split: option.splits prod.splits dest: std_exec_supply(3) simp del: std_Pack.simps)
    show "ApplyMessage (ek_V std_erc20) m True x = (Ok r, x') \<Longrightarrow> em_To m = Some ex_contract \<Longrightarrow>
        abi_Pack (ek_P std_erc20) ''burn'' [VInt n] = Some (em_Data m) \<Longrightarrow> \<not> res_Failed r \<Longrightarrow>
        evm_IsContract (ek_V std_erc20) x ex_contract = Some True \<Longrightarrow> ex_issued x' = ex_issued x - n"
      by (auto simp: defs split: option.splits prod.splits dest: std_exec_supply(4) simp del: std_Pack.simps)
    show "ApplyMessage (ek_V std_erc20) m True x = (q, x') \<Longrightarrow> (\<And>v. q = Ok v \<Longrightarrow> res_Failed v) \<Longrightarrow> ex_issued x' = ex_issued x"
      by (auto simp: defs split: option.splits prod.splits if_splits)
    show "ApplyMessage (ek_V std_erc20) m True x = (q, x') \<Longrightarrow> em_To m \<noteq> Some ex_contract \<Longrightarrow> ex_issued x' \<le> ex_issued x"
      by (auto simp: defs split: option.splits prod.splits if_splits)
    show "ApplyMessage (ek_V std_erc20) m True x = (q, x') \<Longrightarrow> evm_IsContract (ek_V std_erc20) x ex_contract = Some True \<Longrightarrow>
        evm_IsContract (ek_V std_erc20) x' ex_contract = Some True"
      by (auto simp: defs split: option.splits prod.splits if_splits)
  qed (auto simp: on_fst_iff ex_issued_def std_meta_def std_bank_def std_mint_def std_transfer_def intro: prod.expand split: if_splits prod.splits)
qed

section \<open>Conversions of tokens of other contracts are exact\<close>

context erc20_laws
begin

lemma ConvertERC20_exact:
  assumes ok: "registry_ok (ek_E K) s"
    and p: "kv_get (e_pairs s) i = Some p" "IsNativeERC20 p" "tp_Denom p \<noteq> evmd" "coins_ValidDenom C (tp_Denom p)"
    and run: "ConvertERC20 K em s = (Ok (Some ()), s')" and hex: "IsHexAddress (ek_E K) (ce_ContractAddress em)"
    and c: "HexToAddress (ek_E K) (ce_ContractAddress em) = GetERC20Contract (ek_E K) p" and n: "0 < ce_Amount em"
  obtains recv x where "AccAddressFromBech32 (ek_H K) (ce_Receiver em) = Some recv" and "s' = s\<lparr>e_ext := x\<rparr>"
    and "convertERC20NativeToken K p em recv (HexToAddress (ek_E K) (ce_Sender em)) (e_ext s) = (Ok (), x)"
proof -
  have pair: "q = p" if "GetTokenPairID (ek_E K) s (ce_ContractAddress em) = Some j" "kv_get (e_pairs s) j = Some q" for j q
    using that registry_stored(3) [OF ok p(1)] p(1) hex c by (simp add: GetTokenPairID_def GetERC20Map_def)
  from run show thesis
  proof (cases rule: ConvertERC20_cases)
    case (coin j q recv x)
    show thesis using coin(4) pair [OF coin(1,2)] p(2) by (simp add: IsNativeERC20_def IsNativeCoin_def)
  next
    case (token j q recv x)
    show thesis by (rule that [OF token(3,7)]) (use token(6) pair [OF token(1,2)] in simp)
  qed simp
qed

lemma ConvertCoin_exact:
  assumes ok: "registry_ok (ek_E K) s"
    and p: "kv_get (e_pairs s) i = Some p" "IsNativeERC20 p" "tp_Denom p \<noteq> evmd" "coins_ValidDenom C (tp_Denom p)"
    and run: "ConvertCoin K cm s = (Ok (Some ()), s')" and hex: "\<not> IsHexAddress (ek_E K) (tp_Denom p)"
    and d: "Denom (cc_Coin cm) = tp_Denom p" and n: "0 < Amt (cc_Coin cm)"
  obtains sender x where "AccAddressFromBech32 (ek_H K) (cc_Sender cm) = Some sender" and "s' = s\<lparr>e_ext := x\<rparr>"
    and "convertCoinNativeERC20 K p cm (HexToAddress (ek_E K) (cc_Receiver cm)) sender (e_ext s) = (Ok (), x)"
proof -
  have pair: "q = p" if "GetTokenPairID (ek_E K) s (Denom (cc_Coin cm)) = Some j" "kv_get (e_pairs s) j = Some q" for j q
    using that registry_stored(4) [OF ok p(1)] p(1) hex d by (simp add: GetTokenPairID_def GetDenomMap_def)
  from run show thesis
  proof (cases rule: ConvertCoin_cases)
    case (coin j q sender x)
    show thesis using coin(4) pair [OF coin(1,2)] p(2) by (simp add: IsNativeERC20_def IsNativeCoin_def)
  next
    case (erc20 j q sender x)
    show thesis by (rule that [OF erc20(3,7)]) (use erc20(6) pair [OF erc20(1,2)] in simp)
  qed simp
qed

end

text \<open>What changed of the coin \<open>d\<close> and of the tokens of \<open>h\<close> at the contract \<open>c\<close>.\<close>

definition coin_change :: "'x erc20_keepers \<Rightarrow> denom \<Rightarrow> (addr \<Rightarrow> int) \<Rightarrow> int \<Rightarrow> 'x \<Rightarrow> 'x \<Rightarrow> bool" where
  "coin_change K d f n x x' \<longleftrightarrow>
     (\<forall>a. GetBalance (ek_B K) x' a d = GetBalance (ek_B K) x a d + f a) \<and> GetSupply (ek_B K) x' d = GetSupply (ek_B K) x d + n"

definition token_change :: "'x erc20_keepers \<Rightarrow> addr \<Rightarrow> addr \<Rightarrow> int \<Rightarrow> 'x \<Rightarrow> 'x \<Rightarrow> bool" where
  "token_change K c h n x x' \<longleftrightarrow> (\<exists>b. tokens_of K c h x = Some b \<and> tokens_of K c h x' = Some (b + n))"

text \<open>C28. Whatever the contract of a token does, a conversion that succeeds is exact: converting tokens
  adds the amount to the tokens the module is seen to hold, to the receiver's coins and to the supply;
  converting coins adds it to the tokens the receiver is seen to hold and takes it from the sender's
  coins and from the supply.  No other balance of the coin and nothing of the registry changes.\<close>

theorem conversion_exact:
  assumes laws: "erc20_laws C K D reg evmd" and ok: "registry_ok (ek_E K) s"
    and p: "kv_get (e_pairs s) i = Some p" "IsNativeERC20 p" "tp_Denom p \<noteq> evmd" "coins_ValidDenom C (tp_Denom p)"
      "\<not> IsHexAddress (ek_E K) (tp_Denom p)"
  shows "(ConvertERC20 K em s = (Ok (Some ()), s') \<longrightarrow> IsHexAddress (ek_E K) (ce_ContractAddress em) \<longrightarrow>
      HexToAddress (ek_E K) (ce_ContractAddress em) = GetERC20Contract (ek_E K) p \<longrightarrow> 0 < ce_Amount em \<longrightarrow>
      (\<exists>receiver x. AccAddressFromBech32 (ek_H K) (ce_Receiver em) = Some receiver \<and> s' = s\<lparr>e_ext := x\<rparr> \<and>
         coin_change K (tp_Denom p) (\<lambda>a. if a = receiver then ce_Amount em else 0) (ce_Amount em) (e_ext s) x \<and>
         token_change K (GetERC20Contract (ek_E K) p) (ModuleAddress K) (ce_Amount em) (e_ext s) x)) \<and>
    (ConvertCoin K cm s = (Ok (Some ()), s') \<longrightarrow> Denom (cc_Coin cm) = tp_Denom p \<longrightarrow> 0 < Amt (cc_Coin cm) \<longrightarrow>
      (\<exists>sender x. AccAddressFromBech32 (ek_H K) (cc_Sender cm) = Some sender \<and> s' = s\<lparr>e_ext := x\<rparr> \<and>
         coin_change K (tp_Denom p) (\<lambda>a. if a = sender then - Amt (cc_Coin cm) else 0) (- Amt (cc_Coin cm)) (e_ext s) x \<and>
         token_change K (GetERC20Contract (ek_E K) p) (HexToAddress (ek_E K) (cc_Receiver cm)) (Amt (cc_Coin cm)) (e_ext s) x))"
proof (intro conjI impI)
  assume em: "ConvertERC20 K em s = (Ok (Some ()), s')" "IsHexAddress (ek_E K) (ce_ContractAddress em)"
    "HexToAddress (ek_E K) (ce_ContractAddress em) = GetERC20Contract (ek_E K) p" "0 < ce_Amount em"
  obtain receiver x where r: "AccAddressFromBech32 (ek_H K) (ce_Receiver em) = Some receiver" "s' = s\<lparr>e_ext := x\<rparr>"
    and c: "convertERC20NativeToken K p em receiver (HexToAddress (ek_E K) (ce_Sender em)) (e_ext s) = (Ok (), x)"
    by (rule erc20_laws.ConvertERC20_exact [OF laws ok p(1-4) em])
  note exact = erc20_laws.token_in_exact [OF laws c p(3,4) em(4)]
  show "\<exists>receiver x. AccAddressFromBech32 (ek_H K) (ce_Receiver em) = Some receiver \<and> s' = s\<lparr>e_ext := x\<rparr> \<and>
      coin_change K (tp_Denom p) (\<lambda>a. if a = receiver then ce_Amount em else 0) (ce_Amount em) (e_ext s) x \<and>
      token_change K (GetERC20Contract (ek_E K) p) (ModuleAddress K) (ce_Amount em) (e_ext s) x"
    by (intro exI conjI, rule r(1), rule r(2)) (simp_all add: coin_change_def token_change_def exact)
next
  assume cm: "ConvertCoin K cm s = (Ok (Some ()), s')" and d: "Denom (cc_Coin cm) = tp_Denom p" and n: "0 < Amt (cc_Coin cm)"
  obtain sender x where r: "AccAddressFromBech32 (ek_H K) (cc_Sender cm) = Some sender" "s' = s\<lparr>e_ext := x\<rparr>"
    and c: "convertCoinNativeERC20 K p cm (HexToAddress (ek_E K) (cc_Receiver cm)) sender (e_ext s) = (Ok (), x)"
    by (rule erc20_laws.ConvertCoin_exact [OF laws ok p(1-4) cm p(5) d n])
  have e: "Denom (cc_Coin cm) \<noteq> evmd" "coins_ValidDenom C (Denom (cc_Coin cm))" using p(3,4) d by simp_all
  note exact = erc20_laws.token_out_exact [OF laws c e n, unfolded d]
  show "\<exists>sender x. AccAddressFromBech32 (ek_H K) (cc_Sender cm) = Some sender \<and> s' = s\<lparr>e_ext := x\<rparr> \<and>
      coin_change K (tp_Denom p) (\<lambda>a. if a = sender then - Amt (cc_Coin cm) else 0) (- Amt (cc_Coin cm)) (e_ext s) x \<and>
      token_change K (GetERC20Contract (ek_E K) p) (HexToAddress (ek_E K) (cc_Receiver cm)) (Amt (cc_Coin cm)) (e_ext s) x"
    by (intro exI conjI, rule r(1), rule r(2)) (simp_all add: coin_change_def token_change_def exact)
qed

definition ex_in :: msg_convert_erc20 where
  "ex_in = \<lparr>ce_ContractAddress = addr_Hex std_eth ex_external, ce_Amount = 20, ce_Receiver = ex_user, ce_Sender = addr_Hex std_eth ex_bob\<rparr>"

definition ex_out :: msg_convert_coin where
  "ex_out = \<lparr>cc_Coin = oneCoin (tp_Denom ex_token_pair) 5, cc_Receiver = addr_Hex std_eth ex_bob, cc_Sender = ex_user\<rparr>"

theorem conversion_exact_witness:
  "\<exists>s1 s2. ConvertERC20 std_erc20 ex_in ex_erc20 = (Ok (Some ()), s1) \<and> ConvertCoin std_erc20 ex_out s1 = (Ok (Some ()), s2) \<and>
     coin_change std_erc20 (tp_Denom ex_token_pair) (\<lambda>a. if a = ex_user then 20 else 0) 20 (e_ext ex_erc20) (e_ext s1) \<and>
     token_change std_erc20 ex_external std_module 20 (e_ext ex_erc20) (e_ext s1) \<and>
     coin_change std_erc20 (tp_Denom ex_token_pair) (\<lambda>a. if a = ex_user then - 5 else 0) (- 5) (e_ext s1) (e_ext s2) \<and>
     token_change std_erc20 ex_external ex_bob 5 (e_ext s1) (e_ext s2)"
proof -
  define s1 where "s1 = snd (ConvertERC20 std_erc20 ex_in ex_erc20)"
  define s2 where "s2 = snd (ConvertCoin std_erc20 ex_out s1)"
  have in_run: "ConvertERC20 std_erc20 ex_in ex_erc20 = (Ok (Some ()), s1)"
  proof -
    have "fst (ConvertERC20 std_erc20 ex_in ex_erc20) = Ok (Some ())" by code_simp
    then show ?thesis by (simp add: s1_def prod_eq_iff)
  qed
  have out_run: "ConvertCoin std_erc20 ex_out s1 = (Ok (Some ()), s2)"
  proof -
    have "fst (ConvertCoin std_erc20 ex_out s1) = Ok (Some ())" unfolding s1_def by code_simp
    then show ?thesis by (simp add: s2_def prod_eq_iff)
  qed
  have stored: "kv_get (e_pairs ex_erc20) (GetID std_eth ex_token_pair) = Some ex_token_pair" by code_simp
  have pair: "IsNativeERC20 ex_token_pair" "tp_Denom ex_token_pair \<noteq> ''aevmos''" "coins_ValidDenom std_coins (tp_Denom ex_token_pair)"
    "\<not> IsHexAddress std_eth (tp_Denom ex_token_pair)" by code_simp+
  have args: "IsHexAddress std_eth (ce_ContractAddress ex_in)" "HexToAddress std_eth (ce_ContractAddress ex_in) = GetERC20Contract std_eth ex_token_pair"
    "GetERC20Contract std_eth ex_token_pair = ex_external" "HexToAddress std_eth (cc_Receiver ex_out) = ex_bob"
    "AccAddressFromBech32 std_bech32 (ce_Receiver ex_in) = Some ex_user" "AccAddressFromBech32 std_bech32 (cc_Sender ex_out) = Some ex_user"
    "ce_Amount ex_in = 20" "Amt (cc_Coin ex_out) = 5" "Denom (cc_Coin ex_out) = tp_Denom ex_token_pair"
    by code_simp+
  have first: "\<exists>x. s1 = ex_erc20\<lparr>e_ext := x\<rparr> \<and>
      coin_change std_erc20 (tp_Denom ex_token_pair) (\<lambda>a. if a = ex_user then 20 else 0) 20 (e_ext ex_erc20) x \<and>
      token_change std_erc20 ex_external std_module 20 (e_ext ex_erc20) x"
    using conversion_exact [OF stdc.erc20_laws_axioms, of ex_erc20 "GetID std_eth ex_token_pair" ex_token_pair ex_in s1 ex_out]
      ex_registry stored pair args in_run
    by (simp add: ModuleAddress_std cong: if_cong)
  then have "registry_ok std_eth s1" "kv_get (e_pairs s1) (GetID std_eth ex_token_pair) = Some ex_token_pair"
    using ex_registry stored by auto
  then have second: "\<exists>x. s2 = s1\<lparr>e_ext := x\<rparr> \<and>
      coin_change std_erc20 (tp_Denom ex_token_pair) (\<lambda>a. if a = ex_user then - 5 else 0) (- 5) (e_ext s1) x \<and>
      token_change std_erc20 ex_external ex_bob 5 (e_ext s1) x"
    using conversion_exact [OF stdc.erc20_laws_axioms, of s1 "GetID std_eth ex_token_pair" ex_token_pair ex_in s2 ex_out]
      pair args out_run
    by (simp cong: if_cong)
  show ?thesis using in_run out_run first second by auto
qed

section \<open>The module's contracts implement a vault\<close>

text \<open>
  A step of the chain: one of the module's messages, proposals and hooks, or anything else that may
  happen to the bank and the EVM meanwhile, as long as it issues no token of the contract, keeps the
  contract's code and takes nothing from the module account.
\<close>

inductive chain_step :: "'x erc20_keepers \<Rightarrow> addr \<Rightarrow> denom \<Rightarrow> ('x \<Rightarrow> int) \<Rightarrow> 'x erc20_state \<Rightarrow> 'x erc20_state \<Rightarrow> bool"
  for K c d issued where
  own: "erc20_step K s s' \<Longrightarrow> chain_step K c d issued s s'"
| env: "issued x \<le> issued (e_ext s) \<Longrightarrow> (evm_IsContract (ek_V K) (e_ext s) c = Some True \<longrightarrow> evm_IsContract (ek_V K) x c = Some True) \<Longrightarrow>
     fst (vault_of K d issued (e_ext s)) \<le> fst (vault_of K d issued x) \<Longrightarrow> chain_step K c d issued s (s\<lparr>e_ext := x\<rparr>)"

lemma chain_step_vault:
  assumes "module_token C K D reg evmd c d issued" and "chain_step K c d issued s s'" and "vault_ok K c d s"
  shows "vault_step\<^sup>*\<^sup>* (vault_of K d issued (e_ext s)) (vault_of K d issued (e_ext s')) \<and> vault_ok K c d s'"
  using assms(2)
proof cases
  case own
  show ?thesis by (rule module_token.step_vault [OF assms(1) own assms(3)])
next
  case (env x)
  have "vault_step (vault_of K d issued (e_ext s)) (vault_of K d issued x)"
    using env by (auto simp: vault_of_def intro: vault_step.slack)
  then show ?thesis using env assms(3) by (auto simp: vault_ok_def)
qed


definition ex_lock :: msg_convert_coin where
  "ex_lock = \<lparr>cc_Coin = oneCoin ''acoin'' 30, cc_Receiver = addr_Hex std_eth ex_bob, cc_Sender = ex_user\<rparr>"


section \<open>What the hook does not undo\<close>

lemma hook_log_no_error: "fst (hook_log K s log x) \<noteq> Err e"
  by (auto simp: hook_log_def hook_convert_def Let_def split: option.splits list.splits abi_val.splits outcome.splits prod.splits)

lemma hook_logs_no_error: "fst (hook_logs K s logs x) \<noteq> Err e"
proof (induction logs arbitrary: x)
  case (Cons log logs)
  then show ?case using hook_log_no_error [of K s log x e]
    by (auto simp: bindS_def split: prod.splits outcome.splits)
qed (simp add: ret_def)

text \<open>C30. The hook never fails the transaction it runs after: an error while a transferred token is
  converted is logged and skipped.  So when the tokens were burnt and the coins then cannot be released,
  because the sender is a blocked address, the burning stays: the holder's tokens are gone, and no
  balance of the coin has changed.\<close>

theorem hook_burns_without_release:
  assumes laws: "module_token C K D reg evmd c d issued" and code: "evm_IsContract (ek_V K) (e_ext s) c = Some True"
    and on: "EnableErc20 (e_params s)" "EnableEVMHook (e_params s)"
    and i: "kv_get (e_byERC20 s) c = Some i" "i \<noteq> []" "kv_get (e_pairs s) i = Some p"
    and p: "tp_Denom p = d" "Enabled p" "ContractOwner p = OWNER_MODULE"
    and log: "log_Address log = c" "log_Topics log = [t0, t1, t2]" "abi_EventByID (ek_P K) t0 = Some ''Transfer''"
      "abi_Unpack (ek_P K) ''Transfer'' (log_Data log) = Some (VInt n # vs)" "0 < n"
    and addrs: "BytesToAddress (ek_E K) t2 = ModuleAddress K" "BlockedAddr (ek_B K) (BytesToAddress (ek_E K) t1)"
    and burn: "CallEVM K (ModuleAddress K) c True ''burn'' [VInt n] (e_ext s) = (Ok v, x)"
  shows "(\<forall>logs t e. fst (erc20_PostTxProcessing K logs t) \<noteq> Err e) \<and>
    erc20_PostTxProcessing K [log] s = (Ok (), s\<lparr>e_ext := x\<rparr>) \<and> issued x = issued (e_ext s) - n \<and>
    (\<forall>a. GetBalance (ek_B K) x a d = GetBalance (ek_B K) (e_ext s) a d)"
proof -
  have base: "erc20_laws C K D reg evmd" and d: "d \<noteq> evmd"
    using laws module_token.axioms(1) module_token.d_evm by blast+
  have keep: "keeper_laws C (ek_A K) (ek_B K) D reg" using base erc20_laws.axioms(1) by blast
  have no_err: "fst (erc20_PostTxProcessing K logs t) \<noteq> Err e" for logs t e
    using hook_logs_no_error [of K t logs "e_ext t" e] by (auto simp: erc20_PostTxProcessing_def e_call_def split: prod.splits)
  have "erc20_PostTxProcessing K [log] s = (Ok (), s\<lparr>e_ext := x\<rparr>)"
    using on i p log addrs burn keeper_laws.ModuleToAccount_blocked [OF keep addrs(2)]
    by (simp add: erc20_PostTxProcessing_def e_call_def hook_log_def hook_convert_def Let_def GetERC20Map_def GetTokenPair_def
        no_id_def bindS_def ret_def)
  moreover have "issued x = issued (e_ext s) - n"
    using module_token.own_burn [OF laws burn code] by simp
  moreover have "\<forall>a. GetBalance (ek_B K) x a d = GetBalance (ek_B K) (e_ext s) a d"
    using erc20_laws.commit_call_bank [OF base burn d] by simp
  ultimately show ?thesis using no_err by simp
qed

text \<open>A blocked address has just sent its 30 tokens to the module.\<close>

definition ex_sent :: "std_chain erc20_state" where
  "ex_sent = ex_erc20\<lparr>e_ext := (fst ex_chain, (snd ex_chain)\<lparr>v_tokens := (v_tokens (snd ex_chain))
     (ex_contract \<mapsto> \<lparr>t_bal = (\<lambda>a. if a = std_module then 30 else 0), t_supply = 30\<rparr>)\<rparr>)\<rparr>"

definition ex_log :: evm_log where
  "ex_log = \<lparr>log_Address = ex_contract, log_Topics = [''T'', ''module/gov-20-bytes.'', std_module], log_Data = ones 30\<rparr>"

theorem hook_burns_without_release_witness:
  "\<exists>x. erc20_PostTxProcessing std_erc20 [ex_log] ex_sent = (Ok (), ex_sent\<lparr>e_ext := x\<rparr>) \<and> ex_issued (e_ext ex_sent) = 30 \<and> ex_issued x = 0 \<and>
     (\<forall>a. GetBalance (pair_bank std_bank) x a ''acoin'' = GetBalance (pair_bank std_bank) (e_ext ex_sent) a ''acoin'')"
proof -
  define r where "r = CallEVM std_erc20 std_module ex_contract True ''burn'' [VInt 30] (e_ext ex_sent)"
  have "\<exists>v. fst r = Ok v" unfolding r_def by (rule exI [of _ "\<lparr>res_Failed = False, res_Ret = [], res_Logs = []\<rparr>"]) code_simp
  then obtain v where v: "CallEVM std_erc20 std_module ex_contract True ''burn'' [VInt 30] (e_ext ex_sent) = (Ok v, snd r)"
    by (auto simp: r_def prod_eq_iff)
  have "evm_IsContract std_evm_ops (e_ext ex_sent) ex_contract = Some True" "EnableErc20 (e_params ex_sent)" "EnableEVMHook (e_params ex_sent)"
    "kv_get (e_byERC20 ex_sent) ex_contract = Some (GetID std_eth ex_coin_pair)" "GetID std_eth ex_coin_pair \<noteq> []"
    "kv_get (e_pairs ex_sent) (GetID std_eth ex_coin_pair) = Some ex_coin_pair" "tp_Denom ex_coin_pair = ''acoin''"
    "Enabled ex_coin_pair" "ContractOwner ex_coin_pair = OWNER_MODULE" "log_Address ex_log = ex_contract"
    "log_Topics ex_log = [''T'', ''module/gov-20-bytes.'', std_module]" "abi_EventByID std_abi ''T'' = Some ''Transfer''"
    "abi_Unpack std_abi ''Transfer'' (log_Data ex_log) = Some (VInt 30 # [])" "BytesToAddress std_eth std_module = std_module"
    "BlockedAddr (pair_bank std_bank) (BytesToAddress std_eth ''module/gov-20-bytes.'')" "ex_issued (e_ext ex_sent) = 30"
    by code_simp+
  then show ?thesis
    by (intro exI [of _ "snd r"])
      (use hook_burns_without_release [OF stdt.module_token_axioms, of ex_sent "GetID std_eth ex_coin_pair" ex_coin_pair ex_log "''T''"
        "''module/gov-20-bytes.''" std_module 30 "[]" v "snd r"] v in
        \<open>simp add: ModuleAddress_std\<close>)
qed

end
