(* ===== verification/Incentives.thy ===== *)
theory Incentives
  imports Inflation Erc20_World "HOL-Library.Word"
begin

text \<open>
  \<open>x/incentives\<close>: incentives for contracts registered by governance, the gas meters of their
  participants, the allocation meters for each denomination, and the distribution of rewards at the
  end of an epoch.  Gas is a \<open>uint64\<close> and the remaining epochs a \<open>uint32\<close>, both with Go's wrap-around.
  An iteration over a store visits the entries it had when the iteration started.  Telemetry, logging
  and events are left out.
\<close>

section \<open>Types\<close>

record dec_coin =
  dc_Denom :: denom
  dc_Amount :: dec

record incentive =
  in_Contract :: string
  in_Allocations :: "dec_coin list"
  in_Epochs :: "32 word"
  in_StartTime :: time
  in_TotalGas :: "64 word"

record gas_meter =
  gm_Contract :: string
  gm_Participant :: string
  CumulativeGas :: "64 word"

text \<open>\<open>sdk.DecCoins\<close> and the proposal check of the SDK, and ethermint's kind of an account: \<open>None\<close> where
  there is no account, \<open>Some True\<close> for an ethermint account of a contract.\<close>

record 'x inc_keepers =
  nk_C :: coins_ops
  nk_F :: dec_ops
  nk_E :: eth_ops
  nk_V :: "'x evm_ops"
  nk_A :: "'x account_ops"
  nk_B :: "'x bank_ops"
  nk_DecCoinsIsZero :: "dec_coin list \<Rightarrow> bool"
  nk_DecCoinsValidate :: "dec_coin list \<Rightarrow> bool"
  nk_ValidateAbstract :: "string \<Rightarrow> string \<Rightarrow> bool"
  nk_EthContractAccount :: "'x \<Rightarrow> addr \<Rightarrow> bool option"
  nk_ModuleAccount :: "'x \<Rightarrow> string \<Rightarrow> bool"

definition NewIncentive :: "eth_ops \<Rightarrow> addr \<Rightarrow> dec_coin list \<Rightarrow> 32 word \<Rightarrow> incentive" where
  "NewIncentive E contract allocations epochs =
     \<lparr>in_Contract = addr_Hex E contract, in_Allocations = allocations, in_Epochs = epochs,
      in_StartTime = zero_time, in_TotalGas = 0\<rparr>"

definition validateAmount :: "dec \<Rightarrow> unit outcome" where
  "validateAmount amount =
     (if amount > dec_one \<or> amount \<le> 0 then Err (ErrPlain ''invalid amount for allocation'') else Ok ())"

fun in_allocations_Validate :: "coins_ops \<Rightarrow> dec_coin list \<Rightarrow> unit outcome" where
  "in_allocations_Validate C [] = Ok ()"
| "in_allocations_Validate C (al # als) =
     (if \<not> coins_ValidDenom C (dc_Denom al) then Err (ErrExt ''ValidateDenom'') else
      bindO (validateAmount (dc_Amount al)) (\<lambda>_. in_allocations_Validate C als))"

definition in_Validate :: "'x inc_keepers \<Rightarrow> incentive \<Rightarrow> unit outcome" where
  "in_Validate K i =
     (if \<not> ValidateAddress (nk_E K) (in_Contract i) then Err (ErrExt ''ValidateAddress'') else
      if nk_DecCoinsIsZero K (in_Allocations i) then Err (ErrPlain ''allocations cannot be empty'') else
      bindO (in_allocations_Validate (nk_C K) (in_Allocations i)) (\<lambda>_.
      if in_Epochs i = 0 then Err (ErrPlain ''epoch cannot be 0'') else Ok ()))"

definition IsActive :: "incentive \<Rightarrow> bool" where
  "IsActive i \<longleftrightarrow> in_Epochs i > 0"

definition NewGasMeter :: "eth_ops \<Rightarrow> addr \<Rightarrow> addr \<Rightarrow> 64 word \<Rightarrow> gas_meter" where
  "NewGasMeter E contract participant cumulativeGas =
     \<lparr>gm_Contract = addr_Hex E contract, gm_Participant = addr_Hex E participant, CumulativeGas = cumulativeGas\<rparr>"

definition gm_Validate :: "eth_ops \<Rightarrow> gas_meter \<Rightarrow> unit outcome" where
  "gm_Validate E gm =
     (if \<not> ValidateAddress E (gm_Contract gm) then Err (ErrExt ''ValidateAddress'') else
      if \<not> ValidateAddress E (gm_Participant gm) then Err (ErrExt ''ValidateAddress'') else Ok ())"

section \<open>Parameters\<close>

record inc_params =
  EnableIncentives :: bool
  AllocationLimit :: dec
  IncentivesEpochIdentifier :: string
  RewardScaler :: dec

definition inc_DefaultParams :: inc_params where
  "inc_DefaultParams =
     \<lparr>EnableIncentives = True, AllocationLimit = NewDecWithPrec 5 2,
      IncentivesEpochIdentifier = WeekEpochID, RewardScaler = NewDecWithPrec 12 1\<rparr>"

definition validatePercentage :: "dec \<Rightarrow> unit outcome" where
  "validatePercentage d =
     (if d < 0 then Err (ErrPlain ''allocation limit must be positive'') else
      if d > dec_one then Err (ErrPlain ''allocation limit must <= 100'') else Ok ())"

definition validateUncappedPercentage :: "dec \<Rightarrow> unit outcome" where
  "validateUncappedPercentage d = (if d < 0 then Err (ErrPlain ''allocation limit must be positive'') else Ok ())"

definition inc_params_Validate :: "inc_params \<Rightarrow> unit outcome" where
  "inc_params_Validate p =
     bindO (validatePercentage (AllocationLimit p)) (\<lambda>_.
     bindO (validateUncappedPercentage (RewardScaler p)) (\<lambda>_.
     ValidateEpochIdentifierString (IncentivesEpochIdentifier p)))"

section \<open>Proposals\<close>

datatype inc_proposal =
    RegisterIncentiveProposal string string string "dec_coin list" "32 word"
  | CancelIncentiveProposal string string string

fun validate_amounts :: "dec_coin list \<Rightarrow> unit outcome" where
  "validate_amounts [] = Ok ()"
| "validate_amounts (al # als) = bindO (validateAmount (dc_Amount al)) (\<lambda>_. validate_amounts als)"

definition validateAllocations :: "'x inc_keepers \<Rightarrow> dec_coin list \<Rightarrow> unit outcome" where
  "validateAllocations K allocations =
     (if allocations = [] then Err (ErrPlain ''incentive allocations cannot be empty'') else
      bindO (validate_amounts allocations) (\<lambda>_.
      if nk_DecCoinsValidate K allocations then Ok () else Err (ErrExt ''DecCoins.Validate'')))"

definition validateEpochs :: "32 word \<Rightarrow> unit outcome" where
  "validateEpochs epochs = (if epochs = 0 then Err (ErrPlain ''epochs value cannot be 0'') else Ok ())"

fun inc_proposal_ValidateBasic :: "'x inc_keepers \<Rightarrow> inc_proposal \<Rightarrow> unit outcome" where
  "inc_proposal_ValidateBasic K (RegisterIncentiveProposal title description contract allocations epochs) =
     (if \<not> ValidateAddress (nk_E K) contract then Err (ErrExt ''ValidateAddress'') else
      bindO (validateAllocations K allocations) (\<lambda>_.
      bindO (validateEpochs epochs) (\<lambda>_.
      if nk_ValidateAbstract K title description then Ok () else Err (ErrExt ''ValidateAbstract''))))"
| "inc_proposal_ValidateBasic K (CancelIncentiveProposal title description contract) =
     (if \<not> ValidateAddress (nk_E K) contract then Err (ErrExt ''ValidateAddress'') else
      if nk_ValidateAbstract K title description then Ok () else Err (ErrExt ''ValidateAbstract''))"

section \<open>State\<close>

record 'x inc_state =
  n_params :: inc_params
  n_incentives :: "incentive kv"
  n_gasMeters :: "64 word kv"
  n_allocationMeters :: "dec kv"
  n_ext :: 'x

definition SplitGasMeterKey :: "eth_ops \<Rightarrow> bytes \<Rightarrow> addr \<times> addr" where
  "SplitGasMeterKey E key =
     (let key = (if length key = 41 then drop 1 key else key)
      in (BytesToAddress E (take 20 key), BytesToAddress E (drop 20 key)))"

subsection \<open>Allocation meters\<close>

definition GetAllocationMeter :: "'x inc_state \<Rightarrow> denom \<Rightarrow> dec_coin \<times> bool" where
  "GetAllocationMeter s denom =
     (case kv_get (n_allocationMeters s) denom of
        None \<Rightarrow> (\<lparr>dc_Denom = denom, dc_Amount = 0\<rparr>, False)
      | Some amount \<Rightarrow> (\<lparr>dc_Denom = denom, dc_Amount = amount\<rparr>, True))"

definition GetAllAllocationMeters :: "'x inc_state \<Rightarrow> dec_coin list" where
  "GetAllAllocationMeters s =
     map fst (filter snd (map (\<lambda>(denom, _). GetAllocationMeter s denom) (n_allocationMeters s)))"

definition SetAllocationMeter :: "dec_coin \<Rightarrow> 'x inc_state \<Rightarrow> 'x inc_state" where
  "SetAllocationMeter am s =
     s\<lparr>n_allocationMeters :=
         (if dc_Amount am = 0 then kv_del (n_allocationMeters s) (dc_Denom am)
          else kv_set (n_allocationMeters s) (dc_Denom am) (dc_Amount am))\<rparr>"

subsection \<open>Incentives\<close>

definition GetAllIncentives :: "'x inc_state \<Rightarrow> incentive list" where
  "GetAllIncentives s = map snd (n_incentives s)"

definition GetIncentive :: "'x inc_state \<Rightarrow> addr \<Rightarrow> incentive option" where
  "GetIncentive s contract = kv_get (n_incentives s) contract"

definition SetIncentive :: "eth_ops \<Rightarrow> incentive \<Rightarrow> 'x inc_state \<Rightarrow> 'x inc_state" where
  "SetIncentive E incentive s =
     s\<lparr>n_incentives := kv_set (n_incentives s) (HexToAddress E (in_Contract incentive)) incentive\<rparr>"

fun subtract_allocations :: "dec_coin list \<Rightarrow> 'x inc_state \<Rightarrow> 'x inc_state" where
  "subtract_allocations [] s = s"
| "subtract_allocations (al # als) s =
     (let am = fst (GetAllocationMeter s (dc_Denom al))
      in subtract_allocations als
           (SetAllocationMeter \<lparr>dc_Denom = dc_Denom al, dc_Amount = dc_Amount am - dc_Amount al\<rparr> s))"

definition DeleteIncentiveAndUpdateAllocationMeters :: "eth_ops \<Rightarrow> incentive \<Rightarrow> 'x inc_state \<Rightarrow> 'x inc_state" where
  "DeleteIncentiveAndUpdateAllocationMeters E incentive s =
     subtract_allocations (in_Allocations incentive)
       (s\<lparr>n_incentives := kv_del (n_incentives s) (HexToAddress E (in_Contract incentive))\<rparr>)"

definition IsIncentiveRegistered :: "'x inc_state \<Rightarrow> addr \<Rightarrow> bool" where
  "IsIncentiveRegistered s contract = kv_has (n_incentives s) contract"

definition SetIncentiveTotalGas :: "eth_ops \<Rightarrow> incentive \<Rightarrow> 64 word \<Rightarrow> 'x inc_state \<Rightarrow> 'x inc_state" where
  "SetIncentiveTotalGas E incentive gas s = SetIncentive E (incentive\<lparr>in_TotalGas := gas\<rparr>) s"

subsection \<open>Gas meters\<close>

definition meter_of :: "eth_ops \<Rightarrow> bytes \<times> 64 word \<Rightarrow> gas_meter" where
  "meter_of E = (\<lambda>(key, gas).
     case SplitGasMeterKey E key of (contract, userAddress) \<Rightarrow> NewGasMeter E contract userAddress gas)"

definition GetIncentivesGasMeters :: "eth_ops \<Rightarrow> 'x inc_state \<Rightarrow> gas_meter list" where
  "GetIncentivesGasMeters E s = map (meter_of E) (n_gasMeters s)"

definition GetIncentiveGasMeters :: "eth_ops \<Rightarrow> 'x inc_state \<Rightarrow> addr \<Rightarrow> gas_meter list" where
  "GetIncentiveGasMeters E s contract = map (meter_of E) (filter (\<lambda>e. HasPrefix (fst e) contract) (n_gasMeters s))"

definition GetGasMeter :: "'x inc_state \<Rightarrow> addr \<Rightarrow> addr \<Rightarrow> 64 word option" where
  "GetGasMeter s contract participant = kv_get (n_gasMeters s) (contract @ participant)"

definition SetGasMeter :: "eth_ops \<Rightarrow> gas_meter \<Rightarrow> 'x inc_state \<Rightarrow> 'x inc_state" where
  "SetGasMeter E gm s =
     s\<lparr>n_gasMeters := kv_set (n_gasMeters s) (HexToAddress E (gm_Contract gm) @ HexToAddress E (gm_Participant gm)) (CumulativeGas gm)\<rparr>"

definition DeleteGasMeter :: "eth_ops \<Rightarrow> gas_meter \<Rightarrow> 'x inc_state \<Rightarrow> 'x inc_state" where
  "DeleteGasMeter E gm s =
     s\<lparr>n_gasMeters := kv_del (n_gasMeters s) (HexToAddress E (gm_Contract gm) @ HexToAddress E (gm_Participant gm))\<rparr>"

section \<open>The EVM hook\<close>

text \<open>The zero incentive, which \<open>GetIncentive\<close> returns where none is found.\<close>

definition no_incentive :: incentive where
  "no_incentive = \<lparr>in_Contract = [], in_Allocations = [], in_Epochs = 0, in_StartTime = zero_time, in_TotalGas = 0\<rparr>"

definition addGasToIncentive :: "eth_ops \<Rightarrow> addr \<Rightarrow> 64 word \<Rightarrow> 'x inc_state \<Rightarrow> 'x inc_state" where
  "addGasToIncentive E contract gasUsed s =
     (let incentive = (case GetIncentive s contract of None \<Rightarrow> no_incentive | Some i \<Rightarrow> i)
      in SetIncentive E (incentive\<lparr>in_TotalGas := in_TotalGas incentive + gasUsed\<rparr>) s)"

definition addGasToParticipant :: "eth_ops \<Rightarrow> addr \<Rightarrow> addr \<Rightarrow> 64 word \<Rightarrow> 'x inc_state \<Rightarrow> 'x inc_state" where
  "addGasToParticipant E contract participant gasUsed s =
     (let gasUsed = (case GetGasMeter s contract participant of None \<Rightarrow> gasUsed | Some previousGas \<Rightarrow> gasUsed + previousGas)
      in SetGasMeter E (NewGasMeter E contract participant gasUsed) s)"

definition inc_PostTxProcessing ::
  "'x inc_keepers \<Rightarrow> addr option \<Rightarrow> addr \<Rightarrow> 64 word \<Rightarrow> 'x inc_state \<Rightarrow> 'x inc_state" where
  "inc_PostTxProcessing K to participant gasUsed s =
     (if \<not> EnableIncentives (n_params s) then s else
      case to of
        None \<Rightarrow> s
      | Some contract \<Rightarrow>
          if \<not> IsIncentiveRegistered s contract then s else
          (case nk_EthContractAccount K (n_ext s) participant of
             None \<Rightarrow> s
           | Some isContract \<Rightarrow>
               if isContract then s else
               addGasToParticipant (nk_E K) contract participant gasUsed (addGasToIncentive (nk_E K) contract gasUsed s)))"

section \<open>Registering and cancelling\<close>

fun check_allocations :: "'x inc_keepers \<Rightarrow> 'x inc_state \<Rightarrow> dec_coin list \<Rightarrow> unit outcome" where
  "check_allocations K s [] = Ok ()"
| "check_allocations K s (al # als) =
     (if dc_Denom al \<noteq> EvmDenom (nk_V K) (n_ext s) \<and>
         GetBalance (nk_B K) (n_ext s) (GetModuleAddress (nk_A K) ''incentives'') (dc_Denom al) = 0
      then Err ErrInvalidCoins else
      if dc_Amount al > AllocationLimit (n_params s) then Err ErrInternalIncentive else
      check_allocations K s als)"

fun new_allocationMeters :: "'x inc_state \<Rightarrow> dec_coin list \<Rightarrow> dec_coin list outcome" where
  "new_allocationMeters s [] = Ok []"
| "new_allocationMeters s (al # als) =
     (let allocationSum = dc_Amount (fst (GetAllocationMeter s (dc_Denom al))) + dc_Amount al in
      if allocationSum > dec_one then Err ErrInternalIncentive else
      bindO (new_allocationMeters s als) (\<lambda>ams. Ok (\<lparr>dc_Denom = dc_Denom al, dc_Amount = allocationSum\<rparr> # ams)))"

definition RegisterIncentive ::
  "'x inc_keepers \<Rightarrow> time \<Rightarrow> addr \<Rightarrow> dec_coin list \<Rightarrow> 32 word \<Rightarrow> ('x inc_state, incentive) cmd" where
  "RegisterIncentive K blockTime contract allocations epochs s =
     (if \<not> EnableIncentives (n_params s) then (Err ErrInternalIncentive, s) else
      if evm_IsContract (nk_V K) (n_ext s) contract \<noteq> Some True then (Err ErrInternalIncentive, s) else
      if IsIncentiveRegistered s contract then (Err ErrInternalIncentive, s) else
      case bindO (check_allocations K s allocations) (\<lambda>_. new_allocationMeters s allocations) of
        Panic \<Rightarrow> (Panic, s)
      | Err e \<Rightarrow> (Err e, s)
      | Ok allocationMeters \<Rightarrow>
          let incentive = (NewIncentive (nk_E K) contract allocations epochs)\<lparr>in_StartTime := blockTime\<rparr> in
          (Ok incentive, fold SetAllocationMeter allocationMeters (SetIncentive (nk_E K) incentive s)))"

definition CancelIncentive :: "'x inc_keepers \<Rightarrow> addr \<Rightarrow> ('x inc_state, unit) cmd" where
  "CancelIncentive K contract s =
     (if \<not> EnableIncentives (n_params s) then (Err ErrInternalIncentive, s) else
      case GetIncentive s contract of
        None \<Rightarrow> (Err ErrInvalidAddress, s)
      | Some incentive \<Rightarrow>
          let s = DeleteIncentiveAndUpdateAllocationMeters (nk_E K) incentive s in
          (Ok (), fold (DeleteGasMeter (nk_E K)) (GetIncentiveGasMeters (nk_E K) s contract) s))"

fun inc_proposal_handler :: "'x inc_keepers \<Rightarrow> time \<Rightarrow> inc_proposal \<Rightarrow> ('x inc_state, unit) cmd" where
  "inc_proposal_handler K blockTime (RegisterIncentiveProposal _ _ contract allocations epochs) =
     bindS (RegisterIncentive K blockTime (HexToAddress (nk_E K) contract) allocations epochs) (\<lambda>_. ret ())"
| "inc_proposal_handler K blockTime (CancelIncentiveProposal _ _ contract) =
     CancelIncentive K (HexToAddress (nk_E K) contract)"

section \<open>Distribution\<close>

text \<open>The map \<open>denomBalances\<close>; \<open>IterateAccountBalances\<close> visits the coins that \<open>GetAllBalances\<close> lists.\<close>

definition denom_balances :: "coins \<Rightarrow> denom \<rightharpoonup> int" where
  "denom_balances escrow = foldl (\<lambda>m k. m(Denom k \<mapsto> Amt k)) Map.empty escrow"

definition add_allocation :: "'x inc_keepers \<Rightarrow> (denom \<rightharpoonup> int) \<Rightarrow> coins \<Rightarrow> dec_coin \<Rightarrow> coins" where
  "add_allocation K denomBalances coins al =
     (case denomBalances (dc_Denom al) of
        None \<Rightarrow> coins
      | Some balance \<Rightarrow>
          let coinAllocated = dec_Mul (nk_F K) (NewDec balance) (dc_Amount al);
              amount = dec_TruncateInt (nk_F K) coinAllocated in
          if \<not> amount > 0 then coins else coins_Add (nk_C K) coins [\<lparr>Denom = dc_Denom al, Amt = amount\<rparr>])"

definition rewardAllocations ::
  "'x inc_keepers \<Rightarrow> 'x inc_state \<Rightarrow> ((addr \<rightharpoonup> coins) \<times> coins) outcome" where
  "rewardAllocations K s =
     (let escrow = GetAllBalances (nk_B K) (n_ext s) (GetModuleAddress (nk_A K) ''incentives'');
          (allocations, rewards) =
            foldl (\<lambda>(m, rewards) incentive.
                     let coins = foldl (add_allocation K (denom_balances escrow)) [] (in_Allocations incentive)
                     in (m(HexToAddress (nk_E K) (in_Contract incentive) \<mapsto> coins), coins_Add (nk_C K) rewards coins))
                  (Map.empty, []) (GetAllIncentives s) in
      if coins_IsAnyGT (nk_C K) rewards escrow then Err ErrInsufficientFunds else Ok (allocations, rewards))"

definition add_reward ::
  "'x inc_keepers \<Rightarrow> denom \<Rightarrow> dec \<Rightarrow> coins \<Rightarrow> dec \<Rightarrow> dec \<Rightarrow> coins \<Rightarrow> dec_coin \<Rightarrow> coins" where
  "add_reward K mintDenom rewardScaler contractAllocation cumulativeGas gasRatio coins allocation =
     (let coinAllocated = coins_AmountOf (nk_C K) contractAllocation (dc_Denom allocation);
          reward = gasRatio * coinAllocated in
      if \<not> reward > 0 then coins else
      let reward = (if mintDenom = dc_Denom allocation then min reward (dec_Mul (nk_F K) cumulativeGas rewardScaler) else reward)
      in coins_Add (nk_C K) coins [\<lparr>Denom = dc_Denom allocation, Amt = dec_TruncateInt (nk_F K) reward\<rparr>])"

definition participant_reward ::
  "'x inc_keepers \<Rightarrow> denom \<Rightarrow> dec \<Rightarrow> incentive \<Rightarrow> coins \<Rightarrow> 64 word \<Rightarrow> coins option" where
  "participant_reward K mintDenom rewardScaler incentive contractAllocation gas =
     (let cumulativeGas = NewDec (uint gas) in
      case dec_Quo (nk_F K) cumulativeGas (NewDec (uint (in_TotalGas incentive))) of
        None \<Rightarrow> None
      | Some gasRatio \<Rightarrow>
          Some (foldl (add_reward K mintDenom rewardScaler contractAllocation cumulativeGas gasRatio) [] (in_Allocations incentive)))"

fun reward_meters ::
  "'x inc_keepers \<Rightarrow> denom \<Rightarrow> dec \<Rightarrow> incentive \<Rightarrow> coins \<Rightarrow> gas_meter list \<Rightarrow> coins \<Rightarrow> int \<Rightarrow> ('x inc_state, coins \<times> int) cmd" where
  "reward_meters K mintDenom rewardScaler incentive contractAllocation [] rewards count s = (Ok (rewards, count), s)"
| "reward_meters K mintDenom rewardScaler incentive contractAllocation (gm # gms) rewards count s =
     (case participant_reward K mintDenom rewardScaler incentive contractAllocation (CumulativeGas gm) of
        None \<Rightarrow> (Panic, s)
      | Some coins \<Rightarrow>
          let rewards = coins_Add (nk_C K) rewards coins;
              participant = HexToAddress (nk_E K) (gm_Participant gm) in
          (case SendCoinsFromModuleToAccount (nk_B K) ''incentives'' participant coins (n_ext s) of
             (Panic, x) \<Rightarrow> (Panic, s\<lparr>n_ext := x\<rparr>)
           | (Err _, x) \<Rightarrow> (Ok (rewards, count), s\<lparr>n_ext := x\<rparr>)
           | (Ok _, x) \<Rightarrow>
               reward_meters K mintDenom rewardScaler incentive contractAllocation gms rewards (count + 1)
                 (DeleteGasMeter (nk_E K) gm (s\<lparr>n_ext := x\<rparr>))))"

definition rewardParticipants ::
  "'x inc_keepers \<Rightarrow> incentive \<Rightarrow> (addr \<rightharpoonup> coins) \<Rightarrow> ('x inc_state, coins \<times> int) cmd" where
  "rewardParticipants K incentive coinsAllocated s =
     (let contract = HexToAddress (nk_E K) (in_Contract incentive) in
      case coinsAllocated contract of
        None \<Rightarrow> (Ok ([], 0), s)
      | Some contractAllocation \<Rightarrow>
          if in_TotalGas incentive = 0 then (Ok ([], 0), s) else
          reward_meters K (EvmDenom (nk_V K) (n_ext s)) (RewardScaler (n_params s)) incentive contractAllocation
            (GetIncentiveGasMeters (nk_E K) s contract) [] 0 s)"

definition distribute_incentive ::
  "'x inc_keepers \<Rightarrow> (addr \<rightharpoonup> coins) \<Rightarrow> incentive \<Rightarrow> ('x inc_state, unit) cmd" where
  "distribute_incentive K allocations incentive =
     bindS (rewardParticipants K incentive allocations) (\<lambda>_ s.
       let incentive = incentive\<lparr>in_Epochs := in_Epochs incentive - 1\<rparr> in
       (Ok (),
        if IsActive incentive then SetIncentiveTotalGas (nk_E K) incentive 0 (SetIncentive (nk_E K) incentive s)
        else DeleteIncentiveAndUpdateAllocationMeters (nk_E K) incentive s))"

fun distribute_incentives ::
  "'x inc_keepers \<Rightarrow> (addr \<rightharpoonup> coins) \<Rightarrow> incentive list \<Rightarrow> ('x inc_state, unit) cmd" where
  "distribute_incentives K allocations [] = ret ()"
| "distribute_incentives K allocations (i # is) =
     bindS (distribute_incentive K allocations i) (\<lambda>_. distribute_incentives K allocations is)"

definition DistributeRewards :: "'x inc_keepers \<Rightarrow> ('x inc_state, unit) cmd" where
  "DistributeRewards K s =
     (case rewardAllocations K s of
        Panic \<Rightarrow> (Panic, s)
      | Err e \<Rightarrow> (Err e, s)
      | Ok (allocations, _) \<Rightarrow> distribute_incentives K allocations (GetAllIncentives s) s)"

definition inc_AfterEpochEnd :: "'x inc_keepers \<Rightarrow> string \<Rightarrow> int \<Rightarrow> ('x inc_state, unit) cmd" where
  "inc_AfterEpochEnd K epochIdentifier epochNumber s =
     (if epochIdentifier \<noteq> IncentivesEpochIdentifier (n_params s) then (Ok (), s) else
      if \<not> EnableIncentives (n_params s) then (Ok (), s) else
      case DistributeRewards K s of
        (Err _, t) \<Rightarrow> (Panic, t)
      | r \<Rightarrow> r)"

definition inc_BeforeEpochStart :: "string \<Rightarrow> int \<Rightarrow> ('x inc_state, unit) cmd" where
  "inc_BeforeEpochStart epochIdentifier epochNumber = ret ()"

section \<open>Genesis\<close>

record inc_genesis =
  ng_Params :: inc_params
  ng_Incentives :: "incentive list"
  ng_GasMeters :: "gas_meter list"

definition inc_DefaultGenesisState :: inc_genesis where
  "inc_DefaultGenesisState = \<lparr>ng_Params = inc_DefaultParams, ng_Incentives = [], ng_GasMeters = []\<rparr>"

fun genesis_incentives_Validate :: "'x inc_keepers \<Rightarrow> string set \<Rightarrow> incentive list \<Rightarrow> unit outcome" where
  "genesis_incentives_Validate K seen [] = Ok ()"
| "genesis_incentives_Validate K seen (i # is) =
     (if in_Contract i \<in> seen then Err (ErrPlain ''contract duplicated on genesis'') else
      bindO (in_Validate K i) (\<lambda>_. genesis_incentives_Validate K (insert (in_Contract i) seen) is))"

fun genesis_meters_Validate :: "eth_ops \<Rightarrow> string set \<Rightarrow> gas_meter list \<Rightarrow> unit outcome" where
  "genesis_meters_Validate E seen [] = Ok ()"
| "genesis_meters_Validate E seen (gm # gms) =
     (if gm_Contract gm @ gm_Participant gm \<in> seen then Err (ErrPlain ''gas meter duplicated on genesis'') else
      bindO (gm_Validate E gm) (\<lambda>_. genesis_meters_Validate E (insert (gm_Contract gm @ gm_Participant gm) seen) gms))"

definition inc_genesis_Validate :: "'x inc_keepers \<Rightarrow> inc_genesis \<Rightarrow> unit outcome" where
  "inc_genesis_Validate K gs =
     bindO (genesis_incentives_Validate K {} (ng_Incentives gs)) (\<lambda>_.
     bindO (genesis_meters_Validate (nk_E K) {} (ng_GasMeters gs)) (\<lambda>_.
     inc_params_Validate (ng_Params gs)))"

definition inc_SetParams :: "inc_params \<Rightarrow> 'x inc_state \<Rightarrow> 'x inc_state" where
  "inc_SetParams params s = s\<lparr>n_params := params\<rparr>"

text \<open>
  A denomination that the map \<open>allocationMeters\<close> does not have yet reads as the zero value of
  \<open>sdk.Dec\<close>, whose \<open>big.Int\<close> is nil: adding to it panics.  Go visits the map in no particular order,
  which makes no difference to the meters that are set.
\<close>

fun build_allocationMeters :: "dec_coin list \<Rightarrow> dec kv \<Rightarrow> dec kv outcome" where
  "build_allocationMeters [] m = Ok m"
| "build_allocationMeters (al # als) m =
     (case kv_get m (dc_Denom al) of
        None \<Rightarrow> Panic
      | Some amount \<Rightarrow> build_allocationMeters als (kv_set m (dc_Denom al) (amount + dc_Amount al)))"

fun init_incentives :: "eth_ops \<Rightarrow> incentive list \<Rightarrow> dec kv \<Rightarrow> ('x inc_state, dec kv) cmd" where
  "init_incentives E [] m s = (Ok m, s)"
| "init_incentives E (i # is) m s =
     (let s = SetIncentive E i s in
      case build_allocationMeters (in_Allocations i) m of
        Panic \<Rightarrow> (Panic, s)
      | Err e \<Rightarrow> (Err e, s)
      | Ok m \<Rightarrow> init_incentives E is m s)"

definition inc_InitGenesis :: "'x inc_keepers \<Rightarrow> inc_genesis \<Rightarrow> ('x inc_state, unit) cmd" where
  "inc_InitGenesis K data s =
     (let s = inc_SetParams (ng_Params data) s in
      if \<not> nk_ModuleAccount K (n_ext s) ''incentives'' then (Panic, s) else
      bindS (init_incentives (nk_E K) (ng_Incentives data) []) (\<lambda>allocationMeters s.
        let s = fold SetAllocationMeter (map (\<lambda>(denom, amount). \<lparr>dc_Denom = denom, dc_Amount = amount\<rparr>) allocationMeters) s
        in (Ok (), fold (SetGasMeter (nk_E K)) (ng_GasMeters data) s)) s)"

definition inc_ExportGenesis :: "'x inc_keepers \<Rightarrow> 'x inc_state \<Rightarrow> inc_genesis" where
  "inc_ExportGenesis K s =
     \<lparr>ng_Params = n_params s, ng_Incentives = GetAllIncentives s, ng_GasMeters = GetIncentivesGasMeters (nk_E K) s\<rparr>"

section \<open>Queries\<close>

definition Incentive_query :: "eth_ops \<Rightarrow> 'x inc_state \<Rightarrow> string option \<Rightarrow> incentive outcome" where
  "Incentive_query E s req =
     (case req of
        None \<Rightarrow> Err ErrInvalidArgument
      | Some contract \<Rightarrow>
          if blank contract then Err ErrInvalidArgument else
          if \<not> ValidateAddress E contract then Err ErrInvalidArgument else
          (case GetIncentive s (HexToAddress E contract) of None \<Rightarrow> Err ErrNotFound | Some i \<Rightarrow> Ok i))"

definition GasMeter_query :: "eth_ops \<Rightarrow> 'x inc_state \<Rightarrow> (string \<times> string) option \<Rightarrow> 64 word outcome" where
  "GasMeter_query E s req =
     (case req of
        None \<Rightarrow> Err ErrInvalidArgument
      | Some (contract, participant) \<Rightarrow>
          if blank contract then Err ErrInvalidArgument else
          if \<not> ValidateAddress E contract then Err ErrInvalidArgument else
          if blank participant then Err ErrInvalidArgument else
          if \<not> ValidateAddress E participant then Err ErrInvalidArgument else
          (case GetGasMeter s (HexToAddress E contract) (HexToAddress E participant) of
             None \<Rightarrow> Err ErrNotFound
           | Some gm \<Rightarrow> Ok gm))"

definition AllocationMeter_query :: "'x inc_state \<Rightarrow> denom option \<Rightarrow> dec_coin outcome" where
  "AllocationMeter_query s req =
     (case req of
        None \<Rightarrow> Err ErrInvalidArgument
      | Some denom \<Rightarrow> (case GetAllocationMeter s denom of (am, found) \<Rightarrow> if found then Ok am else Err ErrNotFound))"

end
