(* ===== verification/Incentives_Rewards.thy ===== *)
theory Incentives_Rewards
  imports Incentives
begin

text \<open>
  \<open>x/incentives\<close>: the allocation meters add up the registered allocations and never pass 100 percent,
  so the end of an epoch does not panic; what the participants of an incentive are paid; and the
  genesis import.
\<close>

section \<open>The allocation meters\<close>

definition alloc_of :: "denom \<Rightarrow> dec_coin list \<Rightarrow> dec" where
  "alloc_of d als = sum_list (map dc_Amount (filter (\<lambda>al. dc_Denom al = d) als))"

definition allocs_ok :: "coins_ops \<Rightarrow> dec_coin list \<Rightarrow> bool" where
  "allocs_ok C als \<longleftrightarrow> distinct (map dc_Denom als) \<and> (\<forall>al \<in> set als. coins_ValidDenom C (dc_Denom al) \<and> 0 < dc_Amount al)"

definition meter :: "'x inc_state \<Rightarrow> denom \<Rightarrow> dec" where
  "meter s d = dc_Amount (fst (GetAllocationMeter s d))"

text \<open>
  Incentives are stored under their contract with positive allocations; for every denomination the
  allocation meter is the sum of the allocations of all incentives, and at most 100 percent.
\<close>

definition inc_ok :: "'x inc_keepers \<Rightarrow> 'x inc_state \<Rightarrow> bool" where
  "inc_ok K s \<longleftrightarrow> kv_ok (n_incentives s) \<and>
     (\<forall>k i. kv_get (n_incentives s) k = Some i \<longrightarrow>
        HexToAddress (nk_E K) (in_Contract i) = k \<and> allocs_ok (nk_C K) (in_Allocations i)) \<and>
     (\<forall>d. meter s d = kv_sum (\<lambda>i. alloc_of d (in_Allocations i)) (n_incentives s)) \<and>
     (\<forall>d. kv_sum (\<lambda>i. alloc_of d (in_Allocations i)) (n_incentives s) \<le> dec_one)"

lemma inc_okD:
  assumes "inc_ok K s"
  shows "kv_ok (n_incentives s)"
    and "kv_get (n_incentives s) k = Some i \<Longrightarrow> HexToAddress (nk_E K) (in_Contract i) = k"
    and "kv_get (n_incentives s) k = Some i \<Longrightarrow> allocs_ok (nk_C K) (in_Allocations i)"
    and "meter s d = kv_sum (\<lambda>i. alloc_of d (in_Allocations i)) (n_incentives s)"
    and "meter s d \<le> dec_one"
  using assms by (auto simp: inc_ok_def)

lemma meter_alt: "meter s d = (case kv_get (n_allocationMeters s) d of None \<Rightarrow> 0 | Some a \<Rightarrow> a)"
  by (simp add: meter_def GetAllocationMeter_def split: option.splits)

lemma SetAllocationMeter_simps [simp]:
  "meter (SetAllocationMeter am s) d = (if d = dc_Denom am then dc_Amount am else meter s d)"
  "n_incentives (SetAllocationMeter am s) = n_incentives s" "n_gasMeters (SetAllocationMeter am s) = n_gasMeters s"
  "n_params (SetAllocationMeter am s) = n_params s" "n_ext (SetAllocationMeter am s) = n_ext s"
  by (auto simp: SetAllocationMeter_def meter_alt kv_simps)

lemma meter_cong: "n_allocationMeters t = n_allocationMeters s \<Longrightarrow> meter t d = meter s d"
  by (simp add: meter_alt)

lemma alloc_of_simps [simp]:
  "alloc_of d [] = 0" "alloc_of d (al # als) = (if dc_Denom al = d then dc_Amount al else 0) + alloc_of d als"
  by (simp_all add: alloc_of_def)

lemma alloc_of_out: "d \<notin> dc_Denom ` set als \<Longrightarrow> alloc_of d als = 0"
  by (induction als) auto

lemma alloc_of_nonneg: "allocs_ok C als \<Longrightarrow> 0 \<le> alloc_of d als"
  unfolding alloc_of_def by (rule sum_list_nonneg) (auto simp: allocs_ok_def order.strict_implies_order)

lemma subtract_allocations_simps [simp]:
  "n_incentives (subtract_allocations als s) = n_incentives s" "n_gasMeters (subtract_allocations als s) = n_gasMeters s"
  "n_params (subtract_allocations als s) = n_params s" "n_ext (subtract_allocations als s) = n_ext s"
  "meter (subtract_allocations als s) d = meter s d - alloc_of d als"
  by (induction als s rule: subtract_allocations.induct) (auto simp: Let_def meter_def [symmetric])

lemma new_allocationMeters_denoms:
  assumes "new_allocationMeters s als = Ok ams" shows "dc_Denom ` set ams = dc_Denom ` set als"
proof -
  have "map dc_Denom ams = map dc_Denom als"
    using assms by (induction als arbitrary: ams) (auto simp: Let_def bindO_Ok_iff split: if_splits)
  then show ?thesis by (metis list.set_map)
qed

lemma new_allocationMeters_bound: "new_allocationMeters s als = Ok ams \<Longrightarrow> am \<in> set ams \<Longrightarrow> dc_Amount am \<le> dec_one"
  by (induction als arbitrary: ams) (auto simp: Let_def bindO_Ok_iff split: if_splits)

lemma fold_SetAllocationMeter_simps [simp]:
  "n_incentives (fold SetAllocationMeter ams s) = n_incentives s" "n_gasMeters (fold SetAllocationMeter ams s) = n_gasMeters s"
  "n_params (fold SetAllocationMeter ams s) = n_params s" "n_ext (fold SetAllocationMeter ams s) = n_ext s"
  by (induction ams arbitrary: s) auto

lemma fold_SetAllocationMeter_out: "d \<notin> dc_Denom ` set ams \<Longrightarrow> meter (fold SetAllocationMeter ams s) d = meter s d"
  by (induction ams arbitrary: s) auto

lemma new_allocationMeters_meter:
  assumes "new_allocationMeters s als = Ok ams" and "distinct (map dc_Denom als)" and "\<And>d. meter t d = meter s d"
  shows "meter (fold SetAllocationMeter ams t) d = meter s d + alloc_of d als \<and>
         meter (fold SetAllocationMeter ams t) d \<le> max (meter s d) dec_one"
  using assms
proof (induction als arbitrary: ams t)
  case (Cons al als)
  let ?am = "\<lparr>dc_Denom = dc_Denom al, dc_Amount = meter s (dc_Denom al) + dc_Amount al\<rparr>"
  from Cons.prems(1) obtain bms where bms: "new_allocationMeters s als = Ok bms" and ams: "ams = ?am # bms"
    and le: "meter s (dc_Denom al) + dc_Amount al \<le> dec_one"
    by (auto simp: Let_def bindO_Ok_iff meter_def split: if_splits)
  have new: "dc_Denom al \<notin> dc_Denom ` set als" and dist: "distinct (map dc_Denom als)" using Cons.prems(2) by auto
  show ?case
  proof (cases "d = dc_Denom al")
    case True
    have "meter (fold SetAllocationMeter bms (SetAllocationMeter ?am t)) d = meter (SetAllocationMeter ?am t) d"
      by (rule fold_SetAllocationMeter_out) (use new_allocationMeters_denoms [OF bms] new True in simp)
    then show ?thesis using True le alloc_of_out [OF new] by (simp add: ams)
  next
    case False
    have "meter (fold SetAllocationMeter bms (SetAllocationMeter ?am t)) d = meter (fold SetAllocationMeter bms t) d"
    proof -
      have "meter (fold SetAllocationMeter cs u) d = meter (fold SetAllocationMeter cs v) d"
        if "meter u d = meter v d" for cs and u v :: "'b inc_state"
        using that by (induction cs arbitrary: u v) auto
      from this [of "SetAllocationMeter ?am t" t bms] show ?thesis using False by simp
    qed
    then show ?thesis using Cons.IH [OF bms dist Cons.prems(3)] False by (simp add: ams)
  qed
qed simp

section \<open>Operations that keep the meters\<close>

lemma SetIncentive_simps [simp]:
  "n_allocationMeters (SetIncentive E i s) = n_allocationMeters s" "n_gasMeters (SetIncentive E i s) = n_gasMeters s"
  "n_params (SetIncentive E i s) = n_params s" "n_ext (SetIncentive E i s) = n_ext s"
  "n_incentives (SetIncentive E i s) = kv_set (n_incentives s) (HexToAddress E (in_Contract i)) i"
  "meter (SetIncentive E i s) d = meter s d"
  by (simp_all add: SetIncentive_def meter_alt)

lemma inc_ok_cong:
  assumes "n_incentives t = n_incentives s" and "n_allocationMeters t = n_allocationMeters s"
  shows "inc_ok K t = inc_ok K s"
  using assms meter_cong [OF assms(2)] by (simp add: inc_ok_def)

text \<open>Gas and epochs of a stored incentive may change freely.\<close>

lemma inc_ok_SetIncentive:
  assumes ok: "inc_ok K s" and old: "kv_get (n_incentives s) k = Some i"
    and same: "in_Contract j = in_Contract i" "in_Allocations j = in_Allocations i"
  shows "inc_ok K (SetIncentive (nk_E K) j s)"
proof -
  have k: "HexToAddress (nk_E K) (in_Contract j) = k" using inc_okD(2) [OF ok old] same by simp
  show ?thesis
    unfolding inc_ok_def
    using ok inc_okD(1) [OF ok] old same inc_okD(2,3) [OF ok old]
    by (auto simp: inc_ok_def kv_simps kv_ok_set kv_sum_set k split: if_splits)
qed

lemma inc_ok_Delete:
  assumes ok: "inc_ok K s" and old: "kv_get (n_incentives s) k = Some i"
    and same: "in_Contract j = in_Contract i" "in_Allocations j = in_Allocations i"
  shows "inc_ok K (DeleteIncentiveAndUpdateAllocationMeters (nk_E K) j s)"
proof -
  have k: "HexToAddress (nk_E K) (in_Contract j) = k" using inc_okD(2) [OF ok old] same by simp
  have m: "meter (s\<lparr>n_incentives := x\<rparr>) d = meter s d" for x d by (rule meter_cong) simp
  have "kv_sum (\<lambda>i. alloc_of d (in_Allocations i)) (n_incentives s) - alloc_of d (in_Allocations i) \<le> dec_one" for d
    using alloc_of_nonneg [OF inc_okD(3) [OF ok old], of d] inc_okD(4,5) [OF ok, of d] by simp
  then show ?thesis
    unfolding inc_ok_def
    using ok inc_okD(1) [OF ok] old same
    by (auto simp: inc_ok_def DeleteIncentiveAndUpdateAllocationMeters_def kv_simps kv_ok_del kv_sum_del k m
        split: if_splits)
qed

text \<open>
  What the module relies on: the SDK's keepers and decimals, ethermint's addresses, that the module
  account exists, and that a valid \<open>DecCoins\<close> has valid denominations, each once, with positive amounts.
\<close>

locale inc_laws = keeper_laws "nk_C K" "nk_A K" "nk_B K" D reg + dec_laws "nk_F K" + eth_laws "nk_E K"
  for K :: "'x inc_keepers" and D :: "'x distr_ops" and reg :: "string set" +
  assumes module_registered: "''incentives'' \<in> reg"
    and DecCoinsValidate: "nk_DecCoinsValidate K als \<Longrightarrow> allocs_ok (nk_C K) als"
begin

lemma RegisterIncentive_ok:
  assumes ok: "inc_ok K s" and run: "RegisterIncentive K t c als n s = (Ok i, s')"
    and valid: "allocs_ok (nk_C K) als" and len: "length c = 20"
  shows "inc_ok K s'"
proof -
  let ?i = "(NewIncentive (nk_E K) c als n)\<lparr>in_StartTime := t\<rparr>"
  from run obtain ams where ams: "new_allocationMeters s als = Ok ams" and new: "kv_get (n_incentives s) c = None"
    and s': "s' = fold SetAllocationMeter ams (SetIncentive (nk_E K) ?i s)"
    by (auto simp: RegisterIncentive_def Let_def bindO_Ok_iff IsIncentiveRegistered_def kv_has_def split: if_splits outcome.splits)
  have c: "HexToAddress (nk_E K) (in_Contract ?i) = c" "in_Allocations ?i = als" using Hex_inv [OF len] by (simp_all add: NewIncentive_def)
  have c2: "HexToAddress (nk_E K) (in_Contract (NewIncentive (nk_E K) c als n)) = c" using Hex_inv [OF len] by (simp add: NewIncentive_def)
  have meter: "meter s' d = meter s d + alloc_of d als \<and> meter s' d \<le> max (meter s d) dec_one" for d
    unfolding s' using new_allocationMeters_meter [OF ams, of "SetIncentive (nk_E K) ?i s" d] valid by (simp add: allocs_ok_def)
  have incs: "n_incentives s' = kv_set (n_incentives s) c ?i" by (simp add: s' c2)
  have sums: "kv_sum (\<lambda>i. alloc_of d (in_Allocations i)) (n_incentives s') = meter s' d" for d
    using kv_sum_set [OF inc_okD(1) [OF ok], of "\<lambda>i. alloc_of d (in_Allocations i)" c ?i] new meter [of d] inc_okD(4) [OF ok, of d]
    by (simp add: incs c)
  have "meter s' d \<le> dec_one" for d using meter [of d] inc_okD(5) [OF ok, of d] by simp
  then show ?thesis
    using ok valid sums c by (auto simp: inc_ok_def incs kv_simps kv_ok_set split: if_splits)
qed

lemma fold_DeleteGasMeter_simps [simp]:
  "n_incentives (fold (DeleteGasMeter E) gms s) = n_incentives s"
  "n_allocationMeters (fold (DeleteGasMeter E) gms s) = n_allocationMeters s"
  "n_params (fold (DeleteGasMeter E) gms s) = n_params s" "n_ext (fold (DeleteGasMeter E) gms s) = n_ext s"
  by (induction gms arbitrary: s) (auto simp: DeleteGasMeter_def)

lemma CancelIncentive_ok:
  assumes ok: "inc_ok K s" and run: "CancelIncentive K c s = (Ok u, s')"
  shows "inc_ok K s'"
proof -
  from run obtain i where i: "kv_get (n_incentives s) c = Some i"
    and s': "\<exists>gms. s' = fold (DeleteGasMeter (nk_E K)) gms (DeleteIncentiveAndUpdateAllocationMeters (nk_E K) i s)"
    by (auto simp: CancelIncentive_def Let_def GetIncentive_def split: if_splits option.splits)
  have "inc_ok K (DeleteIncentiveAndUpdateAllocationMeters (nk_E K) i s)" by (rule inc_ok_Delete [OF ok i]) simp_all
  moreover obtain gms where "s' = fold (DeleteGasMeter (nk_E K)) gms (DeleteIncentiveAndUpdateAllocationMeters (nk_E K) i s)"
    using s' by blast
  ultimately show ?thesis by (simp add: inc_ok_cong [of "fold (DeleteGasMeter (nk_E K)) gms _"])
qed

lemma PostTxProcessing_ok:
  assumes ok: "inc_ok K s" shows "inc_ok K (inc_PostTxProcessing K to p gas s)"
proof (cases "inc_PostTxProcessing K to p gas s = s")
  case False
  then obtain c i where i: "kv_get (n_incentives s) c = Some i"
    and s': "inc_PostTxProcessing K to p gas s =
      addGasToParticipant (nk_E K) c p gas (SetIncentive (nk_E K) (i\<lparr>in_TotalGas := in_TotalGas i + gas\<rparr>) s)"
    by (auto simp: inc_PostTxProcessing_def IsIncentiveRegistered_def kv_has_def addGasToIncentive_def GetIncentive_def Let_def
        split: if_splits option.splits)
  have "inc_ok K (SetIncentive (nk_E K) (i\<lparr>in_TotalGas := in_TotalGas i + gas\<rparr>) s)"
    by (rule inc_ok_SetIncentive [OF ok i]) simp_all
  then show ?thesis unfolding s' by (subst inc_ok_cong) (simp_all add: addGasToParticipant_def SetGasMeter_def Let_def)
qed (use ok in simp)

section \<open>The end of an epoch\<close>

lemma denom_balances_Some:
  assumes "valid escrow" and "denom_balances escrow d = Some b" shows "b = amt escrow d"
proof -
  have "foldl (\<lambda>m k. m(Denom k \<mapsto> Amt k)) m ks d = Some b \<Longrightarrow> m d = Some b \<or> (\<exists>k \<in> set ks. Denom k = d \<and> Amt k = b)" for m ks
  proof (induction ks arbitrary: m)
    case (Cons k ks)
    from Cons.IH [of "m(Denom k \<mapsto> Amt k)"] Cons.prems show ?case by (auto split: if_splits)
  qed simp
  then have "\<exists>k \<in> set escrow. Denom k = d \<and> Amt k = b" using assms(2) by (fastforce simp: denom_balances_def)
  then show ?thesis using amount_mem [OF assms(1)] by auto
qed

abbreviation "allotted escrow als \<equiv> foldl (add_allocation K (denom_balances escrow)) [] als"

lemma add_allocation_bound:
  assumes escrow: "valid escrow" and "valid coins" and al: "coins_ValidDenom (nk_C K) (dc_Denom al)" "0 < dc_Amount al"
  shows "valid (add_allocation K (denom_balances escrow) coins al)"
    and "amt coins d \<le> amt (add_allocation K (denom_balances escrow) coins al) d"
    and "dec_one * amt (add_allocation K (denom_balances escrow) coins al) d \<le>
         dec_one * amt coins d + amt escrow d * (if dc_Denom al = d then dc_Amount al else 0)"
proof -
  let ?d = "dc_Denom al" and ?n = "amt escrow (dc_Denom al) * dc_Amount al div dec_one"
  have nonneg: "0 \<le> amt escrow d" for d by (rule amount_nonneg [OF escrow])
  have cases: "add_allocation K (denom_balances escrow) coins al = coins \<or>
      (0 < ?n \<and> add_allocation K (denom_balances escrow) coins al = coins_Add (nk_C K) coins [oneCoin ?d ?n])"
    using denom_balances_Some [OF escrow] nonneg [of ?d] al(2)
    by (auto simp: add_allocation_def Let_def Mul_NewDec Truncate_floor split: option.splits)
  have "dec_one * ?n \<le> amt escrow ?d * dc_Amount al"
    using mult_div_mod_eq [of dec_one "amt escrow ?d * dc_Amount al"] pos_mod_sign [OF dec_one_pos(1), of "amt escrow ?d * dc_Amount al"]
    by linarith
  moreover have "0 \<le> amt escrow d * (if dc_Denom al = d then dc_Amount al else 0)" using nonneg al by simp
  ultimately show "dec_one * amt (add_allocation K (denom_balances escrow) coins al) d \<le>
      dec_one * amt coins d + amt escrow d * (if dc_Denom al = d then dc_Amount al else 0)"
    using cases Add_one_amount [OF assms(2) al(1), of ?n d] by (auto simp: distrib_left)
  show "valid (add_allocation K (denom_balances escrow) coins al)"
    using cases Add_one_valid [OF assms(2) al(1), of ?n] assms(2) by auto
  show "amt coins d \<le> amt (add_allocation K (denom_balances escrow) coins al) d"
    using cases Add_one_amount [OF assms(2) al(1), of ?n d] by auto
qed

lemma allotted_bound:
  assumes escrow: "valid escrow" and als: "allocs_ok (nk_C K) als"
  shows "valid (allotted escrow als) \<and> dec_one * amt (allotted escrow als) d \<le> amt escrow d * alloc_of d als"
proof -
  have "valid (foldl (add_allocation K (denom_balances escrow)) coins als) \<and>
      dec_one * amt (foldl (add_allocation K (denom_balances escrow)) coins als) d \<le> dec_one * amt coins d + amt escrow d * alloc_of d als"
    if "valid coins" for coins
    using that als
  proof (induction als arbitrary: coins)
    case (Cons al als)
    have al: "coins_ValidDenom (nk_C K) (dc_Denom al)" "0 < dc_Amount al" "allocs_ok (nk_C K) als"
      using Cons.prems(2) by (auto simp: allocs_ok_def)
    note b = add_allocation_bound [OF escrow Cons.prems(1) al(1,2)]
    from Cons.IH [OF b(1) al(3)] b(3) [of d] show ?case by (auto simp: distrib_left)
  qed simp
  from this [OF valid_empty] show ?thesis by (simp add: amount_empty)
qed

abbreviation "holdings x \<equiv> GetAllBalances (nk_B K) x (GetModuleAddress (nk_A K) ''incentives'')"

text \<open>The allotments of the incentives, as a map and in total.\<close>

definition allot_step :: "coins \<Rightarrow> (addr \<rightharpoonup> coins) \<times> coins \<Rightarrow> incentive \<Rightarrow> (addr \<rightharpoonup> coins) \<times> coins" where
  "allot_step escrow = (\<lambda>(m, rewards) i.
     let coins = allotted escrow (in_Allocations i)
     in (m(HexToAddress (nk_E K) (in_Contract i) \<mapsto> coins), coins_Add (nk_C K) rewards coins))"

lemma allot_step_pair:
  "allot_step escrow (m, rewards) i =
     (m(HexToAddress (nk_E K) (in_Contract i) \<mapsto> allotted escrow (in_Allocations i)),
      coins_Add (nk_C K) rewards (allotted escrow (in_Allocations i)))"
  by (simp add: allot_step_def Let_def)

lemma rewardAllocations_alt:
  "rewardAllocations K s =
     (let (allocations, rewards) = foldl (allot_step (holdings (n_ext s))) (Map.empty, []) (GetAllIncentives s)
      in if coins_IsAnyGT (nk_C K) rewards (holdings (n_ext s)) then Err ErrInsufficientFunds else Ok (allocations, rewards))"
  by (simp add: rewardAllocations_def allot_step_def Let_def)

lemma allot_total:
  assumes escrow: "valid escrow" and "valid rewards" and okl: "\<And>i. i \<in> set is \<Longrightarrow> allocs_ok (nk_C K) (in_Allocations i)"
  shows "valid (snd (foldl (allot_step escrow) (m, rewards) is)) \<and>
    dec_one * amt (snd (foldl (allot_step escrow) (m, rewards) is)) d \<le>
      dec_one * amt rewards d + amt escrow d * sum_list (map (\<lambda>i. alloc_of d (in_Allocations i)) is)"
  using assms(2) okl
proof (induction "is" arbitrary: m rewards)
  case (Cons i "is")
  let ?c = "allotted escrow (in_Allocations i)"
  have c: "valid ?c" "dec_one * amt ?c d \<le> amt escrow d * alloc_of d (in_Allocations i)"
    using allotted_bound [OF escrow] Cons.prems(2) by auto
  note add = Add_valid [OF Cons.prems(1) c(1)] Add_amount [OF Cons.prems(1) c(1), of d]
  from Cons.IH [OF add(1) Cons.prems(2), of "m(HexToAddress (nk_E K) (in_Contract i) \<mapsto> ?c)"] c(2)
  show ?case by (auto simp: allot_step_pair add(2) distrib_left simp del: fun_upd_apply)
qed simp

lemma allot_map: "i \<in> set is \<Longrightarrow> distinct (map (\<lambda>i. HexToAddress (nk_E K) (in_Contract i)) is) \<Longrightarrow>
  fst (foldl (allot_step escrow) a is) (HexToAddress (nk_E K) (in_Contract i)) = Some (allotted escrow (in_Allocations i))"
proof (induction "is" arbitrary: a)
  case (Cons j "is")
  have out: "fst (foldl (allot_step escrow) a js) k = fst a k" if "k \<notin> (\<lambda>i. HexToAddress (nk_E K) (in_Contract i)) ` set js" for a js k
    using that
  proof (induction js arbitrary: a)
    case (Cons j js)
    then show ?case by (cases a) (simp add: allot_step_pair)
  qed simp
  show ?case
  proof (cases "i \<in> set is")
    case True
    then show ?thesis using Cons by simp
  next
    case False
    then have "i = j" using Cons.prems(1) by simp
    moreover have "HexToAddress (nk_E K) (in_Contract j) \<notin> (\<lambda>i. HexToAddress (nk_E K) (in_Contract i)) ` set is"
      using Cons.prems(2) by auto
    ultimately show ?thesis using out [of "HexToAddress (nk_E K) (in_Contract j)" "is"]
      by (cases a) (simp add: allot_step_pair)
  qed
qed simp

lemma rewardAllocations_Ok:
  assumes ok: "inc_ok K s" and nonneg: "\<And>d. 0 \<le> GetBalance (nk_B K) (n_ext s) (GetModuleAddress (nk_A K) ''incentives'') d"
  shows "\<exists>m rewards. rewardAllocations K s = Ok (m, rewards)"
proof -
  have escrow: "valid (holdings (n_ext s))" using GetAllBalances_amount [OF nonneg] by simp
  obtain m rewards where f: "foldl (allot_step (holdings (n_ext s))) (Map.empty, []) (GetAllIncentives s) = (m, rewards)" by fastforce
  have "allocs_ok (nk_C K) (in_Allocations i)" if "i \<in> set (GetAllIncentives s)" for i
    using that inc_okD(3) [OF ok] kv_get_mem [OF inc_okD(1) [OF ok]] by (force simp: GetAllIncentives_def)
  note total = allot_total [OF escrow valid_empty this, of "GetAllIncentives s" Map.empty]
  have v: "valid rewards" using total by (simp add: f)
  have "amt rewards d \<le> amt (holdings (n_ext s)) d" for d
  proof -
    have "sum_list (map (\<lambda>i. alloc_of d (in_Allocations i)) (GetAllIncentives s)) \<le> dec_one"
      using inc_okD(4,5) [OF ok, of d] by (simp add: kv_sum_def GetAllIncentives_def comp_def)
    then have "amt (holdings (n_ext s)) d * sum_list (map (\<lambda>i. alloc_of d (in_Allocations i)) (GetAllIncentives s)) \<le>
        amt (holdings (n_ext s)) d * dec_one"
      by (rule mult_left_mono) (rule amount_nonneg [OF escrow])
    moreover have "dec_one * amt rewards d \<le>
        amt (holdings (n_ext s)) d * sum_list (map (\<lambda>i. alloc_of d (in_Allocations i)) (GetAllIncentives s))"
      using total [of d] by (simp add: f amount_empty)
    ultimately have "dec_one * amt rewards d \<le> amt (holdings (n_ext s)) d * dec_one" by (rule order_trans [rotated])
    then have "dec_one * amt rewards d \<le> dec_one * amt (holdings (n_ext s)) d" by (simp add: mult.commute)
    then show ?thesis by simp
  qed
  then have "\<not> coins_IsAnyGT (nk_C K) rewards (holdings (n_ext s))"
    by (simp add: IsAnyGT_iff [OF v escrow] not_less)
  then show ?thesis by (simp add: rewardAllocations_alt f)
qed

lemma participant_reward_Some: "in_TotalGas i \<noteq> 0 \<Longrightarrow> \<exists>c. participant_reward K md sc i a g = Some c"
  using Quo_None by (auto simp: participant_reward_def Let_def NewDec_def uint_0_iff split: option.splits)

lemma reward_meters_total:
  assumes gas: "in_TotalGas i \<noteq> 0"
  shows "\<exists>r s'. reward_meters K md sc i a gms rw n s = (Ok r, s') \<and> n_incentives s' = n_incentives s \<and>
    n_allocationMeters s' = n_allocationMeters s \<and> n_params s' = n_params s"
proof (induction gms arbitrary: rw n s)
  case (Cons gm gms)
  obtain c where c: "participant_reward K md sc i a (CumulativeGas gm) = Some c" using participant_reward_Some [OF gas] by blast
  obtain q x where q: "SendCoinsFromModuleToAccount (nk_B K) ''incentives'' (HexToAddress (nk_E K) (gm_Participant gm)) c (n_ext s) = (q, x)"
    by fastforce
  have "q \<noteq> Panic" using ModuleToAccount_no_panic [OF module_registered] q by (metis fst_conv)
  then show ?case
    using Cons.IH [of "coins_Add (nk_C K) rw c" "n + 1" "DeleteGasMeter (nk_E K) gm (s\<lparr>n_ext := x\<rparr>)"]
    by (cases q) (auto simp: Let_def c q DeleteGasMeter_def)
qed simp

lemma rewardParticipants_total:
  "\<exists>r s'. rewardParticipants K i m s = (Ok r, s') \<and> n_incentives s' = n_incentives s \<and>
    n_allocationMeters s' = n_allocationMeters s \<and> n_params s' = n_params s"
  using reward_meters_total [of i]
  by (auto simp: rewardParticipants_def Let_def split: option.splits)

abbreviation "ckey i \<equiv> HexToAddress (nk_E K) (in_Contract i)"

lemma distribute_incentive_ok:
  assumes ok: "inc_ok K s" and i: "kv_get (n_incentives s) (ckey i) = Some i"
  shows "\<exists>s'. distribute_incentive K m i s = (Ok (), s') \<and> inc_ok K s' \<and>
    (\<forall>k. k \<noteq> ckey i \<longrightarrow> kv_get (n_incentives s') k = kv_get (n_incentives s) k)"
proof -
  let ?j = "i\<lparr>in_Epochs := in_Epochs i - 1\<rparr>"
  obtain r t where t: "rewardParticipants K i m s = (Ok r, t)" "n_incentives t = n_incentives s"
    "n_allocationMeters t = n_allocationMeters s"
    using rewardParticipants_total by blast
  have okt: "inc_ok K t" using ok inc_ok_cong [OF t(2,3)] by simp
  have it: "kv_get (n_incentives t) (ckey i) = Some i" using i t(2) by simp
  show ?thesis
  proof (cases "IsActive ?j")
    case True
    have 1: "inc_ok K (SetIncentive (nk_E K) ?j t)" by (rule inc_ok_SetIncentive [OF okt it]) simp_all
    have "inc_ok K (SetIncentive (nk_E K) (?j\<lparr>in_TotalGas := 0\<rparr>) (SetIncentive (nk_E K) ?j t))"
      by (rule inc_ok_SetIncentive [OF 1, of "ckey i" ?j]) (simp_all add: kv_simps)
    then show ?thesis using True t by (simp add: distribute_incentive_def bindS_def SetIncentiveTotalGas_def kv_simps Let_def)
  next
    case False
    have "inc_ok K (DeleteIncentiveAndUpdateAllocationMeters (nk_E K) ?j t)" by (rule inc_ok_Delete [OF okt it]) simp_all
    then show ?thesis using False t
      by (simp add: distribute_incentive_def bindS_def DeleteIncentiveAndUpdateAllocationMeters_def kv_simps Let_def)
  qed
qed

lemma distribute_incentives_ok:
  assumes "inc_ok K s" and "\<And>i. i \<in> set is \<Longrightarrow> kv_get (n_incentives s) (ckey i) = Some i" and "distinct (map ckey is)"
  shows "\<exists>s'. distribute_incentives K m is s = (Ok (), s') \<and> inc_ok K s'"
  using assms
proof (induction "is" arbitrary: s)
  case (Cons i "is")
  from distribute_incentive_ok [OF Cons.prems(1), of i m] Cons.prems(2)
  obtain t where t: "distribute_incentive K m i s = (Ok (), t)" "inc_ok K t"
    "\<forall>k. k \<noteq> ckey i \<longrightarrow> kv_get (n_incentives t) k = kv_get (n_incentives s) k" by auto
  have "kv_get (n_incentives t) (ckey j) = Some j" if "j \<in> set is" for j
  proof -
    have "ckey j \<noteq> ckey i" using that Cons.prems(3) by auto (metis image_eqI)
    then show ?thesis using t(3) Cons.prems(2) that by simp
  qed
  from Cons.IH [OF t(2) this] Cons.prems(3) t(1) show ?case by (simp add: bindS_def)
qed (simp add: ret_def)

lemma AfterEpochEnd_ok:
  assumes ok: "inc_ok K s" and nonneg: "\<And>d. 0 \<le> GetBalance (nk_B K) (n_ext s) (GetModuleAddress (nk_A K) ''incentives'') d"
  shows "\<exists>s'. inc_AfterEpochEnd K ident n s = (Ok (), s') \<and> inc_ok K s'"
proof -
  have mem: "kv_get (n_incentives s) (ckey i) = Some i \<and> (ckey i, i) \<in> set (n_incentives s)" if "i \<in> set (GetAllIncentives s)" for i
  proof -
    from that obtain k where "(k, i) \<in> set (n_incentives s)" by (auto simp: GetAllIncentives_def)
    then have "kv_get (n_incentives s) k = Some i" using kv_get_mem [OF inc_okD(1) [OF ok]] by blast
    then show ?thesis using inc_okD(2) [OF ok] kv_get_mem [OF inc_okD(1) [OF ok]] by auto
  qed
  have keys: "map ckey (GetAllIncentives s) = map fst (n_incentives s)"
    using inc_okD(2) [OF ok] kv_get_mem [OF inc_okD(1) [OF ok]] by (auto simp: GetAllIncentives_def)
  then have dist: "distinct (map ckey (GetAllIncentives s))" using kv_ok_distinct [OF inc_okD(1) [OF ok]] by simp
  obtain m r where "rewardAllocations K s = Ok (m, r)" using rewardAllocations_Ok [OF ok nonneg] by blast
  then show ?thesis
    using distribute_incentives_ok [OF ok _ dist, of m] mem ok by (auto simp: inc_AfterEpochEnd_def DistributeRewards_def)
qed

end

section \<open>Runs\<close>

text \<open>A step of the chain: an executed proposal, the hook after a transaction, the end of an epoch, new
  parameters, or anything else that happens to the bank and the EVM.\<close>

inductive inc_step :: "'x inc_keepers \<Rightarrow> 'x inc_state \<Rightarrow> 'x inc_state \<Rightarrow> bool" for K where
  proposal: "inc_proposal_ValidateBasic K p = Ok () \<Longrightarrow> inc_proposal_handler K t p s = (Ok (), s') \<Longrightarrow> inc_step K s s'"
| hook: "inc_step K s (inc_PostTxProcessing K to p gas s)"
| epoch: "(\<And>d. 0 \<le> GetBalance (nk_B K) (n_ext s) (GetModuleAddress (nk_A K) ''incentives'') d) \<Longrightarrow>
    inc_AfterEpochEnd K ident n s = (r, s') \<Longrightarrow> inc_step K s s'"
| params: "inc_step K s (inc_SetParams q s)"
| env: "inc_step K s (s\<lparr>n_ext := x\<rparr>)"

lemma inc_step_ok:
  assumes laws: "inc_laws K D reg" and step: "inc_step K s s'" and ok: "inc_ok K s"
  shows "inc_ok K s'"
  using step
proof cases
  case (proposal p t)
  show ?thesis
  proof (cases p)
    case (RegisterIncentiveProposal title descr c als n)
    then have "nk_DecCoinsValidate K als" using proposal(1) by (auto simp: bindO_Ok_iff validateAllocations_def split: if_splits)
    then have als: "allocs_ok (nk_C K) als" by (rule inc_laws.DecCoinsValidate [OF laws])
    obtain i where "RegisterIncentive K t (HexToAddress (nk_E K) c) als n s = (Ok i, s')"
      using proposal(2) by (auto simp: RegisterIncentiveProposal bindS_Ok_iff ret_def)
    then show ?thesis
      using inc_laws.RegisterIncentive_ok [OF laws ok _ als] eth_laws.HexTo_len [OF inc_laws.axioms(3) [OF laws]] by blast
  next
    case (CancelIncentiveProposal title descr c)
    then show ?thesis using inc_laws.CancelIncentive_ok [OF laws ok] proposal(2) by simp
  qed
next
  case (hook to p gas)
  then show ?thesis using inc_laws.PostTxProcessing_ok [OF laws ok] by simp
next
  case (epoch ident n r)
  then show ?thesis using inc_laws.AfterEpochEnd_ok [OF laws ok epoch(1), of ident n] by auto
next
  case (params q)
  then show ?thesis using ok by (simp add: inc_SetParams_def inc_ok_cong [of "s\<lparr>n_params := q\<rparr>" s])
next
  case (env x)
  then show ?thesis using ok by (simp add: inc_ok_cong [of "s\<lparr>n_ext := x\<rparr>" s])
qed

lemma inc_reached_ok:
  assumes "inc_laws K D reg" and "n_incentives s0 = []" and "n_allocationMeters s0 = []" and "(inc_step K)\<^sup>*\<^sup>* s0 s"
  shows "inc_ok K s"
proof -
  have "inc_ok K s0" using assms(2,3) by (simp add: inc_ok_def meter_alt kv_get_def)
  with assms(4) show ?thesis by (induction rule: rtranclp_induct) (auto intro: inc_step_ok [OF assms(1)])
qed

text \<open>C33. In every state reached from one without incentives, the allocation meter of a denomination is
  the sum of all registered allocations of it and at most 100 percent.  Therefore the rewards allotted
  at the end of an epoch are covered by the module's balance, and the epoch hook, which panics and halts
  the chain where they are not, returns.\<close>

theorem epoch_end_never_panics:
  assumes "inc_laws K D reg" and "n_incentives s0 = []" and "n_allocationMeters s0 = []" and "(inc_step K)\<^sup>*\<^sup>* s0 s"
    and "\<And>d. 0 \<le> GetBalance (nk_B K) (n_ext s) (GetModuleAddress (nk_A K) ''incentives'') d"
  shows "(\<forall>d. dc_Amount (fst (GetAllocationMeter s d)) = sum_list (map (\<lambda>i. alloc_of d (in_Allocations i)) (GetAllIncentives s)) \<and>
      dc_Amount (fst (GetAllocationMeter s d)) \<le> dec_one) \<and>
    (\<exists>s'. inc_AfterEpochEnd K ident n s = (Ok (), s'))"
proof -
  have ok: "inc_ok K s" by (rule inc_reached_ok [OF assms(1-4)])
  have "\<exists>s'. inc_AfterEpochEnd K ident n s = (Ok (), s')" using inc_laws.AfterEpochEnd_ok [OF assms(1) ok assms(5)] by blast
  then show ?thesis
    using inc_okD(4,5) [OF ok] by (simp add: meter_def kv_sum_def GetAllIncentives_def comp_def)
qed

section \<open>What participants are paid\<close>

lemma sum_at_key:
  fixes f :: "'v \<Rightarrow> int"
  assumes "distinct (map fst ms)"
  shows "sum_list (map (\<lambda>(k, g). if k = k0 then f g else 0) ms) = (case map_of ms k0 of None \<Rightarrow> 0 | Some g \<Rightarrow> f g)"
  using assms
proof (induction ms)
  case (Cons e ms)
  have "k0 \<notin> fst ` set ms \<Longrightarrow> sum_list (map (\<lambda>(k, g). if k = k0 then f g else 0) ms) = 0"
    by (induction ms) auto
  then show ?case using Cons by (cases e) (auto simp: map_of_eq_None_iff image_iff split: option.splits)
qed simp

lemma map_of_filter_key: "map_of (filter (\<lambda>e. P (fst e)) xs) k = (if P k then map_of xs k else None)"
  by (induction xs) auto

text \<open>
  The share of a participant with gas \<open>g\<close>: the gas ratio times the allotted coins, for the mint
  denomination at most the gas times the reward scaler, truncated.
\<close>

definition reward_share :: "'x inc_keepers \<Rightarrow> denom \<Rightarrow> dec \<Rightarrow> coins \<Rightarrow> int \<Rightarrow> int \<Rightarrow> denom \<Rightarrow> int" where
  "reward_share K md sc alloc total_gas g d =
     (let reward = the (dec_Quo (nk_F K) (NewDec g) (NewDec total_gas)) * coins_AmountOf (nk_C K) alloc d
      in (if d = md then min reward (dec_Mul (nk_F K) (NewDec g) sc) else reward) div dec_one)"

context inc_laws
begin

lemma Quo_gas:
  assumes t: "0 < t" and g: "0 \<le> g"
  obtains q where "dec_Quo (nk_F K) (NewDec g) (NewDec t) = Some q" "0 \<le> q" "q * t \<le> g * dec_one + t"
proof -
  have pos: "0 < NewDec t" "0 \<le> NewDec g" using t g by (simp_all add: NewDec_def)
  then obtain q where q: "dec_Quo (nk_F K) (NewDec g) (NewDec t) = Some q" using Quo_None by (metis less_irrefl not_None_eq)
  have "dec_one * (q * NewDec t) - dec_one * dec_one * NewDec g = dec_one * dec_one * (q * t - g * dec_one)"
    by (simp add: NewDec_def algebra_simps)
  then have "\<bar>dec_one * (q * NewDec t) - dec_one * dec_one * NewDec g\<bar> = dec_one * dec_one * \<bar>q * t - g * dec_one\<bar>"
    by (simp add: abs_mult)
  then have "2 * (dec_one * dec_one * \<bar>q * t - g * dec_one\<bar>) \<le> (dec_one + 2) * (t * dec_one)"
    using Quo_near [OF q] t by (simp add: NewDec_def abs_mult)
  then have "2 * (dec_one * \<bar>q * t - g * dec_one\<bar>) \<le> (dec_one + 2) * t"
    by (simp add: dec_one_def)
  also have "\<dots> \<le> 2 * (dec_one * t)" using t by (simp add: dec_one_def)
  finally have "dec_one * \<bar>q * t - g * dec_one\<bar> \<le> dec_one * t" by simp
  then have "\<bar>q * t - g * dec_one\<bar> \<le> t" by simp
  then show thesis using that [OF q Quo_nonneg [OF pos(2,1) q]] by linarith
qed

lemma reward_amount:
  assumes als: "allocs_ok (nk_C K) als" and alloc: "valid alloc" and q: "0 \<le> q" and g: "0 \<le> g" "0 \<le> sc"
  shows "valid (foldl (add_reward K md sc alloc (NewDec g) q) [] als) \<and>
    amt (foldl (add_reward K md sc alloc (NewDec g) q) [] als) d =
      (if d \<in> dc_Denom ` set als then (if d = md then min (q * amt alloc d) (dec_Mul (nk_F K) (NewDec g) sc) else q * amt alloc d) div dec_one else 0)"
proof -
  let ?f = "add_reward K md sc alloc (NewDec g) q"
  let ?r = "\<lambda>d. (if d = md then min (q * amt alloc d) (dec_Mul (nk_F K) (NewDec g) sc) else q * amt alloc d)"
  have mul: "0 \<le> dec_Mul (nk_F K) (NewDec g) sc" using g by (intro Mul_nonneg) (simp_all add: NewDec_def)
  have qa: "0 \<le> q * amt alloc d" for d using q amount_nonneg [OF alloc] by simp
  have step: "valid (?f coins al) \<and> amt (?f coins al) d = amt coins d + (if d = dc_Denom al then ?r d div dec_one else 0)"
    if v: "valid coins" and al: "coins_ValidDenom (nk_C K) (dc_Denom al)" for coins al d
  proof -
    have r: "0 \<le> ?r (dc_Denom al)" "0 \<le> ?r (dc_Denom al) div dec_one" using mul qa by (simp_all add: pos_imp_zdiv_nonneg_iff)
    have "q * amt alloc (dc_Denom al) > 0 \<or> q * amt alloc (dc_Denom al) = 0" using qa [of "dc_Denom al"] by linarith
    then show ?thesis
      using Add_one_valid [OF v al r(2)] Add_one_amount [OF v al r(2), of d] v mul r
      by (auto simp: add_reward_def Let_def Truncate_floor eq_commute [of md])
  qed
  have "valid (foldl ?f coins als) \<and> amt (foldl ?f coins als) d = amt coins d + (if d \<in> dc_Denom ` set als then ?r d div dec_one else 0)"
    if "valid coins" for coins
    using that als
  proof (induction als arbitrary: coins)
    case (Cons al als)
    have al: "coins_ValidDenom (nk_C K) (dc_Denom al)" "allocs_ok (nk_C K) als" "dc_Denom al \<notin> dc_Denom ` set als"
      using Cons.prems(2) by (auto simp: allocs_ok_def)
    note st = step [OF Cons.prems(1) al(1)]
    have "valid (?f coins al)" using st by simp
    from Cons.IH [OF this al(2)] st [of d] al(3) show ?case by auto
  qed simp
  from this [OF valid_empty] show ?thesis by (simp add: amount_empty)
qed

lemma participant_reward_amount:
  assumes i: "allocs_ok (nk_C K) (in_Allocations i)" "in_TotalGas i \<noteq> 0" and alloc: "valid alloc"
    and out: "\<And>d. d \<notin> dc_Denom ` set (in_Allocations i) \<Longrightarrow> amt alloc d = 0" and sc: "0 \<le> sc"
  obtains c where "participant_reward K md sc i alloc g = Some c" "valid c"
    "\<And>d. amt c d = reward_share K md sc alloc (uint (in_TotalGas i)) (uint g) d"
proof -
  have t: "0 < uint (in_TotalGas i)" using i(2) by (simp add: uint_0_iff order.not_eq_order_implies_strict)
  have g: "0 \<le> uint g" by simp
  obtain q where q: "dec_Quo (nk_F K) (NewDec (uint g)) (NewDec (uint (in_TotalGas i))) = Some q" "0 \<le> q"
    using Quo_gas [OF t g] by blast
  have mul: "0 \<le> dec_Mul (nk_F K) (NewDec (uint g)) sc" using sc by (intro Mul_nonneg) (simp_all add: NewDec_def)
  note r = reward_amount [OF i(1) alloc q(2) g sc, of md]
  show thesis
    by (rule that [of "foldl (add_reward K md sc alloc (NewDec (uint g)) q) [] (in_Allocations i)"])
      (use r q out mul in \<open>auto simp: participant_reward_def Let_def reward_share_def min_def\<close>)
qed

lemma reward_share_bounds:
  assumes alloc: "valid alloc" and t: "0 < t" and g: "0 \<le> g" and sc: "0 \<le> sc"
  shows "0 \<le> reward_share K md sc alloc t g d"
    and "dec_one * reward_share K md sc alloc t g d \<le> the (dec_Quo (nk_F K) (NewDec g) (NewDec t)) * amt alloc d"
    and "reward_share K md sc alloc t g md \<le> dec_Mul (nk_F K) (NewDec g) sc div dec_one"
proof -
  obtain q where q: "dec_Quo (nk_F K) (NewDec g) (NewDec t) = Some q" "0 \<le> q" using Quo_gas [OF t g] by blast
  have mul: "0 \<le> dec_Mul (nk_F K) (NewDec g) sc" using sc g by (intro Mul_nonneg) (simp_all add: NewDec_def)
  have qa: "0 \<le> q * amt alloc d" for d using q amount_nonneg [OF alloc] by simp
  let ?r = "if d = md then min (q * amt alloc d) (dec_Mul (nk_F K) (NewDec g) sc) else q * amt alloc d"
  have r: "0 \<le> ?r" "?r \<le> q * amt alloc d" using qa mul by auto
  show "0 \<le> reward_share K md sc alloc t g d" using r(1) by (simp add: reward_share_def Let_def q pos_imp_zdiv_nonneg_iff)
  have "dec_one * (?r div dec_one) \<le> ?r"
    using mult_div_mod_eq [of dec_one ?r] pos_mod_sign [OF dec_one_pos(1), of ?r] by linarith
  then show "dec_one * reward_share K md sc alloc t g d \<le> the (dec_Quo (nk_F K) (NewDec g) (NewDec t)) * amt alloc d"
    using r(2) by (simp add: reward_share_def Let_def q)
  show "reward_share K md sc alloc t g md \<le> dec_Mul (nk_F K) (NewDec g) sc div dec_one"
    by (simp add: reward_share_def Let_def zdiv_mono1)
qed

text \<open>Rounding the gas ratios can make the shares of \<open>n\<close> participants exceed the allotment, by at most
  \<open>n\<close> units of the last decimal place.\<close>

lemma reward_shares_total:
  assumes alloc: "valid alloc" and t: "0 < t" and sc: "0 \<le> sc" and gs: "\<And>g. g \<in> set gs \<Longrightarrow> 0 \<le> g" and total: "sum_list gs = t"
  shows "dec_one * sum_list (map (\<lambda>g. reward_share K md sc alloc t g d) gs) \<le> amt alloc d * (dec_one + int (length gs))"
proof -
  let ?q = "\<lambda>g. the (dec_Quo (nk_F K) (NewDec g) (NewDec t))"
  have q: "?q g * t \<le> g * dec_one + t" if "0 \<le> g" for g using Quo_gas [OF t that] by (metis option.sel)
  have "sum_list (map ?q gs) * t \<le> sum_list gs * dec_one + int (length gs) * t"
    using gs
  proof (induction gs)
    case (Cons g gs)
    have "?q g * t \<le> g * dec_one + t" by (rule q) (use Cons.prems in simp)
    with Cons show ?case by (simp add: distrib_right)
  qed simp
  then have "sum_list (map ?q gs) * t \<le> (dec_one + int (length gs)) * t" by (simp add: total algebra_simps)
  then have "sum_list (map ?q gs) \<le> dec_one + int (length gs)" using t by simp
  then have "amt alloc d * sum_list (map ?q gs) \<le> amt alloc d * (dec_one + int (length gs))"
    by (rule mult_left_mono) (rule amount_nonneg [OF alloc])
  moreover have "dec_one * sum_list (map (\<lambda>g. reward_share K md sc alloc t g d) gs) \<le> amt alloc d * sum_list (map ?q gs)"
    using gs
  proof (induction gs)
    case (Cons g gs)
    have "dec_one * reward_share K md sc alloc t g d \<le> ?q g * amt alloc d"
      by (rule reward_share_bounds(2) [OF alloc t _ sc]) (use Cons.prems in simp)
    with Cons show ?case by (simp add: distrib_left mult.commute)
  qed simp
  ultimately show ?thesis by (rule order_trans [rotated])
qed

abbreviation "MODn \<equiv> GetModuleAddress (nk_A K) ''incentives''"
abbreviation "bal \<equiv> GetBalance (nk_B K)"
abbreviation "part gm \<equiv> HexToAddress (nk_E K) (gm_Participant gm)"
abbreviation "gkey gm \<equiv> HexToAddress (nk_E K) (gm_Contract gm) @ part gm"

lemma reward_meters_pays:
  assumes i: "allocs_ok (nk_C K) (in_Allocations i)" "in_TotalGas i \<noteq> 0" and alloc: "valid alloc"
    and out: "\<And>d. d \<notin> dc_Denom ` set (in_Allocations i) \<Longrightarrow> amt alloc d = 0" and sc: "0 \<le> sc"
    and ppl: "\<And>gm. gm \<in> set gms \<Longrightarrow> \<not> BlockedAddr (nk_B K) (part gm) \<and> part gm \<noteq> MODn"
    and sh: "sh = (\<lambda>gm d. reward_share K md sc alloc (uint (in_TotalGas i)) (uint (CumulativeGas gm)) d)"
    and funds: "\<And>d. sum_list (map (\<lambda>gm. sh gm d) gms) \<le> bal (n_ext s) MODn d"
  shows "\<exists>r s'. reward_meters K md sc i alloc gms rw n s = (Ok (r, n + int (length gms)), s') \<and>
    n_gasMeters s' = foldl kv_del (n_gasMeters s) (map gkey gms) \<and>
    (\<forall>a d. bal (n_ext s') a d = bal (n_ext s) a d + sum_list (map (\<lambda>gm. if part gm = a then sh gm d else 0) gms)
       - (if a = MODn then sum_list (map (\<lambda>gm. sh gm d) gms) else 0))"
  using ppl funds
proof (induction gms arbitrary: rw n s)
  case (Cons gm gms)
  have t: "0 < uint (in_TotalGas i)" using i(2) by (simp add: uint_0_iff order.not_eq_order_implies_strict)
  have pos: "0 \<le> sh g d" for g d unfolding sh by (rule reward_share_bounds(1) [OF alloc t _ sc]) simp
  have sums: "0 \<le> sum_list (map (\<lambda>gm. sh gm d) gms)" for d by (rule sum_list_nonneg) (use pos in auto)
  obtain c where c: "participant_reward K md sc i alloc (CumulativeGas gm) = Some c" "valid c" "\<And>d. amt c d = sh gm d"
    unfolding sh using participant_reward_amount [OF i alloc out sc, of md "CumulativeGas gm"] by metis
  have enough: "amt c d \<le> bal (n_ext s) MODn d" for d using Cons.prems(2) [of d] c(3) [of d] sums [of d] by simp
  have free: "\<not> BlockedAddr (nk_B K) (part gm)" "part gm \<noteq> MODn" using Cons.prems(1) by simp_all
  obtain x where x: "SendCoinsFromModuleToAccount (nk_B K) ''incentives'' (part gm) c (n_ext s) = (Ok (), x)"
    using ModuleToAccount_ok [OF module_registered c(2) free(1) enough] by blast
  have mv: "bal x a d = bal (n_ext s) a d - (if a = MODn then sh gm d else 0) + (if part gm = a then sh gm d else 0)" for a d
    using ModuleToAccount_moved [OF c(2) x] c(3) by (auto simp: moved_def)
  let ?s = "DeleteGasMeter (nk_E K) gm (s\<lparr>n_ext := x\<rparr>)"
  have ext: "n_ext ?s = x" "n_gasMeters ?s = kv_del (n_gasMeters s) (gkey gm)" by (simp_all add: DeleteGasMeter_def)
  have funds: "sum_list (map (\<lambda>gm. sh gm d) gms) \<le> bal (n_ext ?s) MODn d" for d
    using Cons.prems(2) [of d] mv [of MODn d] free(2) by (simp add: ext)
  obtain r s' where IH: "reward_meters K md sc i alloc gms (coins_Add (nk_C K) rw c) (n + 1) ?s = (Ok (r, n + 1 + int (length gms)), s')"
    "n_gasMeters s' = foldl kv_del (n_gasMeters ?s) (map gkey gms)"
    "\<And>a d. bal (n_ext s') a d = bal (n_ext ?s) a d + sum_list (map (\<lambda>gm. if part gm = a then sh gm d else 0) gms)
       - (if a = MODn then sum_list (map (\<lambda>gm. sh gm d) gms) else 0)"
    using Cons.IH [OF _ funds, of "coins_Add (nk_C K) rw c" "n + 1"] Cons.prems(1) by auto
  have "bal (n_ext s') a d = bal (n_ext s) a d + sum_list (map (\<lambda>gm. if part gm = a then sh gm d else 0) (gm # gms))
       - (if a = MODn then sum_list (map (\<lambda>gm. sh gm d) (gm # gms)) else 0)" for a d
    using IH(3) [of a d] mv [of a d] ext(1) by simp
  then show ?case using IH(1,2) by (simp add: c(1) x Let_def ext(2) algebra_simps)
qed simp

lemma meter_of_key:
  assumes "length k = 40" and "HasPrefix k c" and "length c = 20"
  shows "gkey (meter_of (nk_E K) (k, g)) = k" and "part (meter_of (nk_E K) (k, g)) = drop 20 k"
    and "CumulativeGas (meter_of (nk_E K) (k, g)) = g"
proof -
  have "take 20 k = c" using assms by (auto simp: HasPrefix_def)
  then have "SplitGasMeterKey (nk_E K) k = (c, drop 20 k)" using assms by (simp add: SplitGasMeterKey_def BytesTo_id)
  then show "gkey (meter_of (nk_E K) (k, g)) = k" "part (meter_of (nk_E K) (k, g)) = drop 20 k"
    "CumulativeGas (meter_of (nk_E K) (k, g)) = g"
    using assms \<open>take 20 k = c\<close> append_take_drop_id [of 20 k] by (simp_all add: meter_of_def NewGasMeter_def Hex_inv)
qed

lemma sum_participants:
  fixes f :: "64 word \<Rightarrow> int"
  assumes ok: "kv_ok (n_gasMeters s)" and len: "\<And>k. k \<in> fst ` set (n_gasMeters s) \<Longrightarrow> length k = 40" and c: "length c = 20"
  shows "sum_list (map (\<lambda>gm. if part gm = a then f (CumulativeGas gm) else 0) (GetIncentiveGasMeters (nk_E K) s c)) =
    (case GetGasMeter s c a of None \<Rightarrow> 0 | Some g \<Rightarrow> f g)"
proof -
  let ?ms = "filter (\<lambda>e. HasPrefix (fst e) c) (n_gasMeters s)"
  have mem: "length (fst e) = 40 \<and> HasPrefix (fst e) c" if "e \<in> set ?ms" for e using that len by auto
  have eq: "drop 20 k = a \<longleftrightarrow> k = c @ a" if "length k = 40" "HasPrefix k c" for k
    using that c by (metis append_take_drop_id HasPrefix_def same_append_eq)
  have "map (\<lambda>gm. if part gm = a then f (CumulativeGas gm) else 0) (GetIncentiveGasMeters (nk_E K) s c) =
      map (\<lambda>(k, g). if k = c @ a then f g else 0) ?ms"
    unfolding GetIncentiveGasMeters_def map_map
  proof (rule map_cong [OF refl])
    fix e
    assume "e \<in> set ?ms"
    then have e: "length (fst e) = 40" "HasPrefix (fst e) c" using mem by blast+
    then show "((\<lambda>gm. if part gm = a then f (CumulativeGas gm) else 0) \<circ> meter_of (nk_E K)) e = (case e of (k, g) \<Rightarrow> if k = c @ a then f g else 0)"
      using meter_of_key(2,3) [OF e c, of "snd e"] eq [OF e] by (cases e) auto
  qed
  moreover have "distinct (map fst ?ms)" using kv_ok_distinct [OF ok] by (rule distinct_map_filter)
  moreover have "map_of ?ms (c @ a) = map_of (n_gasMeters s) (c @ a)"
    by (simp add: map_of_filter_key [where P = "\<lambda>k. HasPrefix k c"]) (simp add: HasPrefix_def)
  ultimately show ?thesis by (simp add: sum_at_key GetGasMeter_def kv_get_def)
qed

lemma meters_deleted:
  assumes len: "\<And>k. k \<in> fst ` set (n_gasMeters s) \<Longrightarrow> length k = 40" and c: "length c = 20"
  shows "kv_get (foldl kv_del (n_gasMeters s) (map gkey (GetIncentiveGasMeters (nk_E K) s c))) k =
    (if HasPrefix k c then None else kv_get (n_gasMeters s) k)"
proof -
  let ?ms = "filter (\<lambda>e. HasPrefix (fst e) c) (n_gasMeters s)"
  have "map gkey (GetIncentiveGasMeters (nk_E K) s c) = map fst ?ms"
    unfolding GetIncentiveGasMeters_def map_map
    by (rule map_cong [OF refl]) (use meter_of_key(1) [OF len _ c] in \<open>force split: prod.splits\<close>)
  moreover have "HasPrefix k c \<Longrightarrow> k \<notin> fst ` set ?ms \<Longrightarrow> kv_get (n_gasMeters s) k = None"
    by (force simp: kv_get_None)
  ultimately show ?thesis by (auto simp: kv.get_foldl_del)
qed

lemma rewardParticipants_pays:
  assumes c: "c = HexToAddress (nk_E K) (in_Contract i)" and ms: "ms = GetIncentiveGasMeters (nk_E K) s c"
    and i: "allocs_ok (nk_C K) (in_Allocations i)" "in_TotalGas i \<noteq> 0" and m: "m c = Some alloc"
    and alloc: "valid alloc" "\<And>d. d \<notin> dc_Denom ` set (in_Allocations i) \<Longrightarrow> amt alloc d = 0"
    and sc: "0 \<le> RewardScaler (n_params s)"
    and meters: "kv_ok (n_gasMeters s)" "\<And>k. k \<in> fst ` set (n_gasMeters s) \<Longrightarrow> length k = 40"
    and gas: "sum_list (map (\<lambda>gm. uint (CumulativeGas gm)) ms) = uint (in_TotalGas i)"
    and ppl: "\<And>gm. gm \<in> set ms \<Longrightarrow> \<not> BlockedAddr (nk_B K) (part gm) \<and> part gm \<noteq> MODn"
    and funds: "\<And>d. amt alloc d * (dec_one + int (length ms)) \<le> dec_one * bal (n_ext s) MODn d"
    and sh: "sh = (\<lambda>g. reward_share K (EvmDenom (nk_V K) (n_ext s)) (RewardScaler (n_params s)) alloc (uint (in_TotalGas i)) (uint g))"
  shows "\<exists>r s'. rewardParticipants K i m s = (Ok (r, int (length ms)), s') \<and>
    (\<forall>k. kv_get (n_gasMeters s') k = (if HasPrefix k c then None else kv_get (n_gasMeters s) k)) \<and>
    (\<forall>a d. a \<noteq> MODn \<longrightarrow> bal (n_ext s') a d = bal (n_ext s) a d + (case GetGasMeter s c a of None \<Rightarrow> 0 | Some g \<Rightarrow> sh g d)) \<and>
    (\<forall>d. dec_one * (bal (n_ext s) MODn d - bal (n_ext s') MODn d) \<le> amt alloc d * (dec_one + int (length ms)))"
proof -
  have t: "0 < uint (in_TotalGas i)" using i(2) by (simp add: uint_0_iff order.not_eq_order_implies_strict)
  have len: "length c = 20" by (simp add: c HexTo_len)
  have nn: "0 \<le> g" if "g \<in> set (map (\<lambda>gm. uint (CumulativeGas gm)) ms)" for g using that by auto
  have total: "dec_one * sum_list (map (\<lambda>gm. sh (CumulativeGas gm) d) ms) \<le> amt alloc d * (dec_one + int (length ms))" for d
    using reward_shares_total [OF alloc(1) t sc nn gas, of "EvmDenom (nk_V K) (n_ext s)" d]
    by (simp add: sh comp_def)
  have fund: "sum_list (map (\<lambda>gm. sh (CumulativeGas gm) d) ms) \<le> bal (n_ext s) MODn d" for d
    using order.trans [OF total funds, of d] dec_one_pos(1) by simp
  have shm: "(\<lambda>gm. sh (CumulativeGas gm)) = (\<lambda>gm d. reward_share K (EvmDenom (nk_V K) (n_ext s)) (RewardScaler (n_params s)) alloc
      (uint (in_TotalGas i)) (uint (CumulativeGas gm)) d)" by (simp add: sh)
  obtain r s' where run: "rewardParticipants K i m s = (Ok (r, int (length ms)), s')"
    "n_gasMeters s' = foldl kv_del (n_gasMeters s) (map gkey ms)"
    "\<And>a d. bal (n_ext s') a d = bal (n_ext s) a d + sum_list (map (\<lambda>gm. if part gm = a then sh (CumulativeGas gm) d else 0) ms)
       - (if a = MODn then sum_list (map (\<lambda>gm. sh (CumulativeGas gm) d) ms) else 0)"
    using reward_meters_pays [OF i alloc sc ppl shm fund, of "[]" 0] m i(2)
    by (auto simp: rewardParticipants_def Let_def simp flip: c ms)
  have none: "map (\<lambda>gm. if part gm = MODn then sh (CumulativeGas gm) d else 0) ms = map (\<lambda>_. 0) ms" for d
    using ppl by (intro map_cong) auto
  have "sum_list (map (\<lambda>gm. if part gm = MODn then sh (CumulativeGas gm) d else 0) ms) = 0" for d
    unfolding none by (simp add: sum_list_triv)
  moreover have "sum_list (map (\<lambda>gm. if part gm = a then sh (CumulativeGas gm) d else 0) ms) =
      (case GetGasMeter s c a of None \<Rightarrow> 0 | Some g \<Rightarrow> sh g d)" for a d
    unfolding ms by (rule sum_participants [OF meters len])
  ultimately have "bal (n_ext s') a d = bal (n_ext s) a d + (case GetGasMeter s c a of None \<Rightarrow> 0 | Some g \<Rightarrow> sh g d)"
      "bal (n_ext s) MODn d - bal (n_ext s') MODn d = sum_list (map (\<lambda>gm. sh (CumulativeGas gm) d) ms)"
    if "a \<noteq> MODn" for a d
    using run(3) [of a d] run(3) [of MODn d] that by simp_all
  moreover have "\<exists>a. a \<noteq> MODn" by (metis not_Cons_self2)
  moreover have "kv_get (n_gasMeters s') k = (if HasPrefix k c then None else kv_get (n_gasMeters s) k)" for k
    unfolding run(2) ms by (rule meters_deleted [OF meters(2) len])
  ultimately show ?thesis using run(1) total by (intro exI [of _ r] exI [of _ s']) auto
qed

lemma incentive_keys:
  assumes ok: "inc_ok K s"
  shows "map (\<lambda>i. HexToAddress (nk_E K) (in_Contract i)) (GetAllIncentives s) = map fst (n_incentives s)"
  unfolding GetAllIncentives_def map_map
proof (rule map_cong [OF refl])
  fix e
  assume "e \<in> set (n_incentives s)"
  then have "kv_get (n_incentives s) (fst e) = Some (snd e)" using kv_get_mem [OF inc_okD(1) [OF ok]] by simp
  then show "((\<lambda>i. HexToAddress (nk_E K) (in_Contract i)) \<circ> snd) e = fst e" using inc_okD(2) [OF ok] by simp
qed

lemma allotted_to:
  assumes ok: "inc_ok K s" and nonneg: "\<And>d. 0 \<le> bal (n_ext s) MODn d" and run: "rewardAllocations K s = Ok (m, rewards)"
    and i: "i \<in> set (GetAllIncentives s)" and m: "m (HexToAddress (nk_E K) (in_Contract i)) = Some alloc"
  shows "allocs_ok (nk_C K) (in_Allocations i)" and "valid alloc"
    and "dec_one * amt alloc d \<le> bal (n_ext s) MODn d * alloc_of d (in_Allocations i)"
    and "d \<notin> dc_Denom ` set (in_Allocations i) \<Longrightarrow> amt alloc d = 0"
proof -
  show als: "allocs_ok (nk_C K) (in_Allocations i)"
    using i inc_okD(3) [OF ok] kv_get_mem [OF inc_okD(1) [OF ok]] by (force simp: GetAllIncentives_def)
  have escrow: "valid (holdings (n_ext s))" "\<And>d. amt (holdings (n_ext s)) d = bal (n_ext s) MODn d"
    using GetAllBalances_amount [OF nonneg] by simp_all
  have "fst (foldl (allot_step (holdings (n_ext s))) (Map.empty, []) (GetAllIncentives s)) = m"
    using run by (auto simp: rewardAllocations_alt split: prod.splits if_splits)
  then have alloc: "alloc = allotted (holdings (n_ext s)) (in_Allocations i)"
    using allot_map [OF i, of "holdings (n_ext s)" "(Map.empty, [])"] m incentive_keys [OF ok] kv_ok_distinct [OF inc_okD(1) [OF ok]] by simp
  note b = allotted_bound [OF escrow(1) als]
  show v: "valid alloc" using b by (simp add: alloc)
  show bound: "dec_one * amt alloc d \<le> bal (n_ext s) MODn d * alloc_of d (in_Allocations i)" for d
    using b [of d] escrow(2) by (simp add: alloc)
  show "d \<notin> dc_Denom ` set (in_Allocations i) \<Longrightarrow> amt alloc d = 0"
    using bound [of d] amount_nonneg [OF v, of d] by (simp add: alloc_of_out mult_le_0_iff dec_one_def)
qed

end


section \<open>Genesis\<close>

lemma kv_set_mem: "(k, v) \<in> set (kv_set m k v)"
  by (induction m k v rule: kv_set.induct) auto

lemma init_incentives_panics:
  "i \<in> set is \<Longrightarrow> in_Allocations i \<noteq> [] \<Longrightarrow> fst (init_incentives E is [] s) = Panic"
proof (induction "is" arbitrary: s)
  case (Cons j "is")
  then show ?case by (cases "in_Allocations j") (auto simp: Let_def kv_get_def)
qed simp

text \<open>C35. The import of a genesis state in which an incentive has an allocation panics on the first
  allocation, whatever the state: a genesis file that a chain with a registered incentive exported
  cannot start a chain.\<close>

theorem exported_genesis_panics:
  assumes "inc_proposal_ValidateBasic K (RegisterIncentiveProposal title descr contract allocations epochs) = Ok ()"
    and "inc_proposal_handler K t (RegisterIncentiveProposal title descr contract allocations epochs) s = (Ok (), s')"
  shows "fst (inc_InitGenesis K (inc_ExportGenesis K s') s0) = Panic"
proof -
  have "allocations \<noteq> []" using assms(1) by (auto simp: bindO_Ok_iff validateAllocations_def split: if_splits)
  moreover obtain ams where "s' = fold SetAllocationMeter ams
      (SetIncentive (nk_E K) ((NewIncentive (nk_E K) (HexToAddress (nk_E K) contract) allocations epochs)\<lparr>in_StartTime := t\<rparr>) s)"
    using assms(2) by (auto simp: bindS_Ok_iff ret_def RegisterIncentive_def Let_def split: if_splits outcome.splits)
  then have "\<exists>i \<in> set (GetAllIncentives s'). in_Allocations i = allocations"
    using kv_set_mem by (force simp: GetAllIncentives_def SetIncentive_def NewIncentive_def)
  ultimately obtain i where i: "i \<in> set (GetAllIncentives s')" "in_Allocations i \<noteq> []" by auto
  obtain r s1 where "init_incentives (nk_E K) (GetAllIncentives s') [] (inc_SetParams (n_params s') s0) = (r, s1)" by fastforce
  with init_incentives_panics [OF i, of "nk_E K" "inc_SetParams (n_params s') s0"]
  show ?thesis by (simp add: inc_InitGenesis_def inc_ExportGenesis_def bindS_def Let_def)
qed

section \<open>An evaluated epoch\<close>

definition std_inc :: "std_chain inc_keepers" where
  "std_inc =
     \<lparr>nk_C = std_coins, nk_F = std_dec, nk_E = std_eth, nk_V = std_evm_ops, nk_A = pair_accounts std_accounts,
      nk_B = pair_bank std_bank, nk_DecCoinsIsZero = list_all (\<lambda>al. dc_Amount al = 0), nk_DecCoinsValidate = allocs_ok std_coins,
      nk_ValidateAbstract = (\<lambda>t d. t \<noteq> []), nk_EthContractAccount = (\<lambda>x a. Some (v_tokens (snd x) a \<noteq> None)),
      nk_ModuleAccount = (\<lambda>_ _. True)\<rparr>"

lemma std_inc_sel [simp]:
  "nk_C std_inc = std_coins" "nk_F std_inc = std_dec" "nk_E std_inc = std_eth" "nk_V std_inc = std_evm_ops"
  "nk_A std_inc = pair_accounts std_accounts" "nk_B std_inc = pair_bank std_bank" "nk_DecCoinsValidate std_inc = allocs_ok std_coins"
  by (simp_all add: std_inc_def)

interpretation stdn: inc_laws std_inc "pair_distr std_distr" UNIV
proof (rule inc_laws.intro)
  show "keeper_laws (nk_C std_inc) (nk_A std_inc) (nk_B std_inc) (pair_distr std_distr) UNIV"
    using stdp.keeper_laws_axioms by simp
  show "dec_laws (nk_F std_inc)" using stdd.dec_laws_axioms by simp
  show "eth_laws (nk_E std_inc)" using stde.eth_laws_axioms by simp
  show "inc_laws_axioms std_inc UNIV" by unfold_locales simp_all
qed

text \<open>The module holds 1000 \<open>acoin\<close>; 5 percent of it go to the users of \<open>ex_contract\<close>, of whom one spends
  100 units of gas and the other 200.\<close>

definition ex_inc_world :: std_chain where
  "ex_inc_world = ((fst ex_chain)\<lparr>w_balance := (\<lambda>a d. if a = std_module_addr ''incentives'' then 1000 else 0)\<rparr>, snd ex_chain)"

definition ex_inc_empty :: "std_chain inc_state" where
  "ex_inc_empty = \<lparr>n_params = inc_DefaultParams, n_incentives = [], n_gasMeters = [], n_allocationMeters = [], n_ext = ex_inc_world\<rparr>"

definition ex_register :: inc_proposal where
  "ex_register = RegisterIncentiveProposal ''title'' ''text'' (addr_Hex std_eth ex_contract)
     [\<lparr>dc_Denom = ''acoin'', dc_Amount = NewDecWithPrec 5 2\<rparr>] 10"

definition ex_inc_registered :: "std_chain inc_state" where
  "ex_inc_registered = snd (inc_proposal_handler std_inc 0 ex_register ex_inc_empty)"

definition ex_inc_used :: "std_chain inc_state" where
  "ex_inc_used = inc_PostTxProcessing std_inc (Some ex_contract) ex_bob 200
     (inc_PostTxProcessing std_inc (Some ex_contract) ex_user 100 ex_inc_registered)"

lemma ex_register_valid: "inc_proposal_ValidateBasic std_inc ex_register = Ok ()"
  by code_simp

lemma ex_register_run: "inc_proposal_handler std_inc 0 ex_register ex_inc_empty = (Ok (), ex_inc_registered)"
proof -
  have "fst (inc_proposal_handler std_inc 0 ex_register ex_inc_empty) = Ok ()" by code_simp
  then show ?thesis by (simp add: ex_inc_registered_def prod_eq_iff)
qed

lemma ex_inc_reached: "(inc_step std_inc)\<^sup>*\<^sup>* ex_inc_empty ex_inc_used"
proof -
  have "inc_step std_inc ex_inc_empty ex_inc_registered" by (rule inc_step.proposal [OF ex_register_valid ex_register_run])
  from rtranclp.rtrancl_into_rtrancl [OF r_into_rtranclp [of "inc_step std_inc", OF this] inc_step.hook]
  show ?thesis unfolding ex_inc_used_def by (rule rtranclp.rtrancl_into_rtrancl) (rule inc_step.hook)
qed

lemma PostTxProcessing_ext [simp]: "n_ext (inc_PostTxProcessing K to p gas s) = n_ext s"
  by (simp add: inc_PostTxProcessing_def addGasToParticipant_def addGasToIncentive_def SetGasMeter_def Let_def split: option.splits)

lemma RegisterIncentive_ext: "RegisterIncentive K t c als n s = (r, s') \<Longrightarrow> n_ext s' = n_ext s"
  by (auto simp: RegisterIncentive_def Let_def split: outcome.splits if_splits)

lemma ex_inc_ext: "n_ext ex_inc_used = ex_inc_world"
  by (auto simp: ex_inc_used_def ex_inc_registered_def ex_register_def bindS_def ret_def ex_inc_empty_def
      dest: RegisterIncentive_ext split: prod.splits outcome.splits)

lemma ex_inc_balance: "GetBalance std_bank (fst ex_inc_world) a d =
  (if a = std_module_addr ''incentives'' \<and> d = ''acoin'' then 1000 else 0)"
  by (simp add: ex_inc_world_def ex_chain_def std_bank_def std_balance_def)

lemma ex_inc_nonneg: "0 \<le> GetBalance (nk_B std_inc) (n_ext ex_inc_used) (GetModuleAddress (nk_A std_inc) ''incentives'') d"
  by (simp add: ex_inc_ext ex_inc_balance)

lemma ex_inc_start: "n_incentives ex_inc_empty = []" "n_allocationMeters ex_inc_empty = []"
  by (simp_all add: ex_inc_empty_def)

theorem epoch_end_never_panics_witness:
  "dc_Amount (fst (GetAllocationMeter ex_inc_used ''acoin'')) = NewDecWithPrec 5 2 \<and>
   (\<exists>s'. inc_AfterEpochEnd std_inc ''week'' 1 ex_inc_used = (Ok (), s'))"
proof -
  have "dc_Amount (fst (GetAllocationMeter ex_inc_used ''acoin'')) = NewDecWithPrec 5 2" by code_simp
  with epoch_end_never_panics [OF stdn.inc_laws_axioms ex_inc_start ex_inc_reached ex_inc_nonneg] show ?thesis by blast
qed

theorem exported_genesis_panics_witness:
  "fst (inc_InitGenesis std_inc (inc_ExportGenesis std_inc ex_inc_registered) ex_inc_empty) = Panic"
  using exported_genesis_panics [OF ex_register_valid [unfolded ex_register_def] ex_register_run [unfolded ex_register_def]] .

definition ex_incentive :: incentive where
  "ex_incentive = \<lparr>in_Contract = addr_Hex std_eth ex_contract, in_Allocations = [\<lparr>dc_Denom = ''acoin'', dc_Amount = NewDecWithPrec 5 2\<rparr>],
     in_Epochs = 10, in_StartTime = 0, in_TotalGas = 300\<rparr>"

lemma ex_inc_data:
  "GetAllIncentives ex_inc_used = [ex_incentive]"
  "n_gasMeters ex_inc_used = [(ex_contract @ ex_bob, 200), (ex_contract @ ex_user, 100)]"
  "GetIncentiveGasMeters std_eth ex_inc_used ex_contract = [NewGasMeter std_eth ex_contract ex_bob 200, NewGasMeter std_eth ex_contract ex_user 100]"
  "(case rewardAllocations std_inc ex_inc_used of Ok (m, _) \<Rightarrow> m ex_contract | _ \<Rightarrow> None) = Some [\<lparr>Denom = ''acoin'', Amt = 50\<rparr>]"
  "HexToAddress std_eth (in_Contract ex_incentive) = ex_contract"
  by code_simp+


end
