(* ===== verification/Feesplit.thy ===== *)
theory Feesplit
  imports Inflation Erc20_World "HOL-Library.Word"
begin

text \<open>
  \<open>x/feesplit\<close>: contracts registered by their deployers receive a share of the fees of the
  transactions that call them.  The messages, the stores with their two indexes, the EVM hook and
  genesis.  The bank, the EVM, bech32 and the gas meter are parameters.
\<close>

section \<open>Types\<close>

record fee_split =
  fs_ContractAddress :: string
  fs_DeployerAddress :: string
  fs_WithdrawerAddress :: string

record fee_params =
  EnableFeeSplit :: bool
  DeveloperShares :: dec
  AddrDerivationCostCreate :: "64 word"

record fee_genesis =
  fg_Params :: fee_params
  fg_FeeSplits :: "fee_split list"

record msg_register_fee =
  mr_ContractAddress :: string
  mr_DeployerAddress :: string
  mr_WithdrawerAddress :: string
  mr_Nonces :: "64 word list"

record msg_update_fee =
  mu_ContractAddress :: string
  mu_DeployerAddress :: string
  mu_WithdrawerAddress :: string

record msg_cancel_fee =
  mc_ContractAddress :: string
  mc_DeployerAddress :: string

record 'x fee_keepers =
  fk_C :: coins_ops
  fk_F :: dec_ops
  fk_H :: bech32_ops
  fk_E :: eth_ops
  fk_V :: "'x evm_ops"
  fk_A :: "'x account_ops"
  fk_B :: "'x bank_ops"
  fk_ConsumeGas :: "64 word \<Rightarrow> ('x, unit) cmd"
  feeCollectorName :: string

definition NewFeeSplit :: "bech32_ops \<Rightarrow> eth_ops \<Rightarrow> addr \<Rightarrow> addr \<Rightarrow> addr \<Rightarrow> fee_split" where
  "NewFeeSplit H E contract deployer withdrawer =
     \<lparr>fs_ContractAddress = addr_Hex E contract, fs_DeployerAddress = acc_String H deployer,
      fs_WithdrawerAddress = (if withdrawer \<noteq> [] then acc_String H withdrawer else [])\<rparr>"

definition GetContractAddr :: "eth_ops \<Rightarrow> fee_split \<Rightarrow> addr" where
  "GetContractAddr E fs = HexToAddress E (fs_ContractAddress fs)"

definition GetDeployerAddr :: "bech32_ops \<Rightarrow> fee_split \<Rightarrow> addr outcome" where
  "GetDeployerAddr H fs = orPanic (AccAddressFromBech32 H (fs_DeployerAddress fs))"

text \<open>The nil address is the empty list.\<close>

definition GetWithdrawerAddr :: "bech32_ops \<Rightarrow> fee_split \<Rightarrow> addr outcome" where
  "GetWithdrawerAddr H fs =
     (if fs_WithdrawerAddress fs = [] then Ok [] else orPanic (AccAddressFromBech32 H (fs_WithdrawerAddress fs)))"

definition fs_Validate :: "bech32_ops \<Rightarrow> eth_ops \<Rightarrow> fee_split \<Rightarrow> unit outcome" where
  "fs_Validate H E fs =
     (if \<not> ValidateNonZeroAddress E (fs_ContractAddress fs) then Err (ErrExt ''ValidateNonZeroAddress'') else
      if AccAddressFromBech32 H (fs_DeployerAddress fs) = None then Err (ErrExt ''AccAddressFromBech32'') else
      if fs_WithdrawerAddress fs \<noteq> [] \<and> AccAddressFromBech32 H (fs_WithdrawerAddress fs) = None
      then Err (ErrExt ''AccAddressFromBech32'') else Ok ())"

definition fee_DefaultParams :: fee_params where
  "fee_DefaultParams = \<lparr>EnableFeeSplit = True, DeveloperShares = NewDecWithPrec 50 2, AddrDerivationCostCreate = 50\<rparr>"

definition validateShares :: "dec \<Rightarrow> unit outcome" where
  "validateShares v =
     (if v < 0 then Err (ErrPlain ''value cannot be negative'') else
      if v > dec_one then Err (ErrPlain ''value cannot be greater than 1'') else Ok ())"

definition fee_params_Validate :: "fee_params \<Rightarrow> unit outcome" where
  "fee_params_Validate p = validateShares (DeveloperShares p)"

definition fee_DefaultGenesisState :: fee_genesis where
  "fee_DefaultGenesisState = \<lparr>fg_Params = fee_DefaultParams, fg_FeeSplits = []\<rparr>"

fun fee_splits_Validate :: "bech32_ops \<Rightarrow> eth_ops \<Rightarrow> string set \<Rightarrow> fee_split list \<Rightarrow> unit outcome" where
  "fee_splits_Validate H E seen [] = Ok ()"
| "fee_splits_Validate H E seen (fs # fss) =
     (if fs_ContractAddress fs \<in> seen then Err (ErrPlain ''contract duplicated on genesis'') else
      bindO (fs_Validate H E fs) (\<lambda>_. fee_splits_Validate H E (insert (fs_ContractAddress fs) seen) fss))"

definition fee_genesis_Validate :: "bech32_ops \<Rightarrow> eth_ops \<Rightarrow> fee_genesis \<Rightarrow> unit outcome" where
  "fee_genesis_Validate H E gs =
     bindO (fee_splits_Validate H E {} (fg_FeeSplits gs)) (\<lambda>_. fee_params_Validate (fg_Params gs))"

section \<open>Messages\<close>

definition NewMsgRegisterFeeSplit ::
  "bech32_ops \<Rightarrow> eth_ops \<Rightarrow> addr \<Rightarrow> addr \<Rightarrow> addr option \<Rightarrow> 64 word list \<Rightarrow> msg_register_fee" where
  "NewMsgRegisterFeeSplit H E contract deployer withdrawer nonces =
     \<lparr>mr_ContractAddress = addr_Hex E contract, mr_DeployerAddress = acc_String H deployer,
      mr_WithdrawerAddress = (case withdrawer of None \<Rightarrow> [] | Some w \<Rightarrow> acc_String H w), mr_Nonces = nonces\<rparr>"

definition MsgRegisterFeeSplit_ValidateBasic :: "bech32_ops \<Rightarrow> eth_ops \<Rightarrow> msg_register_fee \<Rightarrow> unit outcome" where
  "MsgRegisterFeeSplit_ValidateBasic H E msg =
     (if AccAddressFromBech32 H (mr_DeployerAddress msg) = None then Err (ErrExt ''AccAddressFromBech32'') else
      if \<not> ValidateNonZeroAddress E (mr_ContractAddress msg) then Err (ErrExt ''ValidateNonZeroAddress'') else
      if mr_WithdrawerAddress msg \<noteq> [] \<and> AccAddressFromBech32 H (mr_WithdrawerAddress msg) = None
      then Err (ErrExt ''AccAddressFromBech32'') else
      if length (mr_Nonces msg) < 1 then Err ErrInvalidRequest else
      if length (mr_Nonces msg) > 20 then Err ErrInvalidRequest else Ok ())"

definition MsgRegisterFeeSplit_GetSigners :: "bech32_ops \<Rightarrow> msg_register_fee \<Rightarrow> addr list outcome" where
  "MsgRegisterFeeSplit_GetSigners H msg = bindO (orPanic (AccAddressFromBech32 H (mr_DeployerAddress msg))) (\<lambda>from. Ok [from])"

definition NewMsgCancelFeeSplit :: "bech32_ops \<Rightarrow> eth_ops \<Rightarrow> addr \<Rightarrow> addr \<Rightarrow> msg_cancel_fee" where
  "NewMsgCancelFeeSplit H E contract deployer =
     \<lparr>mc_ContractAddress = addr_Hex E contract, mc_DeployerAddress = acc_String H deployer\<rparr>"

definition MsgCancelFeeSplit_ValidateBasic :: "bech32_ops \<Rightarrow> eth_ops \<Rightarrow> msg_cancel_fee \<Rightarrow> unit outcome" where
  "MsgCancelFeeSplit_ValidateBasic H E msg =
     (if AccAddressFromBech32 H (mc_DeployerAddress msg) = None then Err (ErrExt ''AccAddressFromBech32'') else
      if \<not> ValidateNonZeroAddress E (mc_ContractAddress msg) then Err (ErrExt ''ValidateNonZeroAddress'') else Ok ())"

definition MsgCancelFeeSplit_GetSigners :: "bech32_ops \<Rightarrow> msg_cancel_fee \<Rightarrow> addr list outcome" where
  "MsgCancelFeeSplit_GetSigners H msg = bindO (orPanic (AccAddressFromBech32 H (mc_DeployerAddress msg))) (\<lambda>funder. Ok [funder])"

definition NewMsgUpdateFeeSplit :: "bech32_ops \<Rightarrow> eth_ops \<Rightarrow> addr \<Rightarrow> addr \<Rightarrow> addr \<Rightarrow> msg_update_fee" where
  "NewMsgUpdateFeeSplit H E contract deployer withdraw =
     \<lparr>mu_ContractAddress = addr_Hex E contract, mu_DeployerAddress = acc_String H deployer,
      mu_WithdrawerAddress = acc_String H withdraw\<rparr>"

definition MsgUpdateFeeSplit_ValidateBasic :: "bech32_ops \<Rightarrow> eth_ops \<Rightarrow> msg_update_fee \<Rightarrow> unit outcome" where
  "MsgUpdateFeeSplit_ValidateBasic H E msg =
     (if AccAddressFromBech32 H (mu_DeployerAddress msg) = None then Err (ErrExt ''AccAddressFromBech32'') else
      if \<not> ValidateNonZeroAddress E (mu_ContractAddress msg) then Err (ErrExt ''ValidateNonZeroAddress'') else
      if AccAddressFromBech32 H (mu_WithdrawerAddress msg) = None then Err (ErrExt ''AccAddressFromBech32'') else Ok ())"

definition MsgUpdateFeeSplit_GetSigners :: "bech32_ops \<Rightarrow> msg_update_fee \<Rightarrow> addr list outcome" where
  "MsgUpdateFeeSplit_GetSigners H msg = bindO (orPanic (AccAddressFromBech32 H (mu_DeployerAddress msg))) (\<lambda>from. Ok [from])"

section \<open>The stores\<close>

text \<open>The two indexes hold the byte 1 under an account address followed by a contract address.\<close>

record 'x fee_state =
  f_params :: fee_params
  f_splits :: "fee_split kv"
  f_deployers :: "unit kv"
  f_withdrawers :: "unit kv"
  f_ext :: 'x

definition GetFeeSplits :: "'x fee_state \<Rightarrow> fee_split list" where
  "GetFeeSplits s = map snd (f_splits s)"

definition GetFeeSplit :: "'x fee_state \<Rightarrow> addr \<Rightarrow> fee_split option" where
  "GetFeeSplit s contract = kv_get (f_splits s) contract"

definition SetFeeSplit :: "eth_ops \<Rightarrow> fee_split \<Rightarrow> 'x fee_state \<Rightarrow> 'x fee_state" where
  "SetFeeSplit E feeSplit s = s\<lparr>f_splits := kv_set (f_splits s) (GetContractAddr E feeSplit) feeSplit\<rparr>"

definition DeleteFeeSplit :: "eth_ops \<Rightarrow> fee_split \<Rightarrow> 'x fee_state \<Rightarrow> 'x fee_state" where
  "DeleteFeeSplit E fee s = s\<lparr>f_splits := kv_del (f_splits s) (GetContractAddr E fee)\<rparr>"

definition SetDeployerMap :: "addr \<Rightarrow> addr \<Rightarrow> 'x fee_state \<Rightarrow> 'x fee_state" where
  "SetDeployerMap deployer contract s = s\<lparr>f_deployers := kv_set (f_deployers s) (deployer @ contract) ()\<rparr>"

definition DeleteDeployerMap :: "addr \<Rightarrow> addr \<Rightarrow> 'x fee_state \<Rightarrow> 'x fee_state" where
  "DeleteDeployerMap deployer contract s = s\<lparr>f_deployers := kv_del (f_deployers s) (deployer @ contract)\<rparr>"

definition SetWithdrawerMap :: "addr \<Rightarrow> addr \<Rightarrow> 'x fee_state \<Rightarrow> 'x fee_state" where
  "SetWithdrawerMap withdrawer contract s = s\<lparr>f_withdrawers := kv_set (f_withdrawers s) (withdrawer @ contract) ()\<rparr>"

definition DeleteWithdrawerMap :: "addr \<Rightarrow> addr \<Rightarrow> 'x fee_state \<Rightarrow> 'x fee_state" where
  "DeleteWithdrawerMap withdrawer contract s = s\<lparr>f_withdrawers := kv_del (f_withdrawers s) (withdrawer @ contract)\<rparr>"

definition IsFeeSplitRegistered :: "'x fee_state \<Rightarrow> addr \<Rightarrow> bool" where
  "IsFeeSplitRegistered s contract = kv_has (f_splits s) contract"

definition IsDeployerMapSet :: "'x fee_state \<Rightarrow> addr \<Rightarrow> addr \<Rightarrow> bool" where
  "IsDeployerMapSet s deployer contract = kv_has (f_deployers s) (deployer @ contract)"

definition IsWithdrawerMapSet :: "'x fee_state \<Rightarrow> addr \<Rightarrow> addr \<Rightarrow> bool" where
  "IsWithdrawerMapSet s withdrawer contract = kv_has (f_withdrawers s) (withdrawer @ contract)"

section \<open>The message server\<close>

fun derive_contract :: "'x fee_keepers \<Rightarrow> 64 word \<Rightarrow> addr \<Rightarrow> 64 word list \<Rightarrow> ('x, addr) cmd" where
  "derive_contract K cost derivedContract [] x = (Ok derivedContract, x)"
| "derive_contract K cost derivedContract (nonce # nonces) x =
     (case fk_ConsumeGas K cost x of
        (Ok _, x) \<Rightarrow> derive_contract K cost (CreateAddress (fk_E K) derivedContract (uint nonce)) nonces x
      | (Err e, x) \<Rightarrow> (Err e, x)
      | (Panic, x) \<Rightarrow> (Panic, x))"

definition RegisterFeeSplit :: "'x fee_keepers \<Rightarrow> msg_register_fee \<Rightarrow> ('x fee_state, unit) cmd" where
  "RegisterFeeSplit K msg s =
     (let params = f_params s; contract = HexToAddress (fk_E K) (mr_ContractAddress msg) in
      if \<not> EnableFeeSplit params then (Err ErrFeeSplitDisabled, s) else
      if IsFeeSplitRegistered s contract then (Err ErrFeeSplitAlreadyRegistered, s) else
      case AccAddressFromBech32 (fk_H K) (mr_DeployerAddress msg) of
        None \<Rightarrow> (Panic, s)
      | Some deployer \<Rightarrow>
          (case evm_IsContract (fk_V K) (f_ext s) (BytesToAddress (fk_E K) deployer) of
             None \<Rightarrow> (Err ErrNotFound, s)
           | Some True \<Rightarrow> (Err ErrFeeSplitDeployerIsNotEOA, s)
           | Some False \<Rightarrow>
               if evm_IsContract (fk_V K) (f_ext s) contract \<noteq> Some True then (Err ErrFeeSplitNoContractDeployed, s) else
               (case (if mr_WithdrawerAddress msg \<noteq> [] \<and> mr_WithdrawerAddress msg \<noteq> mr_DeployerAddress msg
                      then AccAddressFromBech32 (fk_H K) (mr_WithdrawerAddress msg) else Some []) of
                  None \<Rightarrow> (Panic, s)
                | Some withdrawer \<Rightarrow>
                    (case derive_contract K (AddrDerivationCostCreate params) (BytesToAddress (fk_E K) deployer) (mr_Nonces msg) (f_ext s) of
                       (Panic, x) \<Rightarrow> (Panic, s\<lparr>f_ext := x\<rparr>)
                     | (Err e, x) \<Rightarrow> (Err e, s\<lparr>f_ext := x\<rparr>)
                     | (Ok derivedContract, x) \<Rightarrow>
                         let s = s\<lparr>f_ext := x\<rparr> in
                         if contract \<noteq> derivedContract then (Err ErrInvalidSigner, s) else
                         let s = SetDeployerMap deployer contract
                                   (SetFeeSplit (fk_E K) (NewFeeSplit (fk_H K) (fk_E K) contract deployer withdrawer) s) in
                         (Ok (), if withdrawer \<noteq> [] then SetWithdrawerMap withdrawer contract s else s)))))"

definition UpdateFeeSplit :: "'x fee_keepers \<Rightarrow> msg_update_fee \<Rightarrow> ('x fee_state, unit) cmd" where
  "UpdateFeeSplit K msg s =
     (let contract = HexToAddress (fk_E K) (mu_ContractAddress msg) in
      if \<not> EnableFeeSplit (f_params s) then (Err ErrFeeSplitDisabled, s) else
      case GetFeeSplit s contract of
        None \<Rightarrow> (Err ErrFeeSplitContractNotRegistered, s)
      | Some feeSplit \<Rightarrow>
          if mu_DeployerAddress msg \<noteq> fs_DeployerAddress feeSplit then (Err ErrUnauthorized, s) else
          let withdrawer = (if mu_WithdrawerAddress msg = fs_DeployerAddress feeSplit then [] else mu_WithdrawerAddress msg) in
          if withdrawer = fs_WithdrawerAddress feeSplit then (Err ErrFeeSplitAlreadyRegistered, s) else
          bindS (\<lambda>s. if fs_WithdrawerAddress feeSplit \<noteq> [] then
                       (case AccAddressFromBech32 (fk_H K) (fs_WithdrawerAddress feeSplit) of
                          None \<Rightarrow> (Panic, s)
                        | Some old \<Rightarrow> (Ok (), DeleteWithdrawerMap old contract s))
                     else (Ok (), s)) (\<lambda>_.
          bindS (\<lambda>s. if withdrawer \<noteq> [] then
                       (case AccAddressFromBech32 (fk_H K) withdrawer of
                          None \<Rightarrow> (Panic, s)
                        | Some new \<Rightarrow> (Ok (), SetWithdrawerMap new contract s))
                     else (Ok (), s)) (\<lambda>_ s.
          (Ok (), SetFeeSplit (fk_E K) (feeSplit\<lparr>fs_WithdrawerAddress := withdrawer\<rparr>) s))) s)"

definition CancelFeeSplit :: "'x fee_keepers \<Rightarrow> msg_cancel_fee \<Rightarrow> ('x fee_state, unit) cmd" where
  "CancelFeeSplit K msg s =
     (let contract = HexToAddress (fk_E K) (mc_ContractAddress msg) in
      if \<not> EnableFeeSplit (f_params s) then (Err ErrFeeSplitDisabled, s) else
      case GetFeeSplit s contract of
        None \<Rightarrow> (Err ErrFeeSplitContractNotRegistered, s)
      | Some fee \<Rightarrow>
          if mc_DeployerAddress msg \<noteq> fs_DeployerAddress fee then (Err ErrUnauthorized, s) else
          let s = DeleteFeeSplit (fk_E K) fee s in
          (case GetDeployerAddr (fk_H K) fee of
             Ok deployer \<Rightarrow>
               let s = DeleteDeployerMap deployer contract s in
               if fs_WithdrawerAddress fee = [] then (Ok (), s) else
               (case GetWithdrawerAddr (fk_H K) fee of
                  Ok withdrawer \<Rightarrow> (Ok (), DeleteWithdrawerMap withdrawer contract s)
                | _ \<Rightarrow> (Panic, s))
           | _ \<Rightarrow> (Panic, s)))"

section \<open>The EVM hook\<close>

definition developerFee :: "dec_ops \<Rightarrow> fee_params \<Rightarrow> 64 word \<Rightarrow> int \<Rightarrow> int" where
  "developerFee F params gasUsed gasPrice =
     (let txFee = uint gasUsed * gasPrice in dec_TruncateInt F (dec_Mul F (NewDec txFee) (DeveloperShares params)))"

definition fee_PostTxProcessing ::
  "'x fee_keepers \<Rightarrow> addr option \<Rightarrow> 64 word \<Rightarrow> int \<Rightarrow> ('x fee_state, unit) cmd" where
  "fee_PostTxProcessing K to gasUsed gasPrice s =
     (if \<not> EnableFeeSplit (f_params s) then (Ok (), s) else
      case to of
        None \<Rightarrow> (Ok (), s)
      | Some contract \<Rightarrow>
          (case GetFeeSplit s contract of
             None \<Rightarrow> (Ok (), s)
           | Some feeSplit \<Rightarrow>
               (case bindO (GetWithdrawerAddr (fk_H K) feeSplit)
                       (\<lambda>withdrawer. if withdrawer = [] then GetDeployerAddr (fk_H K) feeSplit else Ok withdrawer) of
                  Panic \<Rightarrow> (Panic, s)
                | Err e \<Rightarrow> (Err e, s)
                | Ok withdrawer \<Rightarrow>
                    let fees = [\<lparr>Denom = EvmDenom (fk_V K) (f_ext s), Amt = developerFee (fk_F K) (f_params s) gasUsed gasPrice\<rparr>] in
                    (case SendCoinsFromModuleToAccount (fk_B K) (feeCollectorName K) withdrawer fees (f_ext s) of
                       (r, x) \<Rightarrow> (r, s\<lparr>f_ext := x\<rparr>)))))"

section \<open>Genesis and queries\<close>

definition fee_SetParams :: "fee_params \<Rightarrow> 'x fee_state \<Rightarrow> 'x fee_state" where
  "fee_SetParams params s = s\<lparr>f_params := params\<rparr>"

fun init_fee_splits :: "bech32_ops \<Rightarrow> eth_ops \<Rightarrow> fee_split list \<Rightarrow> ('x fee_state, unit) cmd" where
  "init_fee_splits H E [] s = (Ok (), s)"
| "init_fee_splits H E (feeSplit # feeSplits) s =
     (let contract = GetContractAddr E feeSplit in
      case bindO (GetDeployerAddr H feeSplit) (\<lambda>deployer. bindO (GetWithdrawerAddr H feeSplit) (\<lambda>withdrawer. Ok (deployer, withdrawer))) of
        Panic \<Rightarrow> (Panic, s)
      | Err e \<Rightarrow> (Err e, s)
      | Ok (deployer, withdrawer) \<Rightarrow>
          let s = SetDeployerMap deployer contract (SetFeeSplit E feeSplit s) in
          init_fee_splits H E feeSplits (if withdrawer \<noteq> [] then SetWithdrawerMap withdrawer contract s else s))"

definition fee_InitGenesis :: "bech32_ops \<Rightarrow> eth_ops \<Rightarrow> fee_genesis \<Rightarrow> ('x fee_state, unit) cmd" where
  "fee_InitGenesis H E data s = init_fee_splits H E (fg_FeeSplits data) (fee_SetParams (fg_Params data) s)"

definition fee_ExportGenesis :: "'x fee_state \<Rightarrow> fee_genesis" where
  "fee_ExportGenesis s = \<lparr>fg_Params = f_params s, fg_FeeSplits = GetFeeSplits s\<rparr>"

definition FeeSplit_query :: "eth_ops \<Rightarrow> 'x fee_state \<Rightarrow> string option \<Rightarrow> fee_split outcome" where
  "FeeSplit_query E s req =
     (case req of
        None \<Rightarrow> Err ErrInvalidArgument
      | Some contract \<Rightarrow>
          if blank contract then Err ErrInvalidArgument else
          if \<not> ValidateNonZeroAddress E contract then Err ErrInvalidArgument else
          (case GetFeeSplit s (HexToAddress E contract) of None \<Rightarrow> Err ErrNotFound | Some fs \<Rightarrow> Ok fs))"

end
