(* ===== verification/Feesplit_Registry.thy ===== *)
theory Feesplit_Registry
  imports Feesplit
begin

text \<open>
  \<open>x/feesplit\<close>: over every run the deployer and the withdrawer index list exactly the registered
  contracts, so that an exported genesis restores the module; and what the hook pays.
\<close>

section \<open>The indexes\<close>

text \<open>The keys of an index, for the address field \<open>f\<close> of the registered splits.\<close>

definition index_keys :: "bech32_ops \<Rightarrow> (fee_split \<Rightarrow> string) \<Rightarrow> fee_split kv \<Rightarrow> bytes set" where
  "index_keys H f m = {a @ c | a c fs. kv_get m c = Some fs \<and> AccAddressFromBech32 H (f fs) = Some a}"

definition own_keys :: "bech32_ops \<Rightarrow> (fee_split \<Rightarrow> string) \<Rightarrow> addr \<Rightarrow> fee_split \<Rightarrow> bytes set" where
  "own_keys H f c fs = {a @ c | a. AccAddressFromBech32 H (f fs) = Some a}"

definition split_ok :: "bech32_ops \<Rightarrow> eth_ops \<Rightarrow> addr \<Rightarrow> fee_split \<Rightarrow> bool" where
  "split_ok H E c fs \<longleftrightarrow> length c = 20 \<and> GetContractAddr E fs = c \<and> AccAddressFromBech32 H (fs_DeployerAddress fs) \<noteq> None \<and>
     (fs_WithdrawerAddress fs \<noteq> [] \<longrightarrow> AccAddressFromBech32 H (fs_WithdrawerAddress fs) \<noteq> None)"

definition fee_ok :: "'x fee_keepers \<Rightarrow> 'x fee_state \<Rightarrow> bool" where
  "fee_ok K s \<longleftrightarrow> kv_ok (f_splits s) \<and> kv_ok (f_deployers s) \<and> kv_ok (f_withdrawers s) \<and>
     (\<forall>c fs. kv_get (f_splits s) c = Some fs \<longrightarrow> split_ok (fk_H K) (fk_E K) c fs) \<and>
     fst ` set (f_deployers s) = index_keys (fk_H K) fs_DeployerAddress (f_splits s) \<and>
     fst ` set (f_withdrawers s) = index_keys (fk_H K) fs_WithdrawerAddress (f_splits s)"

text \<open>Adding a split for a contract that has none, as a registration and the genesis import do.\<close>

definition add_split :: "eth_ops \<Rightarrow> fee_split \<Rightarrow> addr \<Rightarrow> addr \<Rightarrow> addr \<Rightarrow> 'x fee_state \<Rightarrow> 'x fee_state" where
  "add_split E fs c d w s =
     (let s = SetDeployerMap d c (SetFeeSplit E fs s) in if w \<noteq> [] then SetWithdrawerMap w c s else s)"

lemma split_payee:
  assumes "split_ok H E c fs"
  shows "\<exists>w. if fs_WithdrawerAddress fs = [] then w = [] else AccAddressFromBech32 H (fs_WithdrawerAddress fs) = Some w"
  using assms by (cases "fs_WithdrawerAddress fs = []") (auto simp: split_ok_def)

lemma fee_okD:
  assumes "fee_ok K s"
  shows "kv_ok (f_splits s)" and "kv_ok (f_deployers s)" and "kv_ok (f_withdrawers s)"
    and "kv_get (f_splits s) c = Some fs \<Longrightarrow> split_ok (fk_H K) (fk_E K) c fs"
    and "fst ` set (f_deployers s) = index_keys (fk_H K) fs_DeployerAddress (f_splits s)"
    and "fst ` set (f_withdrawers s) = index_keys (fk_H K) fs_WithdrawerAddress (f_splits s)"
  using assms by (auto simp: fee_ok_def)

lemma fee_ok_cong:
  "f_splits t = f_splits s \<Longrightarrow> f_deployers t = f_deployers s \<Longrightarrow> f_withdrawers t = f_withdrawers s \<Longrightarrow> fee_ok K t = fee_ok K s"
  by (simp add: fee_ok_def)

lemma same_end: "length c = 20 \<Longrightarrow> length c' = 20 \<Longrightarrow> a @ c = b @ c' \<longleftrightarrow> a = b \<and> c = (c' :: bytes)"
  by auto

lemma index_del:
  assumes len: "\<forall>c fs. kv_get m c = Some fs \<longrightarrow> length c = 20" and c: "kv_get m c = Some fs"
  shows "index_keys H f (kv_del m c) = index_keys H f m - own_keys H f c fs"
proof -
  have "a @ c' \<noteq> b @ c" if "kv_get m c' = Some g" "c' \<noteq> c" for a b c' g
    using that len c same_end [of c' c a b] by blast
  then show ?thesis
    using c by (auto simp: index_keys_def own_keys_def kv_simps split: if_splits) (metis option.inject)
qed

lemma index_set: "index_keys H f (kv_set m c fs) = index_keys H f (kv_del m c) \<union> own_keys H f c fs"
  by (auto simp: index_keys_def own_keys_def kv_simps split: if_splits)

lemma index_fresh:
  assumes "kv_get m c = None"
  shows "index_keys H f (kv_del m c) = index_keys H f m"
proof -
  have "kv_get (kv_del m c) = kv_get m" using assms by (auto simp: kv_simps)
  then show ?thesis by (simp add: index_keys_def)
qed

lemma index_mem:
  assumes len: "\<forall>c fs. kv_get m c = Some fs \<longrightarrow> length c = 20" and c: "length c = 20"
  shows "a @ c \<in> index_keys H f m \<longleftrightarrow> (\<exists>fs. kv_get m c = Some fs \<and> AccAddressFromBech32 H (f fs) = Some a)"
proof
  assume "a @ c \<in> index_keys H f m"
  then obtain b c' fs where "a @ c = b @ c'" and fs: "kv_get m c' = Some fs" "AccAddressFromBech32 H (f fs) = Some b"
    by (auto simp: index_keys_def)
  moreover have "length c' = 20" using len fs by blast
  ultimately show "\<exists>fs. kv_get m c = Some fs \<and> AccAddressFromBech32 H (f fs) = Some a" using same_end [OF c] by blast
qed (auto simp: index_keys_def)

text \<open>What the module relies on of bech32 addresses.\<close>

locale bech32_laws =
  fixes H :: bech32_ops
  assumes parse_String: "AccAddressFromBech32 H s = Some a \<Longrightarrow> AccAddressFromBech32 H (acc_String H a) = Some a"
    and parse_nonempty: "AccAddressFromBech32 H s = Some a \<Longrightarrow> a \<noteq> []"
    and parse_empty: "AccAddressFromBech32 H [] = None"

interpretation stdb: bech32_laws std_bech32
  by unfold_locales (simp_all add: std_bech32_def split: if_splits)

locale fee_laws = keeper_laws "fk_C K" "fk_A K" "fk_B K" D reg + dec_laws "fk_F K" + eth_laws "fk_E K" + bech32_laws "fk_H K"
  for K :: "'x fee_keepers" and D :: "'x distr_ops" and reg :: "string set" +
  assumes collector_registered: "feeCollectorName K \<in> reg"
begin

abbreviation "parse \<equiv> AccAddressFromBech32 (fk_H K)"
abbreviation "dkeys \<equiv> index_keys (fk_H K) fs_DeployerAddress"
abbreviation "wkeys \<equiv> index_keys (fk_H K) fs_WithdrawerAddress"

lemma splits_len: "fee_ok K s \<Longrightarrow> \<forall>c fs. kv_get (f_splits s) c = Some fs \<longrightarrow> length c = 20"
  using fee_okD(4) by (fastforce simp: split_ok_def)

lemma add_split_ok:
  assumes ok: "fee_ok K s" and fresh: "kv_get (f_splits s) c = None" and fs: "split_ok (fk_H K) (fk_E K) c fs"
    and d: "parse (fs_DeployerAddress fs) = Some d"
    and w: "if fs_WithdrawerAddress fs = [] then w = [] else parse (fs_WithdrawerAddress fs) = Some w"
  shows "fee_ok K (add_split (fk_E K) fs c d w s)" and "kv_get (f_splits (add_split (fk_E K) fs c d w s)) c' = (if c' = c then Some fs else kv_get (f_splits s) c')"
    and "f_params (add_split (fk_E K) fs c d w s) = f_params s" and "f_ext (add_split (fk_E K) fs c d w s) = f_ext s"
proof -
  let ?t = "add_split (fk_E K) fs c d w s"
  have c: "length c = 20" "GetContractAddr (fk_E K) fs = c" using fs by (simp_all add: split_ok_def)
  have sel: "f_splits ?t = kv_set (f_splits s) c fs" "f_deployers ?t = kv_set (f_deployers s) (d @ c) ()"
    "f_withdrawers ?t = (if w \<noteq> [] then kv_set (f_withdrawers s) (w @ c) () else f_withdrawers s)"
    by (simp_all add: add_split_def Let_def SetDeployerMap_def SetFeeSplit_def SetWithdrawerMap_def c)
  have own: "own_keys (fk_H K) fs_DeployerAddress c fs = {d @ c}"
    "own_keys (fk_H K) fs_WithdrawerAddress c fs = (if w \<noteq> [] then {w @ c} else {})"
    using d w parse_empty parse_nonempty by (auto simp: own_keys_def split: if_splits)
  note keys = index_set [of _ _ "f_splits s" c fs, unfolded index_fresh [OF fresh]]
  show "fee_ok K ?t"
    using fee_okD [OF ok] fs by (auto simp: fee_ok_def sel kv_simps kv_ok_set keys own split: if_splits)
  show "kv_get (f_splits ?t) c' = (if c' = c then Some fs else kv_get (f_splits s) c')" by (simp add: sel kv_simps)
  show "f_params ?t = f_params s" "f_ext ?t = f_ext s"
    by (simp_all add: add_split_def Let_def SetDeployerMap_def SetFeeSplit_def SetWithdrawerMap_def)
qed

lemma RegisterFeeSplit_ok:
  assumes ok: "fee_ok K s" and run: "RegisterFeeSplit K msg s = (Ok (), s')"
  shows "fee_ok K s'"
proof -
  let ?c = "HexToAddress (fk_E K) (mr_ContractAddress msg)"
  define ow where "ow = (if mr_WithdrawerAddress msg \<noteq> [] \<and> mr_WithdrawerAddress msg \<noteq> mr_DeployerAddress msg
    then parse (mr_WithdrawerAddress msg) else Some [])"
  note reg = run [unfolded RegisterFeeSplit_def Let_def, folded ow_def]
  obtain d where d: "parse (mr_DeployerAddress msg) = Some d" and fresh: "kv_get (f_splits s) ?c = None"
    using reg by (auto simp: IsFeeSplitRegistered_def kv_has_def split: if_splits option.splits)
  have acc: "evm_IsContract (fk_V K) (f_ext s) (BytesToAddress (fk_E K) d) = Some False" "evm_IsContract (fk_V K) (f_ext s) ?c = Some True"
    using reg d by (auto split: if_splits option.splits bool.splits)
  obtain w where w: "ow = Some w" using reg d acc by (cases ow) (auto split: if_splits)
  obtain dc x where x: "derive_contract K (AddrDerivationCostCreate (f_params s)) (BytesToAddress (fk_E K) d) (mr_Nonces msg) (f_ext s) = (Ok dc, x)"
    using reg d w acc by (auto split: if_splits prod.splits outcome.splits)
  have s': "s' = add_split (fk_E K) (NewFeeSplit (fk_H K) (fk_E K) ?c d w) ?c d w (s\<lparr>f_ext := x\<rparr>)"
    using reg d w acc x by (auto simp: add_split_def Let_def split: if_splits)
  have dw: "parse (acc_String (fk_H K) d) = Some d" using d by (rule parse_String)
  have ww: "parse (acc_String (fk_H K) w) = Some w" "acc_String (fk_H K) w \<noteq> []" if "w \<noteq> []"
  proof -
    have "parse (mr_WithdrawerAddress msg) = Some w" using w that unfolding ow_def by (auto split: if_splits)
    then show "parse (acc_String (fk_H K) w) = Some w" by (rule parse_String)
    then show "acc_String (fk_H K) w \<noteq> []" using parse_empty by auto
  qed
  have ok': "fee_ok K (s\<lparr>f_ext := x\<rparr>)" using ok by (simp add: fee_ok_cong [of "s\<lparr>f_ext := x\<rparr>" s])
  show ?thesis unfolding s'
    by (rule add_split_ok(1) [OF ok'])
      (use fresh dw ww in \<open>auto simp: split_ok_def NewFeeSplit_def GetContractAddr_def Hex_inv HexTo_len\<close>)
qed

lemma CancelFeeSplit_ok:
  assumes ok: "fee_ok K s" and run: "CancelFeeSplit K msg s = (Ok (), s')"
  shows "fee_ok K s'"
proof -
  let ?c = "HexToAddress (fk_E K) (mc_ContractAddress msg)"
  from run obtain fs where fs: "kv_get (f_splits s) ?c = Some fs"
    by (auto simp: CancelFeeSplit_def Let_def GetFeeSplit_def split: if_splits option.splits)
  note sok = fee_okD(4) [OF ok fs]
  obtain d where d: "parse (fs_DeployerAddress fs) = Some d" using sok by (auto simp: split_ok_def)
  obtain w where w: "if fs_WithdrawerAddress fs = [] then w = [] else parse (fs_WithdrawerAddress fs) = Some w"
    using split_payee [OF sok] by blast
  have sel: "f_splits s' = kv_del (f_splits s) ?c" "f_deployers s' = kv_del (f_deployers s) (d @ ?c)"
    "f_withdrawers s' = (if w \<noteq> [] then kv_del (f_withdrawers s) (w @ ?c) else f_withdrawers s)"
    using run fs d w sok parse_nonempty
    by (auto simp: CancelFeeSplit_def Let_def GetFeeSplit_def GetDeployerAddr_def GetWithdrawerAddr_def orPanic_def split_ok_def
        DeleteFeeSplit_def DeleteDeployerMap_def DeleteWithdrawerMap_def split: if_splits)
  have own: "own_keys (fk_H K) fs_DeployerAddress ?c fs = {d @ ?c}"
    "own_keys (fk_H K) fs_WithdrawerAddress ?c fs = (if w \<noteq> [] then {w @ ?c} else {})"
    using d w parse_empty parse_nonempty by (auto simp: own_keys_def split: if_splits)
  show ?thesis
    using fee_okD [OF ok] by (auto simp: fee_ok_def sel kv_simps kv_ok_del index_del [OF splits_len [OF ok] fs] own split: if_splits)
qed

lemma UpdateFeeSplit_ok:
  assumes ok: "fee_ok K s" and run: "UpdateFeeSplit K msg s = (Ok (), s')"
  shows "fee_ok K s'"
proof -
  let ?c = "HexToAddress (fk_E K) (mu_ContractAddress msg)"
  from run obtain fs where fs: "kv_get (f_splits s) ?c = Some fs"
    by (auto simp: UpdateFeeSplit_def Let_def GetFeeSplit_def split: if_splits option.splits)
  note sok = fee_okD(4) [OF ok fs]
  define new where "new = (if mu_WithdrawerAddress msg = fs_DeployerAddress fs then [] else mu_WithdrawerAddress msg)"
  let ?fs = "fs\<lparr>fs_WithdrawerAddress := new\<rparr>"
  obtain w where w: "if fs_WithdrawerAddress fs = [] then w = [] else parse (fs_WithdrawerAddress fs) = Some w"
    using split_payee [OF sok] by blast
  have up: "bindS (\<lambda>s. if fs_WithdrawerAddress fs \<noteq> [] then
         (case parse (fs_WithdrawerAddress fs) of None \<Rightarrow> (Panic, s) | Some old \<Rightarrow> (Ok (), DeleteWithdrawerMap old ?c s)) else (Ok (), s)) (\<lambda>_.
      bindS (\<lambda>s. if new \<noteq> [] then
         (case parse new of None \<Rightarrow> (Panic, s) | Some new \<Rightarrow> (Ok (), SetWithdrawerMap new ?c s)) else (Ok (), s)) (\<lambda>_ s.
      (Ok (), SetFeeSplit (fk_E K) ?fs s))) s = (Ok (), s')"
    using run fs by (simp add: UpdateFeeSplit_def GetFeeSplit_def Let_def flip: new_def split: if_splits)
  obtain v where v: "if new = [] then v = [] else parse new = Some v"
    using up by (cases "new = []") (auto simp: bindS_Ok_iff split: option.splits)
  have c: "GetContractAddr (fk_E K) ?fs = ?c" using sok by (simp add: split_ok_def GetContractAddr_def)
  have sel: "f_splits s' = kv_set (f_splits s) ?c ?fs" "f_deployers s' = f_deployers s"
    "f_withdrawers s' = (let m = (if w = [] then f_withdrawers s else kv_del (f_withdrawers s) (w @ ?c)) in
       if v = [] then m else kv_set m (v @ ?c) ())"
    using up w v c parse_nonempty
    by (auto simp: bindS_Ok_iff SetFeeSplit_def DeleteWithdrawerMap_def SetWithdrawerMap_def Let_def split: if_splits option.splits)
  have own: "own_keys (fk_H K) fs_DeployerAddress ?c ?fs = own_keys (fk_H K) fs_DeployerAddress ?c fs"
    "own_keys (fk_H K) fs_WithdrawerAddress ?c fs = (if w = [] then {} else {w @ ?c})"
    "own_keys (fk_H K) fs_WithdrawerAddress ?c ?fs = (if v = [] then {} else {v @ ?c})"
    using w v parse_empty parse_nonempty by (auto simp: own_keys_def split: if_splits)
  have "own_keys (fk_H K) fs_DeployerAddress ?c fs \<subseteq> dkeys (f_splits s)" using fs by (auto simp: own_keys_def index_keys_def)
  then have keys: "dkeys (f_splits s') = dkeys (f_splits s)"
    "wkeys (f_splits s') = wkeys (f_splits s) - (if w = [] then {} else {w @ ?c}) \<union> (if v = [] then {} else {v @ ?c})"
    by (auto simp: sel(1) index_set index_del [OF splits_len [OF ok] fs] own)
  have "split_ok (fk_H K) (fk_E K) ?c ?fs" using sok v c by (auto simp: split_ok_def split: if_splits)
  then show ?thesis
    using fee_okD [OF ok] unfolding fee_ok_def keys
    by (auto simp: sel kv_simps kv_ok_set kv_ok_del Let_def split: if_splits)
qed

lemma init_fee_splits_ok:
  assumes "fee_ok K s" and "\<And>fs. fs \<in> set fss \<Longrightarrow> split_ok (fk_H K) (fk_E K) (GetContractAddr (fk_E K) fs) fs"
    and "distinct (map (GetContractAddr (fk_E K)) fss)" and "\<And>fs. fs \<in> set fss \<Longrightarrow> kv_get (f_splits s) (GetContractAddr (fk_E K) fs) = None"
  shows "\<exists>s'. init_fee_splits (fk_H K) (fk_E K) fss s = (Ok (), s') \<and> fee_ok K s' \<and> f_params s' = f_params s \<and> f_ext s' = f_ext s \<and>
    (\<forall>c. kv_get (f_splits s') c = (case map_of (map (\<lambda>fs. (GetContractAddr (fk_E K) fs, fs)) fss) c of None \<Rightarrow> kv_get (f_splits s) c | Some fs \<Rightarrow> Some fs))"
  using assms
proof (induction fss arbitrary: s)
  case (Cons fs fss)
  let ?c = "GetContractAddr (fk_E K) fs"
  have sok: "split_ok (fk_H K) (fk_E K) ?c fs" and fresh: "kv_get (f_splits s) ?c = None" using Cons.prems by simp_all
  obtain d where d: "parse (fs_DeployerAddress fs) = Some d" using sok by (auto simp: split_ok_def)
  obtain w where w: "if fs_WithdrawerAddress fs = [] then w = [] else parse (fs_WithdrawerAddress fs) = Some w"
    using split_payee [OF sok] by blast
  note add = add_split_ok [OF Cons.prems(1) fresh sok d w]
  have run: "init_fee_splits (fk_H K) (fk_E K) (fs # fss) s = init_fee_splits (fk_H K) (fk_E K) fss (add_split (fk_E K) fs ?c d w s)"
    using d w by (auto simp: GetDeployerAddr_def GetWithdrawerAddr_def orPanic_def add_split_def Let_def split: if_splits)
  have new: "kv_get (f_splits (add_split (fk_E K) fs ?c d w s)) (GetContractAddr (fk_E K) g) = None" if "g \<in> set fss" for g
  proof -
    have "GetContractAddr (fk_E K) g \<noteq> ?c" using Cons.prems(3) that by simp (metis imageI)
    then show ?thesis using Cons.prems(4) [of g] that by (simp add: add(2))
  qed
  obtain s' where s': "init_fee_splits (fk_H K) (fk_E K) fss (add_split (fk_E K) fs ?c d w s) = (Ok (), s')" "fee_ok K s'"
      "f_params s' = f_params s" "f_ext s' = f_ext s"
      "\<And>c. kv_get (f_splits s') c = (case map_of (map (\<lambda>fs. (GetContractAddr (fk_E K) fs, fs)) fss) c of
         None \<Rightarrow> kv_get (f_splits (add_split (fk_E K) fs ?c d w s)) c | Some fs \<Rightarrow> Some fs)"
    using Cons.IH [OF add(1) _ _ new] Cons.prems(2,3) add(3,4) by auto
  have "map_of (map (\<lambda>fs. (GetContractAddr (fk_E K) fs, fs)) fss) ?c = None"
    using Cons.prems(3) by (simp add: map_of_eq_None_iff image_image comp_def)
  then show ?case unfolding run using s' by (intro exI [of _ s']) (auto simp: add(2) split: option.splits)
qed simp

lemma export_import:
  assumes ok: "fee_ok K s" and s0: "f_splits s0 = []" "f_deployers s0 = []" "f_withdrawers s0 = []" "f_ext s0 = f_ext s"
  shows "fee_InitGenesis (fk_H K) (fk_E K) (fee_ExportGenesis s) s0 = (Ok (), s)"
proof -
  let ?s = "fee_SetParams (f_params s) s0"
  have ok0: "fee_ok K ?s" using s0 by (simp add: fee_ok_def fee_SetParams_def index_keys_def kv_get_def)
  have mem: "fs \<in> set (GetFeeSplits s) \<Longrightarrow> \<exists>c. kv_get (f_splits s) c = Some fs" for fs
    using kv_get_mem [OF fee_okD(1) [OF ok]] by (force simp: GetFeeSplits_def)
  have sok: "split_ok (fk_H K) (fk_E K) (GetContractAddr (fk_E K) fs) fs" if "fs \<in> set (GetFeeSplits s)" for fs
    using mem [OF that] fee_okD(4) [OF ok] by (auto simp: split_ok_def)
  have pairs: "map (\<lambda>fs. (GetContractAddr (fk_E K) fs, fs)) (GetFeeSplits s) = f_splits s"
    unfolding GetFeeSplits_def map_map
  proof (rule map_idI)
    fix e
    assume "e \<in> set (f_splits s)"
    then have "kv_get (f_splits s) (fst e) = Some (snd e)" using kv_get_mem [OF fee_okD(1) [OF ok]] by simp
    then show "((\<lambda>fs. (GetContractAddr (fk_E K) fs, fs)) \<circ> snd) e = e" using fee_okD(4) [OF ok] by (fastforce simp: split_ok_def intro: prod_eqI)
  qed
  have dist: "distinct (map (GetContractAddr (fk_E K)) (GetFeeSplits s))"
    using kv_ok_distinct [OF fee_okD(1) [OF ok]] arg_cong [OF pairs, of "map fst"] by (simp add: comp_def)
  obtain s' where s': "init_fee_splits (fk_H K) (fk_E K) (GetFeeSplits s) ?s = (Ok (), s')" "fee_ok K s'"
    "f_params s' = f_params s" "f_ext s' = f_ext s"
    "\<And>c. kv_get (f_splits s') c = (case map_of (f_splits s) c of None \<Rightarrow> kv_get (f_splits ?s) c | Some fs \<Rightarrow> Some fs)"
    using init_fee_splits_ok [OF ok0 sok dist] s0 unfolding pairs by (auto simp: fee_SetParams_def kv_get_def)
  have splits: "f_splits s' = f_splits s"
    by (rule kv.entries_eqI [OF fee_okD(1) [OF s'(2)] fee_okD(1) [OF ok]])
      (use s'(5) s0 in \<open>auto simp: fee_SetParams_def kv_get_def split: option.splits\<close>)
  have unit_eq: "m = m'" if "kv_ok m" "kv_ok m'" "fst ` set m = fst ` set m'" for m m' :: "unit kv"
    by (rule kv.entries_eqI [OF that(1,2)]) (metis that(3) kv_get_None old.unit.exhaust option.exhaust)
  have "f_deployers s' = f_deployers s"
    by (rule unit_eq [OF fee_okD(2) [OF s'(2)] fee_okD(2) [OF ok]]) (simp add: fee_okD(5) [OF ok] fee_okD(5) [OF s'(2)] splits)
  moreover have "f_withdrawers s' = f_withdrawers s"
    by (rule unit_eq [OF fee_okD(3) [OF s'(2)] fee_okD(3) [OF ok]]) (simp add: fee_okD(6) [OF ok] fee_okD(6) [OF s'(2)] splits)
  ultimately have "s' = s" using splits s'(3,4) by simp
  then show ?thesis using s'(1) by (simp add: fee_InitGenesis_def fee_ExportGenesis_def)
qed

lemma index_registered:
  assumes ok: "fee_ok K s" and c: "length c = 20"
  shows "IsDeployerMapSet s a c \<longleftrightarrow> (\<exists>fs. GetFeeSplit s c = Some fs \<and> GetDeployerAddr (fk_H K) fs = Ok a)"
    and "IsWithdrawerMapSet s a c \<longleftrightarrow>
      (\<exists>fs. GetFeeSplit s c = Some fs \<and> fs_WithdrawerAddress fs \<noteq> [] \<and> GetWithdrawerAddr (fk_H K) fs = Ok a)"
  using index_mem [OF splits_len [OF ok] c] fee_okD(5,6) [OF ok] parse_empty
  by (auto simp: IsDeployerMapSet_def IsWithdrawerMapSet_def kv_has_def kv_get_None GetFeeSplit_def GetDeployerAddr_def
      GetWithdrawerAddr_def orPanic_def split: option.splits)

text \<open>The hook with an address that receives the fees: the share is the truncated product of the fee and
  the developer shares.\<close>

lemma developerFee_eq:
  assumes "0 \<le> price" and "0 \<le> DeveloperShares p"
  shows "developerFee (fk_F K) p gas price = uint gas * price * DeveloperShares p div dec_one"
  using assms by (simp add: developerFee_def Let_def Mul_NewDec Truncate_floor)

lemma developerFee_le:
  assumes "0 \<le> price" and "0 \<le> DeveloperShares p" and "DeveloperShares p \<le> dec_one"
  shows "0 \<le> developerFee (fk_F K) p gas price" and "developerFee (fk_F K) p gas price \<le> uint gas * price"
proof -
  have fee: "0 \<le> uint gas * price" using assms(1) by simp
  show "0 \<le> developerFee (fk_F K) p gas price" using assms by (simp add: developerFee_eq pos_imp_zdiv_nonneg_iff)
  have "uint gas * price * DeveloperShares p \<le> uint gas * price * dec_one" using fee assms(3) by (rule mult_left_mono [rotated])
  then show "developerFee (fk_F K) p gas price \<le> uint gas * price"
    using zdiv_mono1 [of _ "uint gas * price * dec_one" dec_one] by (simp add: developerFee_eq assms)
qed

lemma zero_coin_invalid: "\<not> coins_IsValid (fk_C K) [oneCoin d 0]"
  using valid_no_amount [of "[oneCoin d 0]"] by (auto simp: amount_one)

end

section \<open>Runs\<close>

text \<open>
  A step of a chain: a message that passed its stateless checks, the hook after a transaction, a change
  of the parameters, or whatever else changes the rest of the state.  A message or a transaction that fails is
  undone as a whole.
\<close>

inductive fee_step :: "'x fee_keepers \<Rightarrow> 'x fee_state \<Rightarrow> 'x fee_state \<Rightarrow> bool" for K where
  register: "MsgRegisterFeeSplit_ValidateBasic (fk_H K) (fk_E K) m = Ok () \<Longrightarrow> RegisterFeeSplit K m s = (Ok (), s') \<Longrightarrow> fee_step K s s'"
| update: "MsgUpdateFeeSplit_ValidateBasic (fk_H K) (fk_E K) u = Ok () \<Longrightarrow> UpdateFeeSplit K u s = (Ok (), s') \<Longrightarrow> fee_step K s s'"
| cancel: "MsgCancelFeeSplit_ValidateBasic (fk_H K) (fk_E K) c = Ok () \<Longrightarrow> CancelFeeSplit K c s = (Ok (), s') \<Longrightarrow> fee_step K s s'"
| hook: "fee_PostTxProcessing K to gas price s = (Ok (), s') \<Longrightarrow> fee_step K s s'"
| params: "fee_step K s (fee_SetParams p s)"
| env: "fee_step K s (s\<lparr>f_ext := x\<rparr>)"

lemma hook_frame:
  assumes "fee_PostTxProcessing K to gas price s = (r, s')"
  shows "\<exists>x. s' = s\<lparr>f_ext := x\<rparr>"
proof -
  have "\<exists>x. s = s\<lparr>f_ext := x\<rparr>" by (rule exI [of _ "f_ext s"]) simp
  then show ?thesis using assms
    by (auto simp: fee_PostTxProcessing_def Let_def split: if_splits option.splits outcome.splits prod.splits)
qed

lemma fee_step_ok:
  assumes laws: "fee_laws K D reg" and step: "fee_step K s s'" and ok: "fee_ok K s"
  shows "fee_ok K s'"
  using step
proof cases
  case (hook to gas price)
  obtain x where "s' = s\<lparr>f_ext := x\<rparr>" using hook_frame [OF hook] by blast
  then show ?thesis using ok by (simp add: fee_ok_def)
next
  case (params p)
  then show ?thesis using ok by (simp add: fee_SetParams_def fee_ok_def)
next
  case (env x)
  then show ?thesis using ok by (simp add: fee_ok_def)
qed (use fee_laws.RegisterFeeSplit_ok [OF laws ok] fee_laws.UpdateFeeSplit_ok [OF laws ok] fee_laws.CancelFeeSplit_ok [OF laws ok] in blast)+

text \<open>C36. In every state reached from one without registrations, the deployer index and the withdrawer
  index list a contract under an address exactly if the contract is registered with that address, and
  importing the exported genesis state into an empty module gives the state back.\<close>

theorem fee_registry_consistent:
  assumes "fee_laws K D reg" and "f_splits s0 = []" and "f_deployers s0 = []" and "f_withdrawers s0 = []"
    and "(fee_step K)\<^sup>*\<^sup>* s0 s"
  shows "(\<forall>a c. length c = 20 \<longrightarrow>
      (IsDeployerMapSet s a c \<longleftrightarrow> (\<exists>fs. GetFeeSplit s c = Some fs \<and> GetDeployerAddr (fk_H K) fs = Ok a)) \<and>
      (IsWithdrawerMapSet s a c \<longleftrightarrow>
        (\<exists>fs. GetFeeSplit s c = Some fs \<and> fs_WithdrawerAddress fs \<noteq> [] \<and> GetWithdrawerAddr (fk_H K) fs = Ok a))) \<and>
    fee_InitGenesis (fk_H K) (fk_E K) (fee_ExportGenesis s) (s0\<lparr>f_ext := f_ext s\<rparr>) = (Ok (), s)"
proof -
  have "fee_ok K s0" using assms(2-4) by (simp add: fee_ok_def index_keys_def kv_get_def)
  with assms(5) have ok: "fee_ok K s" by (induction rule: rtranclp_induct) (auto intro: fee_step_ok [OF assms(1)])
  show ?thesis
    using fee_laws.index_registered [OF assms(1) ok] fee_laws.export_import [OF assms(1) ok, of "s0\<lparr>f_ext := f_ext s\<rparr>"] assms(2-4) by simp
qed

text \<open>C37. After a call of a registered contract the hook moves exactly the developers' share of the fee,
  rounded down and never more than the fee, from the fee collector to the withdrawer or, where none
  is set, to the deployer.  Where the share rounds to zero, the hook returns an error, which
  undoes the transaction.\<close>

theorem hook_pays_share:
  assumes "fee_laws K D reg" and "EnableFeeSplit (f_params s)" and "GetFeeSplit s c = Some fs"
    and "(if fs_WithdrawerAddress fs = [] then GetDeployerAddr (fk_H K) fs else GetWithdrawerAddr (fk_H K) fs) = Ok payee"
    and "\<not> BlockedAddr (fk_B K) payee" and "coins_ValidDenom (fk_C K) (EvmDenom (fk_V K) (f_ext s))"
    and "0 \<le> price" and "0 \<le> DeveloperShares (f_params s)" and "DeveloperShares (f_params s) \<le> dec_one"
    and "dev = uint gas * price * DeveloperShares (f_params s) div dec_one"
    and "collector = GetModuleAddress (fk_A K) (feeCollectorName K)"
  shows "0 \<le> dev \<and> dev \<le> uint gas * price \<and>
    (0 < dev \<and> dev \<le> GetBalance (fk_B K) (f_ext s) collector (EvmDenom (fk_V K) (f_ext s)) \<and>
        (\<forall>d. 0 \<le> GetBalance (fk_B K) (f_ext s) collector d) \<longrightarrow>
      (\<exists>s'. fee_PostTxProcessing K (Some c) gas price s = (Ok (), s') \<and>
         moved (fk_C K) (fk_B K) collector payee [oneCoin (EvmDenom (fk_V K) (f_ext s)) dev] (f_ext s) (f_ext s'))) \<and>
    (dev = 0 \<longrightarrow> fee_PostTxProcessing K (Some c) gas price s = (Err ErrInvalidCoins, s))"
proof -
  let ?d = "EvmDenom (fk_V K) (f_ext s)" and ?fees = "[oneCoin (EvmDenom (fk_V K) (f_ext s)) dev]"
  have dev: "developerFee (fk_F K) (f_params s) gas price = dev"
    using fee_laws.developerFee_eq [OF assms(1,7,8)] assms(10) by simp
  note le = fee_laws.developerFee_le [OF assms(1,7-9), of gas, unfolded dev]
  have "payee \<noteq> []"
    using assms(4) bech32_laws.parse_nonempty [OF fee_laws.axioms(4) [OF assms(1)]]
    by (auto simp: GetDeployerAddr_def GetWithdrawerAddr_def orPanic_def split: if_splits option.splits)
  then have run: "fee_PostTxProcessing K (Some c) gas price s =
      (case SendCoinsFromModuleToAccount (fk_B K) (feeCollectorName K) payee ?fees (f_ext s) of (r, x) \<Rightarrow> (r, s\<lparr>f_ext := x\<rparr>))"
    using assms(2-4) dev by (auto simp: fee_PostTxProcessing_def Let_def GetWithdrawerAddr_def split: if_splits)
  have keeper: "keeper_laws (fk_C K) (fk_A K) (fk_B K) D reg" and col: "feeCollectorName K \<in> reg"
    using assms(1) by (auto simp: fee_laws_def fee_laws_axioms_def)
  have coins: "coins_laws (fk_C K)" using keeper by (simp add: keeper_laws_def)
  have "\<exists>s'. fee_PostTxProcessing K (Some c) gas price s = (Ok (), s') \<and> moved (fk_C K) (fk_B K) collector payee ?fees (f_ext s) (f_ext s')"
    if "0 < dev" "dev \<le> GetBalance (fk_B K) (f_ext s) collector ?d" "\<forall>d. 0 \<le> GetBalance (fk_B K) (f_ext s) collector d"
  proof -
    have v: "coins_IsValid (fk_C K) ?fees" using coins_laws.valid_one [OF coins assms(6) that(1)] .
    have "coins_AmountOf (fk_C K) ?fees d \<le> GetBalance (fk_B K) (f_ext s) (GetModuleAddress (fk_A K) (feeCollectorName K)) d" for d
      using that(2,3) assms(11) by (simp add: coins_laws.amount_one [OF coins])
    then obtain x where "SendCoinsFromModuleToAccount (fk_B K) (feeCollectorName K) payee ?fees (f_ext s) = (Ok (), x)"
      using keeper_laws.ModuleToAccount_ok [OF keeper col v assms(5)] by blast
    then show ?thesis using keeper_laws.ModuleToAccount_moved [OF keeper v] assms(11) by (simp add: run)
  qed
  moreover have "fee_PostTxProcessing K (Some c) gas price s = (Err ErrInvalidCoins, s)" if "dev = 0"
    using keeper_laws.ModuleToAccount_invalid [OF keeper col fee_laws.zero_coin_invalid [OF assms(1)] assms(5)] that by (simp add: run)
  ultimately show ?thesis using le by blast
qed

section \<open>An evaluated run\<close>

definition std_fee :: "std_chain fee_keepers" where
  "std_fee =
     \<lparr>fk_C = std_coins, fk_F = std_dec, fk_H = std_bech32, fk_E = std_eth,
      fk_V = std_evm_ops\<lparr>evm_IsContract := (\<lambda>x a. Some (v_tokens (snd x) a \<noteq> None))\<rparr>, fk_A = pair_accounts std_accounts,
      fk_B = pair_bank std_bank, fk_ConsumeGas = (\<lambda>_ x. (Ok (), x)), feeCollectorName = ''fee_collector''\<rparr>"

lemma std_fee_sel [simp]:
  "fk_C std_fee = std_coins" "fk_F std_fee = std_dec" "fk_H std_fee = std_bech32" "fk_E std_fee = std_eth"
  "fk_A std_fee = pair_accounts std_accounts" "fk_B std_fee = pair_bank std_bank" "feeCollectorName std_fee = ''fee_collector''"
  "EvmDenom (fk_V std_fee) x = ''aevmos''"
  by (simp_all add: std_fee_def)

interpretation stdf: fee_laws std_fee "pair_distr std_distr" UNIV
proof (rule fee_laws.intro)
  show "keeper_laws (fk_C std_fee) (fk_A std_fee) (fk_B std_fee) (pair_distr std_distr) UNIV"
    using stdp.keeper_laws_axioms by simp
  show "dec_laws (fk_F std_fee)" using stdd.dec_laws_axioms by simp
  show "eth_laws (fk_E std_fee)" using stde.eth_laws_axioms by simp
  show "bech32_laws (fk_H std_fee)" using stdb.bech32_laws_axioms by simp
  show "fee_laws_axioms std_fee UNIV" by unfold_locales simp
qed

definition ex_deployed :: addr where
  "ex_deployed = CreateAddress std_eth ex_user 0"

definition ex_fee_world :: std_chain where
  "ex_fee_world =
     (\<lparr>w_accounts = [], w_denoms = [''aevmos''], w_balance = (\<lambda>a d. if a = std_module_addr ''fee_collector'' then 1000 else 0), w_supply = (\<lambda>d. 1000)\<rparr>,
      \<lparr>v_tokens = (\<lambda>c. if c = ex_deployed then Some \<lparr>t_bal = (\<lambda>_. 0), t_supply = 0\<rparr> else None),
       v_nonce = (\<lambda>_. 0), v_meta = (\<lambda>_. None)\<rparr>)"

definition ex_fee_empty :: "std_chain fee_state" where
  "ex_fee_empty = \<lparr>f_params = fee_DefaultParams, f_splits = [], f_deployers = [], f_withdrawers = [], f_ext = ex_fee_world\<rparr>"

definition ex_fee_msg :: msg_register_fee where
  "ex_fee_msg = NewMsgRegisterFeeSplit std_bech32 std_eth ex_deployed ex_user (Some ex_bob) [0]"

definition ex_fee :: "std_chain fee_state" where
  "ex_fee = snd (RegisterFeeSplit std_fee ex_fee_msg ex_fee_empty)"

definition ex_fee_split :: fee_split where
  "ex_fee_split = NewFeeSplit std_bech32 std_eth ex_deployed ex_user ex_bob"

lemma ex_fee_facts:
  "MsgRegisterFeeSplit_ValidateBasic std_bech32 std_eth ex_fee_msg = Ok ()"
  "fst (RegisterFeeSplit std_fee ex_fee_msg ex_fee_empty) = Ok ()"
  "GetFeeSplit ex_fee ex_deployed = Some ex_fee_split"
  "EnableFeeSplit (f_params ex_fee)" "DeveloperShares (f_params ex_fee) = NewDecWithPrec 50 2" "length ex_deployed = 20"
  "GetBalance (pair_bank std_bank) (f_ext ex_fee) (std_module_addr ''fee_collector'') ''aevmos'' = 1000"
  "GetDeployerAddr std_bech32 ex_fee_split = Ok ex_user" "GetWithdrawerAddr std_bech32 ex_fee_split = Ok ex_bob" "fs_WithdrawerAddress ex_fee_split \<noteq> []"
  by code_simp+

lemma ex_fee_reached: "(fee_step std_fee)\<^sup>*\<^sup>* ex_fee_empty ex_fee"
proof -
  have "RegisterFeeSplit std_fee ex_fee_msg ex_fee_empty = (Ok (), ex_fee)" using ex_fee_facts(2) by (simp add: ex_fee_def prod_eq_iff)
  then have "fee_step std_fee ex_fee_empty ex_fee" by (rule fee_step.register [rotated]) (simp add: ex_fee_facts(1))
  then show ?thesis by blast
qed

lemma derive_std_ok: "\<exists>b. derive_contract std_fee cost a ns x = (Ok b, x)"
  by (induction ns arbitrary: a) (auto simp: std_fee_def)

lemma Register_std_ext: "f_ext (snd (RegisterFeeSplit std_fee m s)) = f_ext s"
  using derive_std_ok [of "AddrDerivationCostCreate (f_params s)" _ "mr_Nonces m" "f_ext s"]
  by (auto simp: RegisterFeeSplit_def Let_def SetFeeSplit_def SetDeployerMap_def SetWithdrawerMap_def
      split: option.splits bool.splits prod.splits outcome.splits) (metis Pair_inject)+

theorem fee_registry_consistent_witness:
  "IsDeployerMapSet ex_fee ex_user ex_deployed \<and> IsWithdrawerMapSet ex_fee ex_bob ex_deployed \<and> \<not> IsWithdrawerMapSet ex_fee ex_user ex_deployed \<and>
   fee_InitGenesis std_bech32 std_eth (fee_ExportGenesis ex_fee) (ex_fee_empty\<lparr>f_ext := f_ext ex_fee\<rparr>) = (Ok (), ex_fee)"
proof -
  have empty: "f_splits ex_fee_empty = []" "f_deployers ex_fee_empty = []" "f_withdrawers ex_fee_empty = []"
    by (simp_all add: ex_fee_empty_def)
  have "ex_user \<noteq> ex_bob" by (simp add: ex_user_def ex_bob_def)
  then show ?thesis
    using fee_registry_consistent [OF stdf.fee_laws_axioms empty ex_fee_reached] ex_fee_facts by auto
qed

theorem hook_pays_share_witness:
  "(\<exists>s'. fee_PostTxProcessing std_fee (Some ex_deployed) 100 2 ex_fee = (Ok (), s') \<and>
      moved std_coins (pair_bank std_bank) (std_module_addr ''fee_collector'') ex_bob [oneCoin ''aevmos'' 100] (f_ext ex_fee) (f_ext s')) \<and>
   fee_PostTxProcessing std_fee (Some ex_deployed) 100 0 ex_fee = (Err ErrInvalidCoins, ex_fee)"
proof -
  have sh: "0 \<le> DeveloperShares (f_params ex_fee)" "DeveloperShares (f_params ex_fee) \<le> dec_one"
    by (simp_all add: ex_fee_facts NewDecWithPrec_def dec_one_def)
  have payee: "(if fs_WithdrawerAddress ex_fee_split = [] then GetDeployerAddr (fk_H std_fee) ex_fee_split
      else GetWithdrawerAddr (fk_H std_fee) ex_fee_split) = Ok ex_bob" by (simp add: ex_fee_facts)
  have free: "\<not> BlockedAddr (fk_B std_fee) ex_bob" "coins_ValidDenom (fk_C std_fee) (EvmDenom (fk_V std_fee) (f_ext ex_fee))"
    by code_simp+
  note pay = hook_pays_share [OF stdf.fee_laws_axioms ex_fee_facts(4,3) payee free _ sh refl refl]
  have "f_ext ex_fee = ex_fee_world"
    using Register_std_ext [of ex_fee_msg ex_fee_empty] by (simp add: ex_fee_def) (simp add: ex_fee_empty_def)
  then have bal: "\<forall>d. 0 \<le> GetBalance (pair_bank std_bank) (f_ext ex_fee) (std_module_addr ''fee_collector'') d"
    by (simp add: ex_fee_world_def std_bank_def std_balance_def)
  show ?thesis
    using pay [of 2 100] pay [of 0 100] ex_fee_facts bal by (simp add: NewDecWithPrec_def dec_one_def std_accounts_def)
qed

end
