(* ===== verification/Recovery.thy ===== *)
theory Recovery
  imports Claims Sdk_Keepers
begin

text \<open>
  \<open>x/recovery\<close>: an IBC transfer of an account to its own address that holds an unsupported key sends the
  coins of that address back.  The receive callback, the middleware, the parameters and what the
  callback returns.  The transfer, channel, bank and account keepers are parameters; the claims keeper is
  asked for its parameters only.
\<close>

section \<open>Parameters and genesis\<close>

record rec_params =
  EnableRecovery :: bool
  PacketTimeoutDuration :: duration

record rec_genesis =
  rg_Params :: rec_params

definition rec_DefaultParams :: rec_params where
  "rec_DefaultParams = \<lparr>EnableRecovery = True, PacketTimeoutDuration = 4 * 3600 * Second\<rparr>"

definition rec_validateDuration :: "duration \<Rightarrow> unit outcome" where
  "rec_validateDuration duration =
     (if duration < 0 then Err (ErrPlain ''packet timout duration cannot be negative'') else Ok ())"

definition rec_params_Validate :: "rec_params \<Rightarrow> unit outcome" where
  "rec_params_Validate p = rec_validateDuration (PacketTimeoutDuration p)"

definition rec_DefaultGenesisState :: rec_genesis where
  "rec_DefaultGenesisState = \<lparr>rg_Params = rec_DefaultParams\<rparr>"

definition rec_genesis_Validate :: "rec_genesis \<Rightarrow> unit outcome" where
  "rec_genesis_Validate gs = rec_params_Validate (rg_Params gs)"

section \<open>The keepers\<close>

record denom_trace =
  dt_Path :: string
  dt_BaseDenom :: string

text \<open>What the callback asks of an account: whether it is a vesting or a module account, and its key.\<close>

record rec_account =
  ra_IsVesting :: bool
  ra_IsModule :: bool
  ra_PubKey :: "pubkey option"

record 'x rec_keepers =
  rk_C :: coins_ops
  rk_I :: ibc_ops
  rk_B :: "'x bank_ops"
  rk_ClaimsParams :: "'x \<Rightarrow> claims_params"
  rk_GetAccount :: "'x \<Rightarrow> addr \<Rightarrow> rec_account option"
  rk_ParseHexHash :: "string \<Rightarrow> bytes option"
  rk_GetDenomTrace :: "'x \<Rightarrow> bytes \<Rightarrow> denom_trace option"
  rk_GetChannel :: "'x \<Rightarrow> string \<Rightarrow> string \<Rightarrow> bool"
  rk_PortIdentifierValidator :: "string \<Rightarrow> bool"
  rk_ChannelIdentifierValidator :: "string \<Rightarrow> bool"
  rk_SendTransfer :: "string \<Rightarrow> string \<Rightarrow> coin \<Rightarrow> addr \<Rightarrow> string \<Rightarrow> int \<Rightarrow> ('x, unit) cmd"

record 'x rec_state =
  r_params :: rec_params
  r_ext :: 'x

definition rec_SetParams :: "rec_params \<Rightarrow> 'x rec_state \<Rightarrow> 'x rec_state" where
  "rec_SetParams params s = s\<lparr>r_params := params\<rparr>"

definition rec_InitGenesis :: "rec_genesis \<Rightarrow> 'x rec_state \<Rightarrow> 'x rec_state" where
  "rec_InitGenesis data s = rec_SetParams (rg_Params data) s"

definition rec_ExportGenesis :: "'x rec_state \<Rightarrow> rec_genesis" where
  "rec_ExportGenesis s = \<lparr>rg_Params = r_params s\<rparr>"

section \<open>The channel of a voucher\<close>

text \<open>\<open>strings.Split\<close> and \<open>strings.SplitN\<close> with two parts, at a slash.\<close>

fun Split :: "string \<Rightarrow> string list" where
  "Split [] = [[]]"
| "Split (c # cs) =
     (if c = CHR ''/'' then [] # Split cs
      else (case Split cs of [] \<Rightarrow> [[c]] | p # ps \<Rightarrow> (c # p) # ps))"

definition SplitN2 :: "string \<Rightarrow> string list" where
  "SplitN2 s =
     (case dropWhile (\<lambda>c. c \<noteq> CHR ''/'') s of [] \<Rightarrow> [s] | _ # rest \<Rightarrow> [takeWhile (\<lambda>c. c \<noteq> CHR ''/'') s, rest])"

definition GetIBCDenomDestinationIdentifiers :: "'x rec_keepers \<Rightarrow> 'x \<Rightarrow> denom \<Rightarrow> (string \<times> string) outcome" where
  "GetIBCDenomDestinationIdentifiers K x denom =
     (case SplitN2 denom of
        _ # part # _ \<Rightarrow>
          (case rk_ParseHexHash K part of
             None \<Rightarrow> Err (ErrExt ''ParseHexHash'')
           | Some hash \<Rightarrow>
               (case rk_GetDenomTrace K x hash of
                  None \<Rightarrow> Err ErrTraceNotFound
                | Some denomTrace \<Rightarrow>
                    let path = Split (dt_Path denomTrace) in
                    if length path mod 2 \<noteq> 0 then Err ErrInvalidDenomForTransfer else
                    (case path of
                       destinationPort # destinationChannel # _ \<Rightarrow>
                         if \<not> rk_GetChannel K x destinationPort destinationChannel then Err ErrChannelNotFound else
                         if \<not> rk_PortIdentifierValidator K destinationPort then Err ErrInvalidID else
                         if \<not> rk_ChannelIdentifierValidator K destinationChannel then Err ErrInvalidChannelIdentifier else
                         Ok (destinationPort, destinationChannel)
                     | _ \<Rightarrow> Panic)))
      | _ \<Rightarrow> Err ErrInvalidDenomForTransfer)"

section \<open>The receive callback\<close>

definition rec_timeout :: "rec_params \<Rightarrow> time \<Rightarrow> int" where
  "rec_timeout params blockTime = u64 (i64 (blockTime + PacketTimeoutDuration params))"

text \<open>
  The iteration over the recipient's balances.  The result is what was sent so far and the error
  that stopped the iteration, if any; the iteration sees the balances that were there when it began.
\<close>

fun recover_coins ::
  "'x rec_keepers \<Rightarrow> packet \<Rightarrow> addr \<Rightarrow> string \<Rightarrow> int \<Rightarrow> coins \<Rightarrow> coins \<Rightarrow> ('x, coins \<times> err option) cmd" where
  "recover_coins K packet recipient senderBech32 timeout [] balances x = (Ok (balances, None), x)"
| "recover_coins K packet recipient senderBech32 timeout (coin # rest) balances x =
     (if Amt coin = 0 then recover_coins K packet recipient senderBech32 timeout rest balances x else
      case (if HasPrefix (Denom coin) ''ibc/'' then
              bindO (GetIBCDenomDestinationIdentifiers K x (Denom coin)) (\<lambda>(destPort, destChannel).
                Ok (p_DestPort packet = destPort \<and> p_DestChannel packet = destChannel))
            else Ok True) of
        Panic \<Rightarrow> (Panic, x)
      | Err e \<Rightarrow> (Ok (balances, Some e), x)
      | Ok False \<Rightarrow> recover_coins K packet recipient senderBech32 timeout rest balances x
      | Ok True \<Rightarrow>
          (case rk_SendTransfer K (p_DestPort packet) (p_DestChannel packet) coin recipient senderBech32 timeout x of
             (Panic, x) \<Rightarrow> (Panic, x)
           | (Err e, x) \<Rightarrow> (Ok (balances, Some e), x)
           | (Ok _, x) \<Rightarrow>
               recover_coins K packet recipient senderBech32 timeout rest (coins_Add (rk_C K) balances [coin]) x))"

definition rec_OnRecvPacket :: "'x rec_keepers \<Rightarrow> time \<Rightarrow> packet \<Rightarrow> ack \<Rightarrow> ('x rec_state, ack) cmd" where
  "rec_OnRecvPacket K blockTime packet ack s =
     (let params = r_params s; claimsParams = rk_ClaimsParams K (r_ext s) in
      if \<not> EnableRecovery params \<or> \<not> IsAuthorizedChannel claimsParams (p_DestChannel packet) \<or>
         IsEVMChannel claimsParams (p_DestChannel packet) then (Ok ack, s) else
      case GetTransferSenderRecipient (rk_I K) packet of
        Panic \<Rightarrow> (Panic, s)
      | Err e \<Rightarrow> (Ok (ErrorAck e), s)
      | Ok (sender, recipient, senderBech32, _) \<Rightarrow>
          if BlockedAddr (rk_B K) sender \<or> BlockedAddr (rk_B K) recipient then (Ok (ErrorAck ErrBlockedAddress), s) else
          if sender \<noteq> recipient then (Ok ack, s) else
          let account = rk_GetAccount K (r_ext s) recipient in
          if (case account of None \<Rightarrow> False | Some a \<Rightarrow> ra_IsVesting a) then (Ok ack, s) else
          if (case account of None \<Rightarrow> False | Some a \<Rightarrow> ra_IsModule a) then (Ok ack, s) else
          if (case account of None \<Rightarrow> False
              | Some a \<Rightarrow> (case ra_PubKey a of None \<Rightarrow> False | Some pk \<Rightarrow> IsSupportedKey pk)) then (Ok ack, s) else
          (case recover_coins K packet recipient senderBech32 (rec_timeout params blockTime)
                  (GetAllBalances (rk_B K) (r_ext s) recipient) [] (r_ext s) of
             (Panic, x) \<Rightarrow> (Panic, s\<lparr>r_ext := x\<rparr>)
           | (Err e, x) \<Rightarrow> (Err e, s\<lparr>r_ext := x\<rparr>)
           | (Ok (_, Some e), x) \<Rightarrow> (Ok (ErrorAck e), s\<lparr>r_ext := x\<rparr>)
           | (Ok (_, None), x) \<Rightarrow> (Ok ack, s\<lparr>r_ext := x\<rparr>)))"

text \<open>The middleware calls the wrapped application first.\<close>

definition rec_mw_OnRecvPacket ::
  "'x rec_keepers \<Rightarrow> (packet \<Rightarrow> ('x rec_state, ack) cmd) \<Rightarrow> time \<Rightarrow> packet \<Rightarrow> ('x rec_state, ack) cmd" where
  "rec_mw_OnRecvPacket K app blockTime packet =
     bindS (app packet) (\<lambda>ack t. if \<not> ack_Success ack then (Ok ack, t) else rec_OnRecvPacket K blockTime packet ack t)"

section \<open>What is sent back\<close>

text \<open>The transfers for which the callback sends coins: the address \<open>a\<close> is sender and recipient.\<close>

definition recoverable :: "'x rec_keepers \<Rightarrow> 'x rec_state \<Rightarrow> packet \<Rightarrow> addr \<Rightarrow> string \<Rightarrow> bool" where
  "recoverable K s packet a senderBech32 \<longleftrightarrow>
     EnableRecovery (r_params s) \<and> IsAuthorizedChannel (rk_ClaimsParams K (r_ext s)) (p_DestChannel packet) \<and>
     \<not> IsEVMChannel (rk_ClaimsParams K (r_ext s)) (p_DestChannel packet) \<and>
     (case GetTransferSenderRecipient (rk_I K) packet of Ok (sender, recipient, sb, _) \<Rightarrow> sender = a \<and> recipient = a \<and> sb = senderBech32 | _ \<Rightarrow> False) \<and>
     \<not> BlockedAddr (rk_B K) a \<and>
     (case rk_GetAccount K (r_ext s) a of
        None \<Rightarrow> True
      | Some acc \<Rightarrow> \<not> ra_IsVesting acc \<and> \<not> ra_IsModule acc \<and> (case ra_PubKey acc of None \<Rightarrow> True | Some pk \<Rightarrow> \<not> IsSupportedKey pk))"

text \<open>Coins of this chain, and vouchers that came in through the channel of the packet.\<close>

definition returnable :: "'x rec_keepers \<Rightarrow> 'x \<Rightarrow> packet \<Rightarrow> denom \<Rightarrow> bool" where
  "returnable K x packet d \<longleftrightarrow>
     \<not> HasPrefix d ''ibc/'' \<or> GetIBCDenomDestinationIdentifiers K x d = Ok (p_DestPort packet, p_DestChannel packet)"

text \<open>
  What the module relies on: a transfer that succeeds takes exactly the coin from the sending account,
  changes no other account but the channel's escrow account, and no denomination trace or channel.
\<close>

locale rec_laws = coins_laws "rk_C K" for K :: "'x rec_keepers" +
  fixes escrow :: "string \<Rightarrow> string \<Rightarrow> addr"
  assumes SendTransfer_balance:
      "rk_SendTransfer K p c coin a r t x = (Ok u, x') \<Longrightarrow> b \<noteq> escrow p c \<Longrightarrow>
       GetBalance (rk_B K) x' b d = GetBalance (rk_B K) x b d - (if b = a \<and> d = Denom coin then Amt coin else 0)"
    and SendTransfer_traces:
      "rk_SendTransfer K p c coin a r t x = (Ok u, x') \<Longrightarrow> rk_GetDenomTrace K x' = rk_GetDenomTrace K x \<and> rk_GetChannel K x' = rk_GetChannel K x"
    and all_balances: "(\<And>d. 0 \<le> GetBalance (rk_B K) x a d) \<Longrightarrow>
       coins_IsValid (rk_C K) (GetAllBalances (rk_B K) x a) \<and> (\<forall>d. coins_AmountOf (rk_C K) (GetAllBalances (rk_B K) x a) d = GetBalance (rk_B K) x a d)"
begin

abbreviation "in_denom d cs \<equiv> sum_list (map Amt (filter (\<lambda>k. Denom k = d) cs))"

lemma identifiers_cong:
  assumes "rk_GetDenomTrace K y = rk_GetDenomTrace K x" and "rk_GetChannel K y = rk_GetChannel K x"
  shows "GetIBCDenomDestinationIdentifiers K y d = GetIBCDenomDestinationIdentifiers K x d"
  unfolding GetIBCDenomDestinationIdentifiers_def assms by (rule refl)

lemma returnable_cong:
  assumes "rk_SendTransfer K p c coin a r t x = (Ok u, y)"
  shows "returnable K y packet d = returnable K x packet d"
  using SendTransfer_traces [OF assms] by (simp add: returnable_def identifiers_cong [of y x])

lemma recover_coins_Ok:
  assumes "recover_coins K packet a sb t cs bs x = (Ok (bs', None), x')" and "b \<noteq> escrow (p_DestPort packet) (p_DestChannel packet)"
  shows "GetBalance (rk_B K) x' b d = GetBalance (rk_B K) x b d - (if b = a \<and> returnable K x packet d then in_denom d cs else 0)"
  using assms(1)
proof (induction cs arbitrary: bs x)
  case (Cons k cs)
  consider (skip) "recover_coins K packet a sb t cs bs x = (Ok (bs', None), x')" "Amt k = 0 \<or> \<not> returnable K x packet (Denom k)"
    | (send) u y where "rk_SendTransfer K (p_DestPort packet) (p_DestChannel packet) k a sb t x = (Ok u, y)" "returnable K x packet (Denom k)"
        "recover_coins K packet a sb t cs (coins_Add (rk_C K) bs [k]) y = (Ok (bs', None), x')"
    using Cons.prems
    by (auto simp: returnable_def split: if_splits outcome.splits prod.splits bool.splits; cases "GetIBCDenomDestinationIdentifiers K x (Denom k)"; force)
  then show ?case
  proof cases
    case skip
    then show ?thesis using Cons.IH [OF skip(1)] by auto
  next
    case send
    then show ?thesis
      using Cons.IH [OF send(3)] SendTransfer_balance [OF send(1) assms(2), of d] returnable_cong [OF send(1), of packet d] by auto
  qed
qed simp

lemma recover_coins_Err:
  "recover_coins K packet a sb t cs bs x = (Ok (bs', Some e), x') \<Longrightarrow>
   \<exists>coin \<in> set cs. \<exists>y. Amt coin \<noteq> 0 \<and> (HasPrefix (Denom coin) ''ibc/'' \<and> GetIBCDenomDestinationIdentifiers K y (Denom coin) = Err e \<or>
     (\<exists>z. rk_SendTransfer K (p_DestPort packet) (p_DestChannel packet) coin a sb t y = (Err e, z)))"
proof (induction cs arbitrary: bs x)
  case (Cons k cs)
  show ?case
  proof (rule ccontr)
    assume no: "\<not> ?thesis"
    then have "\<exists>bs y. recover_coins K packet a sb t cs bs y = (Ok (bs', Some e), x')"
      using Cons.prems by (auto split: if_splits outcome.splits prod.splits bool.splits; cases "GetIBCDenomDestinationIdentifiers K x (Denom k)"; force)
    then show False using Cons.IH no by fastforce
  qed
qed simp

lemma in_denom_amount:
  assumes "valid cs"
  shows "in_denom d cs = amt cs d"
proof -
  have one: "distinct (map Denom cs) \<Longrightarrow> k \<in> set cs \<Longrightarrow> in_denom (Denom k) cs = Amt k" for k cs
  proof (induction cs)
    case (Cons j cs)
    have "Denom j \<notin> Denom ` set cs \<Longrightarrow> filter (\<lambda>k. Denom k = Denom j) cs = []"
      by (simp add: filter_empty_conv) (metis imageI)
    then show ?case using Cons by auto
  qed simp
  show ?thesis
  proof (cases "d \<in> Denom ` set cs")
    case True
    then obtain k where "k \<in> set cs" "Denom k = d" by auto
    then show ?thesis using one [OF valid_distinct [OF assms]] amount_mem [OF assms] by force
  next
    case False
    then have "filter (\<lambda>k. Denom k = d) cs = []" by (auto simp: filter_empty_conv)
    then show ?thesis using amount_none [OF assms False] by simp
  qed
qed

end

text \<open>C38. When a packet comes in over an authorized channel that is not an EVM channel, from an account to its own
  address whose key is not supported, and the callback acknowledges it, then every coin of this chain and every voucher
  that came in through that channel has left the address, every other voucher is still there and no other
  account but the channel's escrow account changed.  Where the callback returns an error instead, a voucher could not be
  traced or a transfer failed.  For all other packets nothing is sent.\<close>

theorem recovery_returns_coins:
  assumes "rec_laws K escrow" and "rec_OnRecvPacket K blockTime packet (ResultAck ok) s = (Ok ack, s')"
    and "\<And>a d. 0 \<le> GetBalance (rk_B K) (r_ext s) a d"
    and "\<forall>a sb. recoverable K s packet a sb \<longrightarrow> a \<noteq> escrow (p_DestPort packet) (p_DestChannel packet)"
  shows "(\<forall>a sb. recoverable K s packet a sb \<longrightarrow>
      (case ack of
         ResultAck r \<Rightarrow> r = ok \<and>
           (\<forall>d. GetBalance (rk_B K) (r_ext s') a d = (if returnable K (r_ext s) packet d then 0 else GetBalance (rk_B K) (r_ext s) a d)) \<and>
           (\<forall>b d. b \<noteq> a \<and> b \<noteq> escrow (p_DestPort packet) (p_DestChannel packet) \<longrightarrow>
              GetBalance (rk_B K) (r_ext s') b d = GetBalance (rk_B K) (r_ext s) b d)
       | ErrorAck e \<Rightarrow> (\<exists>coin \<in> set (GetAllBalances (rk_B K) (r_ext s) a). \<exists>y z.
           HasPrefix (Denom coin) ''ibc/'' \<and> GetIBCDenomDestinationIdentifiers K y (Denom coin) = Err e \<or>
           rk_SendTransfer K (p_DestPort packet) (p_DestChannel packet) coin a sb (rec_timeout (r_params s) blockTime) y = (Err e, z)))) \<and>
    ((\<forall>a sb. \<not> recoverable K s packet a sb) \<longrightarrow> s' = s)"
proof (intro conjI allI impI, goal_cases)
  case (1 a sb)
  note rec = 1
  let ?cs = "GetAllBalances (rk_B K) (r_ext s) a"
  obtain r x where run: "recover_coins K packet a sb (rec_timeout (r_params s) blockTime) ?cs [] (r_ext s) = (r, x)" by fastforce
  have step: "(case r of Panic \<Rightarrow> (Panic, s\<lparr>r_ext := x\<rparr>) | Err e \<Rightarrow> (Err e, s\<lparr>r_ext := x\<rparr>)
      | Ok (_, Some e) \<Rightarrow> (Ok (ErrorAck e), s\<lparr>r_ext := x\<rparr>) | Ok (_, None) \<Rightarrow> (Ok (ResultAck ok), s\<lparr>r_ext := x\<rparr>)) = (Ok ack, s')"
    using assms(2) rec run by (auto simp: rec_OnRecvPacket_def recoverable_def Let_def split: option.splits outcome.splits prod.splits)
  have bal: "coins_IsValid (rk_C K) ?cs" "\<And>d. coins_AmountOf (rk_C K) ?cs d = GetBalance (rk_B K) (r_ext s) a d"
    using rec_laws.all_balances [OF assms(1,3)] by simp_all
  note sums = rec_laws.in_denom_amount [OF assms(1) bal(1), unfolded bal(2)]
  have amounts: "GetBalance (rk_B K) (r_ext s') b d = GetBalance (rk_B K) (r_ext s) b d -
      (if b = a \<and> returnable K (r_ext s) packet d then GetBalance (rk_B K) (r_ext s) a d else 0)"
    if "ack = ResultAck q" "b \<noteq> escrow (p_DestPort packet) (p_DestChannel packet)" for q b d
    using step that(1) rec_laws.recover_coins_Ok [OF assms(1) _ that(2)] run sums by (auto split: outcome.splits option.splits)
  show ?case
  proof (cases ack)
    case (ResultAck q)
    then have "q = ok" using step by (auto split: outcome.splits option.splits)
    moreover have "a \<noteq> escrow (p_DestPort packet) (p_DestChannel packet)" using assms(4) rec by blast
    ultimately show ?thesis using amounts [OF ResultAck] by (simp add: ResultAck)
  next
    case (ErrorAck e)
    then obtain bs where "r = Ok (bs, Some e)" using step by (auto split: outcome.splits option.splits)
    then show ?thesis using rec_laws.recover_coins_Err [OF assms(1)] run by (fastforce simp: ErrorAck)
  qed
next
  case 2
  show ?case
  proof (cases "GetTransferSenderRecipient (rk_I K) packet")
    case (Ok p)
    obtain a b sb rb where p: "p = (a, b, sb, rb)" by (cases p)
    show ?thesis using assms(2) 2 [rule_format, of a sb] unfolding rec_OnRecvPacket_def recoverable_def Let_def Ok p
      by (auto split: if_splits option.splits)
  qed (use assms(2) in \<open>auto simp: rec_OnRecvPacket_def Let_def split: if_splits\<close>)
qed

section \<open>An evaluated packet\<close>

definition std_escrow :: "string \<Rightarrow> string \<Rightarrow> addr" where
  "std_escrow port channel = ''escrow/'' @ port @ channel"

definition std_rec :: "std_world rec_keepers" where
  "std_rec =
     \<lparr>rk_C = std_coins, rk_I = std_ibc, rk_B = std_bank,
      rk_ClaimsParams = (\<lambda>_. claims_DefaultParams\<lparr>AuthorizedChannels := [''channel-0''], EVMChannels := []\<rparr>),
      rk_GetAccount = (\<lambda>_ _. Some \<lparr>ra_IsVesting = False, ra_IsModule = False, ra_PubKey = Some (OtherKey [])\<rparr>),
      rk_ParseHexHash = (\<lambda>h. if h = [] then None else Some h),
      rk_GetDenomTrace = (\<lambda>_ h. if h = ''A'' then Some \<lparr>dt_Path = ''transfer/channel-0'', dt_BaseDenom = ''uosmo''\<rparr>
                                else if h = ''B'' then Some \<lparr>dt_Path = ''transfer/channel-3'', dt_BaseDenom = ''uatom''\<rparr> else None),
      rk_GetChannel = (\<lambda>_ port _. port = ''transfer''), rk_PortIdentifierValidator = (\<lambda>p. p \<noteq> []), rk_ChannelIdentifierValidator = (\<lambda>c. c \<noteq> []),
      rk_SendTransfer = (\<lambda>port channel coin a _ _. std_transfer a (std_escrow port channel) [coin])\<rparr>"

lemma std_rec_sel [simp]:
  "rk_C std_rec = std_coins" "rk_B std_rec = std_bank"
  "rk_SendTransfer std_rec port channel coin a r t = std_transfer a (std_escrow port channel) [coin]"
  by (simp_all add: std_rec_def)

interpretation stdr: rec_laws std_rec std_escrow
proof (rule rec_laws.intro)
  show "coins_laws (rk_C std_rec)" using std.coins_laws_axioms by simp
  show "rec_laws_axioms std_rec std_escrow"
  proof
    fix p c coin a r t x u x' b d
    assume send: "rk_SendTransfer std_rec p c coin a r t x = (Ok u, x')" and b: "b \<noteq> std_escrow p c"
    have "std_IsValid [coin]" using send by (simp add: std_transfer_def split: if_splits)
    then have "moved std_coins std_bank a (std_escrow p c) [coin] x x'" using send std_transfer_moved by simp
    moreover have "coins_AmountOf std_coins [coin] d = (if d = Denom coin then Amt coin else 0)" for d
      by (cases coin) (simp add: std.amount_one)
    ultimately show "GetBalance (rk_B std_rec) x' b d = GetBalance (rk_B std_rec) x b d - (if b = a \<and> d = Denom coin then Amt coin else 0)"
      using b by (simp add: moved_def)
  next
    fix x a
    assume "\<And>d. 0 \<le> GetBalance (rk_B std_rec) x a d"
    from stdk.GetAllBalances_amount [OF this [unfolded std_rec_sel]] show "coins_IsValid (rk_C std_rec) (GetAllBalances (rk_B std_rec) x a) \<and>
        (\<forall>d. coins_AmountOf (rk_C std_rec) (GetAllBalances (rk_B std_rec) x a) d = GetBalance (rk_B std_rec) x a d)"
      by simp
  qed (simp add: std_rec_def)
qed

definition ex_rec :: "std_world rec_state" where
  "ex_rec =
     \<lparr>r_params = rec_DefaultParams,
      r_ext = \<lparr>w_accounts = [], w_denoms = [''aevmos'', ''ibc/A'', ''ibc/B''],
               w_balance = (\<lambda>a d. if a = ''bob'' then (if d = ''aevmos'' then 5 else if d = ''ibc/A'' then 7 else 9) else 0), w_supply = (\<lambda>_. 0)\<rparr>\<rparr>"

definition ex_rec_packet :: packet where
  "ex_rec_packet =
     \<lparr>p_Data = Some \<lparr>ft_Denom = ''uosmo'', ft_Amount = ''7'', ft_Sender = ''osmo1bob'', ft_Receiver = ''evmos1bob''\<rparr>,
      p_SourcePort = ''transfer'', p_SourceChannel = ''channel-1'', p_DestPort = ''transfer'', p_DestChannel = ''channel-0''\<rparr>"

theorem recovery_returns_coins_witness:
  "\<exists>s'. rec_OnRecvPacket std_rec 0 ex_rec_packet (ResultAck []) ex_rec = (Ok (ResultAck []), s') \<and>
     GetBalance std_bank (r_ext s') ''bob'' ''aevmos'' = 0 \<and> GetBalance std_bank (r_ext s') ''bob'' ''ibc/A'' = 0 \<and>
     GetBalance std_bank (r_ext s') ''bob'' ''ibc/B'' = 9"
proof -
  define s' where "s' = snd (rec_OnRecvPacket std_rec 0 ex_rec_packet (ResultAck []) ex_rec)"
  have e: "fst (rec_OnRecvPacket std_rec 0 ex_rec_packet (ResultAck []) ex_rec) = Ok (ResultAck [])"
    "recoverable std_rec ex_rec ex_rec_packet ''bob'' ''osmo1bob''"
    "returnable std_rec (r_ext ex_rec) ex_rec_packet ''aevmos''" "returnable std_rec (r_ext ex_rec) ex_rec_packet ''ibc/A''"
    "\<not> returnable std_rec (r_ext ex_rec) ex_rec_packet ''ibc/B''" "GetBalance std_bank (r_ext ex_rec) ''bob'' ''ibc/B'' = 9"
    "GetTransferSenderRecipient std_ibc ex_rec_packet = Ok (''bob'', ''bob'', ''osmo1bob'', ''evmos1bob'')"
    "''bob'' \<noteq> std_escrow (p_DestPort ex_rec_packet) (p_DestChannel ex_rec_packet)"
    by code_simp+
  have run: "rec_OnRecvPacket std_rec 0 ex_rec_packet (ResultAck []) ex_rec = (Ok (ResultAck []), s')"
    using e(1) by (simp add: s'_def prod_eq_iff)
  have other: "\<forall>a sb. recoverable std_rec ex_rec ex_rec_packet a sb \<longrightarrow> a \<noteq> std_escrow (p_DestPort ex_rec_packet) (p_DestChannel ex_rec_packet)"
    using e(7,8) by (auto simp: recoverable_def std_rec_def)
  have bal: "0 \<le> GetBalance (rk_B std_rec) (r_ext ex_rec) a d" for a d
    by (simp add: ex_rec_def std_bank_def std_balance_def)
  have "GetBalance (rk_B std_rec) (r_ext s') ''bob'' d =
      (if returnable std_rec (r_ext ex_rec) ex_rec_packet d then 0 else GetBalance (rk_B std_rec) (r_ext ex_rec) ''bob'' d)" for d
    using conjunct1 [OF recovery_returns_coins [OF stdr.rec_laws_axioms run bal other], rule_format, OF e(2)] by simp
  then show ?thesis using e(3-6) run by (intro exI [of _ s']) simp
qed

end
