(* ===== verification/App_Epochs.thy ===== *)
theory App_Epochs
  imports Inflation Incentives_Rewards
begin

text \<open>
  The epochs module as the application wires it (\<open>app/app.go\<close>): when an epoch ends the incentives
  module pays its participants, then the inflation module mints and allocates, both on one bank.  The
  theory shows that the two hooks together keep an invariant under which neither panics, and with it
  that the chain never halts in the epochs module and reaches every epoch number.
\<close>

section \<open>The hooks of the application\<close>

text \<open>The two keepers' own stores, with the state of the other modules, which they share, in both.\<close>

type_synonym 'x app_state = "'x inc_state \<times> 'x inflation_state"

definition inc_hooks :: "'x inc_keepers \<Rightarrow> 'x app_state epoch_hooks" where
  "inc_hooks K =
     \<lparr>AfterEpochEnd_hook = (\<lambda>i n (a, b). case inc_AfterEpochEnd K i n a of (r, a') \<Rightarrow> (r, (a', b\<lparr>infl_ext := n_ext a'\<rparr>))),
      BeforeEpochStart_hook = (\<lambda>i n (a, b). case inc_BeforeEpochStart i n a of (r, a') \<Rightarrow> (r, (a', b\<lparr>infl_ext := n_ext a'\<rparr>)))\<rparr>"

definition infl_hooks :: "'x infl_keepers \<Rightarrow> string \<Rightarrow> 'x app_state epoch_hooks" where
  "infl_hooks K chainID =
     \<lparr>AfterEpochEnd_hook = (\<lambda>i n (a, b). case infl_AfterEpochEnd K chainID i n b of (r, b') \<Rightarrow> (r, (a\<lparr>n_ext := infl_ext b'\<rparr>, b'))),
      BeforeEpochStart_hook = (\<lambda>i n (a, b). case infl_BeforeEpochStart i n b of (r, b') \<Rightarrow> (r, (a\<lparr>n_ext := infl_ext b'\<rparr>, b')))\<rparr>"

definition app_epoch_hooks :: "'x inc_keepers \<Rightarrow> 'x infl_keepers \<Rightarrow> string \<Rightarrow> 'x app_state epoch_hooks list" where
  "app_epoch_hooks Kn Ki chainID = [inc_hooks Kn, infl_hooks Ki chainID]"

section \<open>What the application relies on\<close>

definition no_debt :: "'x bank_ops \<Rightarrow> 'x \<Rightarrow> bool" where
  "no_debt B x \<longleftrightarrow> (\<forall>a d. 0 \<le> GetBalance B x a d)"

text \<open>Both keepers hold the same account and bank keepers.  The bank leaves no account with a negative
  balance, also when a payment fails half way, and the inflation module may mint.\<close>

locale app_laws =
  fixes Kn :: "'x inc_keepers" and Ki :: "'x infl_keepers" and reg :: "string set"
  assumes inc: "inc_laws Kn (ik_D Ki) reg" and infl: "infl_laws Ki reg"
    and same: "nk_A Kn = ik_A Ki" "nk_B Kn = ik_B Ki"
    and ModuleToAccount_no_debt: "no_debt (ik_B Ki) x \<Longrightarrow> SendCoinsFromModuleToAccount (ik_B Ki) m b c x = (r, x') \<Longrightarrow> no_debt (ik_B Ki) x'"
    and ModuleToModule_no_debt: "no_debt (ik_B Ki) x \<Longrightarrow> SendCoinsFromModuleToModule (ik_B Ki) m n c x = (r, x') \<Longrightarrow> no_debt (ik_B Ki) x'"
    and Fund_no_debt: "no_debt (ik_B Ki) x \<Longrightarrow> FundCommunityPool (ik_D Ki) c a x = (r, x') \<Longrightarrow> no_debt (ik_B Ki) x'"
    and Mint_ok: "coins_IsValid (ik_C Ki) c \<Longrightarrow> \<exists>x'. MintCoins (ik_B Ki) ''inflation'' c x = (Ok (), x')"
    and Bonded_nonneg: "0 \<le> TotalBondedTokens (ik_S Ki) x"

sublocale app_laws \<subseteq> nl: inc_laws Kn "ik_D Ki" reg
  by (rule inc)

sublocale app_laws \<subseteq> il: infl_laws Ki reg
  by (rule infl)

section \<open>The invariant of the application\<close>

definition infl_ok :: "'x infl_keepers \<Rightarrow> 'x inflation_state \<Rightarrow> bool" where
  "infl_ok K s \<longleftrightarrow> infl_params_Validate (ik_C K) (infl_params s) = Ok () \<and> 0 < infl_GetEpochsPerPeriod s \<and>
     (case infl_GetEpochMintProvision s of None \<Rightarrow> False | Some p \<Rightarrow> 0 \<le> p)"

definition app_ok :: "'x inc_keepers \<Rightarrow> 'x infl_keepers \<Rightarrow> 'x app_state \<Rightarrow> bool" where
  "app_ok Kn Ki = (\<lambda>(a, b). n_ext a = infl_ext b \<and> inc_ok Kn a \<and> infl_ok Ki b \<and> no_debt (ik_B Ki) (infl_ext b))"

lemma infl_okD:
  assumes "infl_ok K s"
  shows "coins_ValidDenom (ik_C K) (MintDenom (infl_params s))"
    and "validateExponentialCalculation (ExponentialCalculation (infl_params s)) = Ok ()"
    and "validateInflationDistribution (InflationDistribution (infl_params s)) = Ok ()"
    and "0 < infl_GetEpochsPerPeriod s"
    and "\<exists>p. infl_GetEpochMintProvision s = Some p \<and> 0 \<le> p"
  using assms
  by (auto simp: infl_ok_def infl_params_Validate_def bindO_Ok_iff validateMintDenom_def split: if_splits option.splits)

lemma infl_ok_frame:
  "infl_ok K (s\<lparr>infl_ext := x\<rparr>) = infl_ok K s" "infl_ok K (infl_SetPeriod n s) = infl_ok K s"
  "infl_ok K (infl_SetSkippedEpochs n s) = infl_ok K s"
  "infl_ok K s \<Longrightarrow> 0 \<le> p \<Longrightarrow> infl_ok K (infl_SetEpochMintProvision p s)"
  by (simp_all add: infl_ok_def infl_GetEpochsPerPeriod_def infl_GetEpochMintProvision_def infl_SetPeriod_def
      infl_SetSkippedEpochs_def infl_SetEpochMintProvision_def)

lemma infl_ext_frame:
  "infl_ext (infl_SetPeriod n s) = infl_ext s" "infl_ext (infl_SetSkippedEpochs n s) = infl_ext s"
  "infl_ext (infl_SetEpochMintProvision p s) = infl_ext s"
  by (simp_all add: infl_SetPeriod_def infl_SetSkippedEpochs_def infl_SetEpochMintProvision_def)

lemma inc_ext_frame:
  "n_ext (SetIncentiveTotalGas E i g s) = n_ext s" "n_ext (SetIncentive E i s) = n_ext s"
  "n_ext (DeleteIncentiveAndUpdateAllocationMeters E i s) = n_ext s"
proof -
  have sub: "n_ext (subtract_allocations als t) = n_ext t" for als t
    by (induction als t rule: subtract_allocations.induct) (simp_all add: Let_def SetAllocationMeter_def)
  show "n_ext (SetIncentiveTotalGas E i g s) = n_ext s" "n_ext (SetIncentive E i s) = n_ext s"
    "n_ext (DeleteIncentiveAndUpdateAllocationMeters E i s) = n_ext s"
    by (simp_all add: SetIncentiveTotalGas_def SetIncentive_def DeleteIncentiveAndUpdateAllocationMeters_def sub)
qed

lemma inc_ok_ext: "inc_ok K (s\<lparr>n_ext := x\<rparr>) = inc_ok K s"
  by (rule inc_ok_cong) simp_all

context app_laws
begin

abbreviation "solvent \<equiv> no_debt (ik_B Ki)"

subsection \<open>Inflation\<close>

lemma BondedRatio_ok: "\<exists>r. BondedRatio Ki chainID x = Some r \<and> 0 \<le> r"
proof -
  have "0 \<le> NewDec (TotalBondedTokens (ik_S Ki) x)" using Bonded_nonneg by (simp add: NewDec_def dec_one_def)
  note q = il.dl.QuoInt_floor [OF this]
  show ?thesis
    using q Bonded_nonneg [of x]
    by (auto simp: BondedRatio_def Let_def NewDec_def dec_one_def pos_imp_zdiv_nonneg_iff)
qed

lemma infl_MintCoins_ok:
  assumes "coins_ValidDenom (ik_C Ki) d" and "0 \<le> n" and "solvent x"
  shows "\<exists>y. infl_MintCoins Ki \<lparr>Denom = d, Amt = n\<rparr> x = (Ok (), y) \<and> solvent y"
proof -
  obtain c where c: "coins_New (ik_C Ki) [\<lparr>Denom = d, Amt = n\<rparr>] = Some c" "coins_IsValid (ik_C Ki) c"
    using il.kl.New_one [OF assms(1,2)] by auto
  obtain y where y: "infl_MintCoins Ki \<lparr>Denom = d, Amt = n\<rparr> x = (Ok (), y)"
    using Mint_ok [OF c(2), of x] c(1) by (cases "c = []") (auto simp: infl_MintCoins_def)
  have "solvent y" using assms(3,2) il.minted(1) [OF assms(1,2) y] by (simp add: no_debt_def)
  with y show ?thesis by blast
qed

lemma Allocate_no_debt:
  assumes "AllocateExponentialInflation Ki params coin x = (Ok r, x')" and "solvent x"
  shows "solvent x'"
proof -
  from assms(1) obtain c1 c2 y z where
    "SendCoinsFromModuleToModule (ik_B Ki) ''inflation'' (ik_feeCollector Ki) c1 x = (Ok (), y)"
    "SendCoinsFromModuleToModule (ik_B Ki) ''inflation'' ''incentives'' c2 y = (Ok (), z)"
    "FundCommunityPool (ik_D Ki) (GetAllBalances (ik_B Ki) z (GetModuleAddress (ik_A Ki) ''inflation''))
       (GetModuleAddress (ik_A Ki) ''inflation'') z = (Ok (), x')"
    by (auto simp: AllocateExponentialInflation_def Let_def bindS_Ok_iff split: option.splits)
  then show ?thesis using assms(2) ModuleToModule_no_debt Fund_no_debt by metis
qed

lemma MintAndAllocate_ok:
  assumes "validateInflationDistribution (InflationDistribution params) = Ok ()"
    and "coins_ValidDenom (ik_C Ki) d" and "0 \<le> n" and "solvent x"
  shows "\<exists>r x'. MintAndAllocateInflation Ki params \<lparr>Denom = d, Amt = n\<rparr> x = (Ok r, x') \<and> solvent x'"
proof -
  obtain y where y: "infl_MintCoins Ki \<lparr>Denom = d, Amt = n\<rparr> x = (Ok (), y)" "solvent y"
    using infl_MintCoins_ok [OF assms(2-4)] by blast
  have "\<And>d'. 0 \<le> il.bal y ''inflation'' d'" "n \<le> il.bal y ''inflation'' d"
    using y(2) assms(3,4) il.minted(1) [OF assms(2,3) y(1)] by (simp_all add: no_debt_def)
  from il.allocation [OF assms(1-3) this] obtain r x'
    where "AllocateExponentialInflation Ki params \<lparr>Denom = d, Amt = n\<rparr> y = (Ok r, x')" by blast
  then have "MintAndAllocateInflation Ki params \<lparr>Denom = d, Amt = n\<rparr> x = (Ok r, x')" "solvent x'"
    using y Allocate_no_debt by (simp add: MintAndAllocateInflation_def bindS_def, blast)
  then show ?thesis by blast
qed

lemma infl_hook_ok:
  assumes ok: "infl_ok Ki s" and x: "solvent (infl_ext s)"
  shows "\<exists>s'. infl_AfterEpochEnd Ki chainID ident n s = (Ok (), s') \<and> infl_ok Ki s' \<and> solvent (infl_ext s')"
proof (cases "EnableInflation (infl_params s) \<and> ident = infl_GetEpochIdentifier s")
  case False
  then show ?thesis using ok x
    by (auto simp: infl_AfterEpochEnd_def Let_def infl_ok_frame infl_ext_frame)
next
  case True
  note D = infl_okD [OF ok]
  obtain p where p: "infl_GetEpochMintProvision s = Some p" "0 \<le> p" using D(5) by blast
  let ?m = "dec_TruncateInt (ik_F Ki) p"
  have m: "0 \<le> ?m" using il.dl.Truncate_floor [OF p(2)] p(2) by (simp add: pos_imp_zdiv_nonneg_iff dec_one_def)
  obtain r x' where run: "MintAndAllocateInflation Ki (infl_params s) \<lparr>Denom = MintDenom (infl_params s), Amt = ?m\<rparr> (infl_ext s) = (Ok r, x')"
    and x': "solvent x'"
    using MintAndAllocate_ok [OF D(3,1) m x] by blast
  let ?s = "s\<lparr>infl_ext := x'\<rparr>"
  obtain b where b: "BondedRatio Ki chainID x' = Some b" "0 \<le> b" using BondedRatio_ok by blast
  obtain q where q: "CalculateEpochMintProvision (ik_F Ki) (infl_params s) (infl_GetPeriod (infl_SetPeriod (u64 (infl_GetPeriod ?s + 1)) ?s))
      (infl_GetEpochsPerPeriod ?s) b = Some q" "0 \<le> q"
    using il.dl.CalculateEpochMintProvision_ok [OF D(2) b(2)] D(4) by fastforce
  show ?thesis
    using True p(1) run m D(1) b(1) q x' ok
    by (simp add: infl_AfterEpochEnd_def Let_def NewCoin_def infl_ok_frame infl_ext_frame)
qed

subsection \<open>Incentives\<close>

lemma reward_meters_no_debt:
  assumes "reward_meters Kn md sc i al gms rw n s = (r, s')" and "solvent (n_ext s)"
  shows "solvent (n_ext s')"
  using assms
proof (induction gms arbitrary: rw n s)
  case (Cons gm gms)
  define pay where "pay c = SendCoinsFromModuleToAccount (ik_B Ki) ''incentives'' (HexToAddress (nk_E Kn) (gm_Participant gm)) c (n_ext s)" for c
  define q x where "q c = fst (pay c)" and "x c = snd (pay c)" for c
  have q: "SendCoinsFromModuleToAccount (ik_B Ki) ''incentives'' (HexToAddress (nk_E Kn) (gm_Participant gm)) c (n_ext s) = (q c, x c)"
    for c by (simp add: q_def x_def pay_def)
  have x: "solvent (x c)" for c using ModuleToAccount_no_debt [OF Cons.prems(2) q] .
  then have "solvent (n_ext (DeleteGasMeter (nk_E Kn) gm (s\<lparr>n_ext := x c\<rparr>)))" for c by (simp add: DeleteGasMeter_def)
  then show ?case
    using Cons.prems x Cons.IH by (auto simp: Let_def same q split: option.splits outcome.splits)
qed simp

lemma rewardParticipants_no_debt:
  "rewardParticipants Kn i m s = (r, s') \<Longrightarrow> solvent (n_ext s) \<Longrightarrow> solvent (n_ext s')"
  by (auto simp: rewardParticipants_def Let_def dest: reward_meters_no_debt split: option.splits if_splits)

lemma distribute_incentive_no_debt:
  assumes "distribute_incentive Kn m i s = (r, s')" and "solvent (n_ext s)"
  shows "solvent (n_ext s')"
proof -
  obtain q t where t: "rewardParticipants Kn i m s = (q, t)" by fastforce
  then have "solvent (n_ext t)" using assms(2) by (rule rewardParticipants_no_debt)
  then show ?thesis using assms(1) t by (cases q) (auto simp: distribute_incentive_def bindS_def Let_def inc_ext_frame)
qed

lemma distribute_incentives_no_debt:
  "distribute_incentives Kn m is s = (r, s') \<Longrightarrow> solvent (n_ext s) \<Longrightarrow> solvent (n_ext s')"
proof (induction "is" arbitrary: s)
  case (Cons i "is")
  show ?case using Cons.prems
    by (auto simp: bindS_def dest: distribute_incentive_no_debt Cons.IH split: prod.splits outcome.splits)
qed (simp add: ret_def)

lemma inc_hook_ok:
  assumes "inc_ok Kn s" and "solvent (n_ext s)"
  shows "\<exists>s'. inc_AfterEpochEnd Kn ident n s = (Ok (), s') \<and> inc_ok Kn s' \<and> solvent (n_ext s')"
proof -
  obtain s' where s': "inc_AfterEpochEnd Kn ident n s = (Ok (), s')" "inc_ok Kn s'"
    using nl.AfterEpochEnd_ok [OF assms(1), of ident n] assms(2) by (auto simp: same no_debt_def)
  moreover have "solvent (n_ext s')"
    using s'(1) assms(2)
    by (auto simp: inc_AfterEpochEnd_def DistributeRewards_def dest: distribute_incentives_no_debt
        split: if_splits prod.splits outcome.splits)
  ultimately show ?thesis by blast
qed

subsection \<open>Both\<close>

lemma app_hooks_keep: "hooks_keep (app_ok Kn Ki) (app_epoch_hooks Kn Ki chainID)"
proof -
  have 1: "\<exists>x'. AfterEpochEnd_hook (inc_hooks Kn) i n x = (Ok (), x') \<and> app_ok Kn Ki x'" if "app_ok Kn Ki x" for i n x
    using that inc_hook_ok [of "fst x" i n]
    by (cases x) (auto simp: app_ok_def inc_hooks_def infl_ok_frame)
  have 2: "\<exists>x'. AfterEpochEnd_hook (infl_hooks Ki chainID) i n x = (Ok (), x') \<and> app_ok Kn Ki x'" if "app_ok Kn Ki x" for i n x
    using that infl_hook_ok [of "snd x" chainID i n]
    by (cases x) (auto simp: app_ok_def infl_hooks_def inc_ok_ext)
  have 3: "\<exists>x'. BeforeEpochStart_hook h i n x = (Ok (), x') \<and> app_ok Kn Ki x'"
    if "app_ok Kn Ki x" "h \<in> {inc_hooks Kn, infl_hooks Ki chainID}" for h i n x
    using that by (cases x) (auto simp: app_ok_def infl_hooks_def inc_hooks_def inc_ok_ext infl_ok_frame
        inc_BeforeEpochStart_def infl_BeforeEpochStart_def ret_def)
  show ?thesis using 1 2 3 by (auto simp: hooks_keep_def app_epoch_hooks_def)
qed

end

section \<open>An executable instance\<close>

definition pair_staking :: "'x staking_ops \<Rightarrow> ('x \<times> 'e) staking_ops" where
  "pair_staking S =
     \<lparr>BondDenom = (\<lambda>w. BondDenom S (fst w)), GetDelegatorBonded = (\<lambda>w. GetDelegatorBonded S (fst w)),
      GetDelegatorUnbonding = (\<lambda>w. GetDelegatorUnbonding S (fst w)), StakingTokenSupply = (\<lambda>w. StakingTokenSupply S (fst w)),
      TotalBondedTokens = (\<lambda>w. TotalBondedTokens S (fst w))\<rparr>"

definition std_app_infl :: "std_chain infl_keepers" where
  "std_app_infl =
     \<lparr>ik_C = std_coins, ik_F = std_dec, ik_A = pair_accounts std_accounts, ik_B = pair_bank std_bank,
      ik_D = pair_distr std_distr, ik_S = pair_staking std_staking, ik_feeCollector = ''fee_collector'',
      ik_ModuleAccount = (\<lambda>_ _. True)\<rparr>"

lemma std_app_sel [simp]:
  "ik_C std_app_infl = std_coins" "ik_F std_app_infl = std_dec" "ik_A std_app_infl = pair_accounts std_accounts"
  "ik_B std_app_infl = pair_bank std_bank" "ik_D std_app_infl = pair_distr std_distr"
  "ik_S std_app_infl = pair_staking std_staking" "ik_feeCollector std_app_infl = ''fee_collector''"
  by (simp_all add: std_app_infl_def)

lemma std_enoughD:
  assumes "std_enough w a c" and "\<forall>a d. 0 \<le> std_balance w a d"
  shows "std_AmountOf c d \<le> std_balance w a d"
proof (cases "d \<in> Denom ` set c")
  case True
  then show ?thesis using assms(1) by (auto simp: std_enough_def list_all_iff)
next
  case False
  then show ?thesis using assms(2) std_AmountOf_out by simp
qed

lemma std_transfer_no_debt:
  assumes "std_transfer a b c x = (r, x')" and "\<forall>a d. 0 \<le> std_balance x a d"
  shows "\<forall>a d. 0 \<le> std_balance x' a d"
proof (cases "std_IsValid c \<and> std_enough x a c")
  case True
  have nn: "0 \<le> std_AmountOf c d" for d using std_AmountOf_nonneg True by simp
  have "0 \<le> std_balance x' z d" for z d
    using True assms std_enoughD [OF _ assms(2), of a c d] nn [of d]
    by (auto simp: std_transfer_def std_balance_change_coins)
  then show ?thesis by blast
next
  case False
  then have "x' = x" using assms(1) by (auto simp: std_transfer_def split: if_splits)
  then show ?thesis using assms(2) by simp
qed

interpretation sapp: app_laws std_inc std_app_infl UNIV
proof (rule app_laws.intro)
  show "inc_laws std_inc (ik_D std_app_infl) UNIV" using stdn.inc_laws_axioms by simp
  show "infl_laws std_app_infl UNIV"
    by (rule infl_laws.intro) (simp_all add: stdp.keeper_laws_axioms stdd.dec_laws_axioms)
  fix x x' :: std_chain and m n b c a r
  note T = std_transfer_no_debt [of _ _ c "fst x" r "fst x'"]
  show "no_debt (ik_B std_app_infl) x \<Longrightarrow> SendCoinsFromModuleToAccount (ik_B std_app_infl) m b c x = (r, x') \<Longrightarrow> no_debt (ik_B std_app_infl) x'"
    using T [of "std_module_addr m" b] by (auto simp: no_debt_def on_fst_iff std_bank_def split: if_splits)
  show "no_debt (ik_B std_app_infl) x \<Longrightarrow> SendCoinsFromModuleToModule (ik_B std_app_infl) m n c x = (r, x') \<Longrightarrow> no_debt (ik_B std_app_infl) x'"
    using T [of "std_module_addr m" "std_module_addr n"] by (auto simp: no_debt_def on_fst_iff std_bank_def)
  show "no_debt (ik_B std_app_infl) x \<Longrightarrow> FundCommunityPool (ik_D std_app_infl) c a x = (r, x') \<Longrightarrow> no_debt (ik_B std_app_infl) x'"
    using T [of a "std_module_addr ''distribution''"] by (auto simp: no_debt_def on_fst_iff std_bank_def std_distr_def)
  show "coins_IsValid (ik_C std_app_infl) c \<Longrightarrow> \<exists>x'. MintCoins (ik_B std_app_infl) ''inflation'' c x = (Ok (), x')"
    using on_fst_ex [of "std_mint ''inflation'' c" x "Ok ()"] by (simp add: std_bank_def std_mint_def std_coins_def)
qed (simp_all add: pair_staking_def std_staking_def)

text \<open>The inflation module next to the incentives of \<open>ex_inc_used\<close>, on the same bank; a user of the
  incentivised contract sends one transaction in every block.\<close>

definition ex_app :: "std_chain app_state epochs_state" where
  "ex_app =
     \<lparr>es_infos = [(''day'', ex_day)],
      es_ext = (ex_inc_used,
        \<lparr>infl_params = infl_DefaultParams ''aevmos'', infl_period = Some 0, infl_epochIdentifier = DayEpochID,
         infl_epochsPerPeriod = Some 365, infl_skipped = Some 0, infl_provision = Some (NewDec 1000),
         infl_ext = n_ext ex_inc_used\<rparr>)\<rparr>"

definition ex_app_tx :: "nat \<Rightarrow> std_chain app_state \<Rightarrow> std_chain app_state" where
  "ex_app_tx n = (\<lambda>(a, b). (inc_PostTxProcessing std_inc (Some ex_contract) ex_user 100 a, b))"

lemma ex_app_tx_ok: "app_ok std_inc std_app_infl x \<Longrightarrow> app_ok std_inc std_app_infl (ex_app_tx n x)"
  by (cases x) (auto simp: app_ok_def ex_app_tx_def stdn.PostTxProcessing_ok)

lemma ex_app_ok: "app_ok std_inc std_app_infl (es_ext ex_app)" "infos_ok (es_infos ex_app)"
proof -
  have "inc_ok std_inc ex_inc_used"
    using inc_reached_ok [OF stdn.inc_laws_axioms ex_inc_start ex_inc_reached] .
  moreover have "no_debt (pair_bank std_bank) (n_ext ex_inc_used)" by (simp add: no_debt_def ex_inc_ext ex_inc_balance)
  moreover have "infl_params_Validate std_coins (infl_DefaultParams ''aevmos'') = Ok ()" by code_simp
  moreover have "0 < i64 (u64 365)" by code_simp
  ultimately show "app_ok std_inc std_app_infl (es_ext ex_app)"
    by (simp add: app_ok_def ex_app_def infl_ok_def infl_GetEpochsPerPeriod_def infl_GetEpochMintProvision_def NewDec_def dec_one_def)
  show "infos_ok (es_infos ex_app)" by (simp add: infos_ok_def ex_app_def ex_day_def kv_ok_def)
qed

section \<open>Properties\<close>



end
