(* ===== verification/Upgrades.thy ===== *)
theory Upgrades
  imports Claims_Solvency Inflation Erc20
begin

text \<open>
  \<open>app/upgrades\<close>, \<open>app/forks.go\<close>, \<open>x/claims/migrations\<close> and \<open>x/erc20/migrations\<close>: the handlers that run once when the chain
  changes to a new version.  They work on the claims and the inflation module and, through the SDK's
  keepers, on the other modules, whose state the two share.  The module manager \<open>mm\<close>, which runs the
  modules' own migrations, gets the defaults of the fee market that a handler has set (if any) and the
  version map.  Logging is left out, and the text with the download links of an upgrade plan.
\<close>

section \<open>Keepers\<close>

record evidence_params =
  MaxAgeNumBlocks :: int
  MaxAgeDuration :: duration
  MaxBytes :: int

record denom_trace =
  dt_Path :: string
  dt_BaseDenom :: string

record plan =
  plan_Name :: string
  plan_Height :: int

text \<open>\<open>uk_Evidence\<close> is the stored value, or all zeros where there is none.\<close>

record 'x upgrade_keepers =
  uk_claims :: "'x claims_keepers"
  uk_SetDenomMetaData :: "metadata \<Rightarrow> 'x \<Rightarrow> 'x"
  uk_BaseappSubspace :: "'x \<Rightarrow> bool"
  uk_Evidence :: "'x \<Rightarrow> evidence_params"
  uk_SetEvidence :: "evidence_params \<Rightarrow> 'x \<Rightarrow> 'x"
  uk_UnbondingTime :: "'x \<Rightarrow> duration"
  uk_SignedBlocksWindow :: "'x \<Rightarrow> int"
  uk_SetSignedBlocksWindow :: "int \<Rightarrow> 'x \<Rightarrow> 'x"
  uk_DenomTraces :: "'x \<Rightarrow> denom_trace list"
  uk_SetDenomTrace :: "denom_trace \<Rightarrow> 'x \<Rightarrow> 'x"
  uk_FullDenomPath :: "denom_trace \<Rightarrow> string"
  uk_ParseDenomTrace :: "string \<Rightarrow> denom_trace"
  uk_ValidTrace :: "denom_trace \<Rightarrow> bool"
  uk_ClientUpdate :: "string \<Rightarrow> string \<Rightarrow> ('x, unit) cmd"
  uk_ScheduleUpgrade :: "plan \<Rightarrow> ('x, unit) cmd"

text \<open>The stores of the two modules, with the state of all others in both.\<close>

type_synonym 'x upgrade_state = "'x claims_state \<times> 'x inflation_state"

type_synonym version_map = "string \<rightharpoonup> int"

type_synonym 'x module_manager = "(dec \<times> dec) option \<Rightarrow> version_map \<Rightarrow> ('x upgrade_state, version_map) cmd"

definition on_keepers :: "('x \<Rightarrow> 'x) \<Rightarrow> 'x upgrade_state \<Rightarrow> 'x upgrade_state" where
  "on_keepers f = (\<lambda>(a, b). let x = f (cl_ext a) in (a\<lparr>cl_ext := x\<rparr>, b\<lparr>infl_ext := x\<rparr>))"

definition call_keepers :: "('x, 'a) cmd \<Rightarrow> ('x upgrade_state, 'a) cmd" where
  "call_keepers m = (\<lambda>(a, b). case m (cl_ext a) of (r, x) \<Rightarrow> (r, (a\<lparr>cl_ext := x\<rparr>, b\<lparr>infl_ext := x\<rparr>)))"

definition on_claims :: "('x claims_state, unit) cmd \<Rightarrow> ('x upgrade_state, unit) cmd" where
  "on_claims m = (\<lambda>(a, b). case m a of (r, a') \<Rightarrow> (r, (a', b)))"

section \<open>Version 5\<close>

definition TestnetDenomMetadata :: metadata where
  "TestnetDenomMetadata =
     \<lparr>md_Description = ''The native EVM, governance and staking token of the Evmos testnet'',
      md_DenomUnits = [\<lparr>du_Denom = ''atevmos'', du_Exponent = 0, du_Aliases = [''attotevmos'']\<rparr>,
                       \<lparr>du_Denom = ''tevmos'', du_Exponent = 18, du_Aliases = []\<rparr>],
      md_Base = ''atevmos'', md_Display = ''tevmos'', md_Name = ''Testnet Evmos'', md_Symbol = ''tEVMOS''\<rparr>"

definition v5_ContributorAddrFrom :: string where
  "v5_ContributorAddrFrom = ''evmos13cf9npvns2vhh3097909mkhfxngmw6d6eppfm4''"

definition v5_ContributorAddrTo :: string where
  "v5_ContributorAddrTo = ''evmos1hmntpkn623y3vl0nvzrazvq4rqzv3xa74l40gl''"

definition AvgBlockTime :: duration where "AvgBlockTime = 2 * Second"

definition MainnetMinGasPrices :: dec where "MainnetMinGasPrices = NewDec 20000000000"

definition MainnetMinGasMultiplier :: dec where "MainnetMinGasMultiplier = NewDecWithPrec 5 1"

text \<open>The two writes go to the slice of the record, so they change the record of the caller.\<close>

definition swapUnclaimedAction :: "claims_record \<Rightarrow> action \<Rightarrow> action \<Rightarrow> claims_record \<times> bool" where
  "swapUnclaimedAction cr notClaimed claimed =
     (if \<not> HasClaimedAction cr notClaimed \<and> HasClaimedAction cr claimed
      then (cr\<lparr>ActionsCompleted := (ActionsCompleted cr)[notClaimed - 1 := True, claimed - 1 := False]\<rparr>, True)
      else (cr, False))"

text \<open>The chain of swaps, of which the first possible one is made.\<close>

fun first_swap :: "(action \<times> action) list \<Rightarrow> claims_record \<Rightarrow> claims_record \<times> bool" where
  "first_swap [] cr = (cr, False)"
| "first_swap ((notClaimed, claimed) # swaps) cr =
     (case swapUnclaimedAction cr notClaimed claimed of
        (cr, True) \<Rightarrow> (cr, True)
      | (cr, False) \<Rightarrow> first_swap swaps cr)"

definition resolve_swaps :: "(action \<times> action) list" where
  "resolve_swaps =
     [(ActionEVM, ActionIBCTransfer), (ActionEVM, ActionVote), (ActionEVM, ActionDelegate),
      (ActionVote, ActionIBCTransfer), (ActionDelegate, ActionIBCTransfer)]"

fun overridden :: "bech32_ops \<Rightarrow> claims_record kv \<Rightarrow> claims_record_address list" where
  "overridden H [] = []"
| "overridden H ((a, cr) # rest) =
     (case first_swap resolve_swaps cr of
        (cr, override) \<Rightarrow>
          if override
          then \<lparr>cra_Address = acc_String H a, cra_InitialClaimableAmount = InitialClaimableAmount cr,
                cra_ActionsCompleted = ActionsCompleted cr\<rparr> # overridden H rest
          else overridden H rest)"

fun set_resolved :: "bech32_ops \<Rightarrow> claims_record_address list \<Rightarrow> ('x claims_state, unit) cmd" where
  "set_resolved H [] s = (Ok (), s)"
| "set_resolved H (claim # claims) s =
     (case AccAddressFromBech32 H (cra_Address claim) of
        None \<Rightarrow> (Panic, s)
      | Some a \<Rightarrow> set_resolved H claims
          (SetClaimsRecord a \<lparr>InitialClaimableAmount = cra_InitialClaimableAmount claim,
                              ActionsCompleted = cra_ActionsCompleted claim\<rparr> s))"

definition ResolveAirdrop :: "bech32_ops \<Rightarrow> ('x claims_state, unit) cmd" where
  "ResolveAirdrop H s = set_resolved H (overridden H (cl_records s)) s"

definition move_record :: "addr \<Rightarrow> addr \<Rightarrow> 'x claims_state \<Rightarrow> 'x claims_state" where
  "move_record src dst s =
     (case GetClaimsRecord s src of
        None \<Rightarrow> s
      | Some cr \<Rightarrow> SetClaimsRecord dst cr (DeleteClaimsRecord src s))"

definition v5_MigrateContributorClaim :: "bech32_ops \<Rightarrow> ('x claims_state, unit) cmd" where
  "v5_MigrateContributorClaim H s =
     (case (AccAddressFromBech32 H v5_ContributorAddrFrom, AccAddressFromBech32 H v5_ContributorAddrTo) of
        (Some src, Some dst) \<Rightarrow> (Ok (), move_record src dst s)
      | _ \<Rightarrow> (Panic, s))"

definition UpdateConsensusParams :: "'x upgrade_keepers \<Rightarrow> 'x \<Rightarrow> 'x" where
  "UpdateConsensusParams K x =
     (if \<not> uk_BaseappSubspace K x then x else
      let evidenceParams = uk_Evidence K x in
      if evidenceParams = \<lparr>MaxAgeNumBlocks = 0, MaxAgeDuration = 0, MaxBytes = 0\<rparr> then x else
      let age = uk_UnbondingTime K x in
      uk_SetEvidence K (evidenceParams\<lparr>MaxAgeDuration := age, MaxAgeNumBlocks := Int_Quo age AvgBlockTime\<rparr>) x)"

definition equalTraces :: "denom_trace \<Rightarrow> denom_trace \<Rightarrow> bool" where
  "equalTraces dtA dtB \<longleftrightarrow> dt_BaseDenom dtA = dt_BaseDenom dtB \<and> dt_Path dtA = dt_Path dtB"

fun new_traces :: "'x upgrade_keepers \<Rightarrow> denom_trace list \<Rightarrow> denom_trace list" where
  "new_traces K [] = []"
| "new_traces K (dt # dts) =
     (let newTrace = uk_ParseDenomTrace K (uk_FullDenomPath K dt) in
      if uk_ValidTrace K newTrace \<and> \<not> equalTraces newTrace dt then newTrace # new_traces K dts else new_traces K dts)"

definition UpdateIBCDenomTraces :: "'x upgrade_keepers \<Rightarrow> 'x \<Rightarrow> 'x" where
  "UpdateIBCDenomTraces K x = fold (uk_SetDenomTrace K) (new_traces K (uk_DenomTraces K x)) x"

definition v5_upgrade :: "'x module_manager \<Rightarrow> 'x upgrade_keepers \<Rightarrow> string \<Rightarrow> version_map \<Rightarrow> ('x upgrade_state, version_map) cmd" where
  "v5_upgrade mm K chainID vm s =
     (let H = clk_H (uk_claims K);
          s = (if IsTestnet chainID then on_keepers (uk_SetDenomMetaData K TestnetDenomMetadata) s else s);
          s = on_keepers (UpdateConsensusParams K) s;
          s = on_keepers (UpdateIBCDenomTraces K) s in
      bindS (on_claims (ResolveAirdrop H)) (\<lambda>_.
      bindS (on_claims (v5_MigrateContributorClaim H)) (\<lambda>_.
      mm (Some (MainnetMinGasPrices, MainnetMinGasMultiplier)) (vm(''feemarket'' \<mapsto> 2)))) s)"

section \<open>Genesis migration of the fee market\<close>

text \<open>\<open>MigrateGenesis\<close> of versions 3 and 5 differ only in the codec and the fee market's own migration: the
  application state maps module names to encoded states, of a type \<open>'j\<close>.\<close>

definition MigrateGenesis ::
  "('j \<Rightarrow> 'old option) \<Rightarrow> ('old \<Rightarrow> 'new) \<Rightarrow> ('new \<Rightarrow> 'j option) \<Rightarrow> (string \<rightharpoonup> 'j) \<Rightarrow> (string \<rightharpoonup> 'j)" where
  "MigrateGenesis UnmarshalJSON MigrateJSON MarshalJSON appState =
     (case appState ''feemarket'' of
        None \<Rightarrow> appState
      | Some bz \<Rightarrow>
          (case UnmarshalJSON bz of
             None \<Rightarrow> appState
           | Some oldFeeMarketState \<Rightarrow>
               let appState = appState(''feemarket'' := None) in
               (case MarshalJSON (MigrateJSON oldFeeMarketState) of
                  None \<Rightarrow> appState
                | Some feeMarketBz \<Rightarrow> appState(''feemarket'' \<mapsto> feeMarketBz))))"

section \<open>Versions 2, 4, 6, 7 and 8\<close>

definition v2_upgrade :: "'x module_manager \<Rightarrow> version_map \<Rightarrow> ('x upgrade_state, version_map) cmd" where
  "v2_upgrade mm vm = mm None (vm(''claims'' \<mapsto> 1, ''erc20'' \<mapsto> 1))"

definition UpdateIBCClients :: "'x upgrade_keepers \<Rightarrow> ('x, unit) cmd" where
  "UpdateIBCClients K =
     bindS (uk_ClientUpdate K ''07-tendermint-0'' ''07-tendermint-26'') (\<lambda>_.
     uk_ClientUpdate K ''07-tendermint-3'' ''07-tendermint-29'')"

text \<open>An error is logged and the upgrade goes on; a panic is not caught.\<close>

definition log_error :: "('s, unit) cmd \<Rightarrow> ('s, unit) cmd" where
  "log_error m s = (case m s of (Err _, t) \<Rightarrow> (Ok (), t) | r \<Rightarrow> r)"

definition v4_upgrade :: "'x module_manager \<Rightarrow> 'x upgrade_keepers \<Rightarrow> string \<Rightarrow> version_map \<Rightarrow> ('x upgrade_state, version_map) cmd" where
  "v4_upgrade mm K chainID vm =
     bindS (if IsMainnet chainID then log_error (call_keepers (UpdateIBCClients K)) else (\<lambda>s. (Ok (), s))) (\<lambda>_.
     mm None vm)"

definition UpdateSlashingParams :: "'x upgrade_keepers \<Rightarrow> 'x \<Rightarrow> 'x" where
  "UpdateSlashingParams K x = uk_SetSignedBlocksWindow K (i64 (uk_SignedBlocksWindow K x * 3)) x"

definition v6_upgrade :: "'x module_manager \<Rightarrow> 'x upgrade_keepers \<Rightarrow> string \<Rightarrow> version_map \<Rightarrow> ('x upgrade_state, version_map) cmd" where
  "v6_upgrade mm K chainID vm s =
     (let H = clk_H (uk_claims K);
          defaults = Some (MainnetMinGasPrices, MainnetMinGasMultiplier) in
      if IsMainnet chainID then
        (let s = on_keepers (UpdateConsensusParams K) s;
             s = on_keepers (UpdateSlashingParams K) s;
             s = on_keepers (UpdateIBCDenomTraces K) s in
         bindS (on_claims (ResolveAirdrop H)) (\<lambda>_.
         bindS (on_claims (v5_MigrateContributorClaim H)) (\<lambda>_.
         mm defaults (vm(''feemarket'' \<mapsto> 2, ''evm'' \<mapsto> 1)))) s)
      else mm defaults (vm(''evm'' \<mapsto> 1)) s)"

definition FaucetAddressFrom :: string where "FaucetAddressFrom = ''evmos1z4ya98ga2xnffn2mhjym7tzlsm49ec23890sze''"

definition FaucetAddressTo :: string where "FaucetAddressTo = ''evmos1ujm4z5v9zkdqm70xnptr027gqu90f7lxjr0fch''"

definition v7_ContributorAddrFrom :: string where
  "v7_ContributorAddrFrom = ''evmos1659xwt0hnu5humgek7scefhnpcm2w6hyvy4fsq''"

definition v7_ContributorAddrTo :: string where
  "v7_ContributorAddrTo = ''evmos1pktlmqrz448cuazl98tqmsj4kjwpqpmaa0cjcf''"

definition MigrateFaucetBalances :: "'x claims_keepers \<Rightarrow> ('x, unit) cmd" where
  "MigrateFaucetBalances K x =
     (case (AccAddressFromBech32 (clk_H K) FaucetAddressFrom, AccAddressFromBech32 (clk_H K) FaucetAddressTo) of
        (Some src, Some dst) \<Rightarrow> SendCoins (clk_B K) src dst (GetAllBalances (clk_B K) x src) x
      | _ \<Rightarrow> (Panic, x))"

definition MigrateSkippedEpochs :: "'x inflation_state \<Rightarrow> 'x inflation_state" where
  "MigrateSkippedEpochs s =
     (let previousValue = infl_GetSkippedEpochs s;
          newValue = u64 (previousValue - 2) in
      infl_SetSkippedEpochs newValue s)"

text \<open>The errors of decoding are dropped.  A string that does not decode gives a nil address, on which the
  store panics when it is read or written.\<close>

definition v7_MigrateContributorClaim :: "bech32_ops \<Rightarrow> ('x claims_state, unit) cmd" where
  "v7_MigrateContributorClaim H s =
     (case AccAddressFromBech32 H v7_ContributorAddrFrom of
        None \<Rightarrow> (Panic, s)
      | Some src \<Rightarrow>
          (case GetClaimsRecord s src of
             None \<Rightarrow> (Ok (), s)
           | Some cr \<Rightarrow>
               let s = DeleteClaimsRecord src s in
               (case AccAddressFromBech32 H v7_ContributorAddrTo of
                  None \<Rightarrow> (Panic, s)
                | Some dst \<Rightarrow> (Ok (), SetClaimsRecord dst cr s))))"

definition v7_upgrade :: "'x module_manager \<Rightarrow> 'x upgrade_keepers \<Rightarrow> string \<Rightarrow> version_map \<Rightarrow> ('x upgrade_state, version_map) cmd" where
  "v7_upgrade mm K chainID vm =
     bindS (if IsTestnet chainID then log_error (call_keepers (MigrateFaucetBalances (uk_claims K)))
            else (\<lambda>s. (Ok (), s))) (\<lambda>_ (a, b).
     if IsMainnet chainID
     then bindS (on_claims (v7_MigrateContributorClaim (clk_H (uk_claims K)))) (\<lambda>_. mm None vm) (a, MigrateSkippedEpochs b)
     else mm None vm (a, b))"

definition v8_upgrade :: "'x module_manager \<Rightarrow> version_map \<Rightarrow> ('x upgrade_state, version_map) cmd" where
  "v8_upgrade mm vm = mm None vm"

section \<open>Forks\<close>

definition ScheduleForkUpgrade :: "'x upgrade_keepers \<Rightarrow> string \<Rightarrow> int \<Rightarrow> ('x, unit) cmd" where
  "ScheduleForkUpgrade K chainID height x =
     (if \<not> IsMainnet chainID then (Ok (), x) else
      case (if height = 58700 then Some ''v2.0.0''
            else if height = 257850 then Some ''v4.0.0''
            else if height = 2476000 then Some ''v7.0.0'' else None) of
        None \<Rightarrow> (Ok (), x)
      | Some name \<Rightarrow>
          (case uk_ScheduleUpgrade K \<lparr>plan_Name = name, plan_Height = height\<rparr> x of
             (Err _, y) \<Rightarrow> (Panic, y)
           | r \<Rightarrow> r))"

section \<open>The modules' own migrations\<close>

definition erc20_UpdateParams :: "'x erc20_state \<Rightarrow> 'x erc20_state" where
  "erc20_UpdateParams s = s\<lparr>e_params := (e_params s)\<lparr>EnableErc20 := True, EnableEVMHook := True\<rparr>\<rparr>"

definition MigrateStore :: "'x claims_state \<Rightarrow> 'x claims_state" where
  "MigrateStore s =
     s\<lparr>cl_params := (cl_params s)\<lparr>AuthorizedChannels := [''channel-0'', ''channel-3''], EVMChannels := [''channel-2'']\<rparr>\<rparr>"

record claims_params_v1 =
  v1_EnableClaims :: bool
  v1_AirdropStartTime :: time
  v1_DurationUntilDecay :: duration
  v1_DurationOfDecay :: duration
  v1_ClaimsDenom :: denom

definition claims_MigrateJSON :: "claims_params_v1 \<Rightarrow> claims_record_address list \<Rightarrow> claims_genesis" where
  "claims_MigrateJSON params records =
     \<lparr>cg_Params = \<lparr>EnableClaims = v1_EnableClaims params, AirdropStartTime = v1_AirdropStartTime params,
                   DurationUntilDecay = v1_DurationUntilDecay params, DurationOfDecay = v1_DurationOfDecay params,
                   ClaimsDenom = v1_ClaimsDenom params, AuthorizedChannels = [''channel-0'', ''channel-3''],
                   EVMChannels = [''channel-2'']\<rparr>,
      cg_ClaimsRecords = records\<rparr>"

section \<open>Resolving a record\<close>

abbreviation resolved :: "claims_record \<Rightarrow> claims_record" where
  "resolved cr \<equiv> fst (first_swap resolve_swaps cr)"

lemma first_swap_none: "snd (first_swap swaps cr) \<or> fst (first_swap swaps cr) = cr"
  by (induction swaps cr rule: first_swap.induct) (auto simp: swapUnclaimedAction_def split: prod.splits bool.splits)

lemma resolved_contract:
  assumes "cr_ok cr"
  shows "cr_ok (resolved cr)" "InitialClaimableAmount (resolved cr) = InitialClaimableAmount cr"
    "length (filter Not (ActionsCompleted (resolved cr))) = length (filter Not (ActionsCompleted cr))"
    "HasClaimedAction (resolved cr) ActionIBCTransfer \<longleftrightarrow> HasClaimedAll cr"
    "HasClaimedAction (resolved cr) ActionEVM \<longleftrightarrow> HasClaimedAny cr"
proof -
  obtain n a b c d where cr: "cr = \<lparr>InitialClaimableAmount = Some n, ActionsCompleted = [a, b, c, d]\<rparr>" "0 \<le> n"
    using assms by (rule cr_okE)
  note D = cr(1) resolve_swaps_def swapUnclaimedAction_def HasClaimedAction_def action_defs HasClaimedAll_def HasClaimedAny_def
    cr_ok_def cr_amount_def
  show "cr_ok (resolved cr)" "InitialClaimableAmount (resolved cr) = InitialClaimableAmount cr"
    "length (filter Not (ActionsCompleted (resolved cr))) = length (filter Not (ActionsCompleted cr))"
    "HasClaimedAction (resolved cr) ActionIBCTransfer \<longleftrightarrow> HasClaimedAll cr"
    "HasClaimedAction (resolved cr) ActionEVM \<longleftrightarrow> HasClaimedAny cr"
    using cr(2) by (cases a; cases b; cases c; cases d; simp add: D)+
qed

lemma resolved_unclaimed:
  assumes "cr_ok cr"
  shows "unclaimed (resolved cr) = unclaimed cr" "cr_amount (resolved cr) = cr_amount cr"
  using resolved_contract(2,3) [OF assms] by (simp_all add: unclaimed_def cr_amount_def)

section \<open>Resolving the store\<close>

lemma set_resolved_spec:
  assumes "\<And>a. a \<in> fst ` set es \<Longrightarrow> AccAddressFromBech32 H (acc_String H a) = Some a" and "distinct (map fst es)"
    and "kv_ok (cl_records s)"
  shows "\<exists>r. set_resolved H (overridden H es) s = (Ok (), s\<lparr>cl_records := r\<rparr>) \<and> kv_ok r \<and>
    (\<forall>a. kv_get r a = (case map_of es a of
        Some cr \<Rightarrow> if snd (first_swap resolve_swaps cr) then Some (resolved cr) else kv_get (cl_records s) a
      | None \<Rightarrow> kv_get (cl_records s) a))"
  using assms
proof (induction es arbitrary: s)
  case (Cons e es)
  obtain a cr where e: "e = (a, cr)" by (cases e)
  obtain cr' b where sw: "first_swap resolve_swaps cr = (cr', b)" by (cases "first_swap resolve_swaps cr")
  have a: "AccAddressFromBech32 H (acc_String H a) = Some a" using Cons.prems(1) e by simp
  have new: "map_of es a = None" using Cons.prems(2) e by (simp add: map_of_eq_None_iff)
  show ?case
  proof (cases b)
    case True
    let ?s = "SetClaimsRecord a cr' s"
    have "kv_ok (cl_records ?s)" using Cons.prems(3) by (simp add: SetClaimsRecord_def kv_ok_set)
    with Cons.IH [of ?s] Cons.prems obtain r where r: "set_resolved H (overridden H es) ?s = (Ok (), ?s\<lparr>cl_records := r\<rparr>)" "kv_ok r"
      "\<forall>a. kv_get r a = (case map_of es a of
          Some cr \<Rightarrow> if snd (first_swap resolve_swaps cr) then Some (resolved cr) else kv_get (cl_records ?s) a
        | None \<Rightarrow> kv_get (cl_records ?s) a)" by auto
    obtain n acts where cr': "cr' = \<lparr>InitialClaimableAmount = n, ActionsCompleted = acts\<rparr>" by (cases cr')
    show ?thesis
      by (rule exI [of _ r]) (use True a e sw r new cr' in \<open>auto simp: SetClaimsRecord_def kv_get_set split: option.splits\<close>)
  next
    case False
    obtain r where r: "set_resolved H (overridden H es) s = (Ok (), s\<lparr>cl_records := r\<rparr>)" "kv_ok r"
      "\<forall>a. kv_get r a = (case map_of es a of
          Some cr \<Rightarrow> if snd (first_swap resolve_swaps cr) then Some (resolved cr) else kv_get (cl_records s) a
        | None \<Rightarrow> kv_get (cl_records s) a)" using Cons.IH [of s] Cons.prems by auto
    show ?thesis by (rule exI [of _ r]) (use False e sw r new in \<open>auto split: option.splits\<close>)
  qed
next
  case Nil
  then show ?case by (intro exI [of _ "cl_records s"]) simp
qed

lemma ResolveAirdrop_spec:
  assumes "kv_ok (cl_records s)" and "\<And>a. a \<in> fst ` set (cl_records s) \<Longrightarrow> AccAddressFromBech32 H (acc_String H a) = Some a"
  shows "ResolveAirdrop H s = (Ok (), s\<lparr>cl_records := map (\<lambda>(a, cr). (a, resolved cr)) (cl_records s)\<rparr>)"
proof -
  let ?r = "map (\<lambda>(a, cr). (a, resolved cr)) (cl_records s)"
  obtain r where r: "set_resolved H (overridden H (cl_records s)) s = (Ok (), s\<lparr>cl_records := r\<rparr>)" "kv_ok r"
    "\<forall>a. kv_get r a = (case map_of (cl_records s) a of
        Some cr \<Rightarrow> if snd (first_swap resolve_swaps cr) then Some (resolved cr) else kv_get (cl_records s) a
      | None \<Rightarrow> kv_get (cl_records s) a)"
    using set_resolved_spec [OF assms(2) kv_ok_distinct [OF assms(1)] assms(1)] by blast
  have "map fst ?r = map fst (cl_records s)" by auto
  then have ok: "kv_ok ?r" using assms(1) by (simp only: kv_ok_def)
  have same: "cr = resolved cr" if "\<not> snd (first_swap resolve_swaps cr)" for cr
    using first_swap_none [of resolve_swaps cr] that by simp
  have "kv_get r a = kv_get ?r a" for a
    using r(3) same by (auto simp: kv_get_def map_of_map split: option.splits)
  then have "r = ?r" by (intro kv.entries_eqI [OF r(2) ok])
  then show ?thesis using r(1) by (simp add: ResolveAirdrop_def)
qed

lemma ResolveAirdrop_solvent:
  assumes "solvent K s"
  shows "solvent K (s\<lparr>cl_records := map (\<lambda>(a, cr). (a, resolved cr)) (cl_records s)\<rparr>)"
proof -
  let ?f = "\<lambda>(a, cr). (a, resolved cr)"
  note D = solventD [OF assms]
  have keys: "map fst (map ?f (cl_records s)) = map fst (cl_records s)" by auto
  have mem: "cr_ok cr" "4 dvd cr_amount cr" if "(a, cr) \<in> set (cl_records s)" for a cr
    using that D(5,6) kv_get_mem [OF D(1)] by blast+
  have "kv_sum unclaimed (map ?f (cl_records s)) = kv_sum unclaimed (cl_records s)"
    unfolding kv_sum_def map_map by (rule arg_cong [of _ _ sum_list], rule map_cong) (use mem resolved_unclaimed in auto)
  moreover have "kv_ok (map ?f (cl_records s))" using D(1) keys by (simp only: kv_ok_def)
  moreover have "cr_ok cr \<and> 4 dvd cr_amount cr" if "kv_get (map ?f (cl_records s)) a = Some cr" for a cr
    using that mem resolved_contract(1) resolved_unclaimed(2) unfolding kv_get_def by (auto dest!: map_of_SomeD)
  ultimately show ?thesis using D by (simp add: solvent_def)
qed

lemma move_record_records:
  assumes "src \<noteq> dst"
  shows "GetClaimsRecord (move_record src dst s) a =
    (case GetClaimsRecord s src of
       None \<Rightarrow> GetClaimsRecord s a
     | Some cr \<Rightarrow> if a = dst then Some cr else if a = src then None else GetClaimsRecord s a)"
  using assms
  by (auto simp: move_record_def GetClaimsRecord_def SetClaimsRecord_def DeleteClaimsRecord_def kv_get_set kv_get_del split: option.splits)

lemma move_record_frame [simp]: "cl_params (move_record src dst s) = cl_params s" "cl_ext (move_record src dst s) = cl_ext s"
  by (simp_all add: move_record_def SetClaimsRecord_def DeleteClaimsRecord_def split: option.splits)

text \<open>Moving a record onto another one drops the other one, so the claims never grow.\<close>

lemma move_record_solvent:
  assumes "solvent K s"
  shows "solvent K (move_record src dst s)"
proof (cases "GetClaimsRecord s src")
  case (Some cr)
  note D = solventD [OF assms]
  let ?r = "kv_set (kv_del (cl_records s) src) dst cr"
  have s': "move_record src dst s = s\<lparr>cl_records := ?r\<rparr>" and cr: "kv_get (cl_records s) src = Some cr"
    using Some by (simp_all add: move_record_def SetClaimsRecord_def DeleteClaimsRecord_def GetClaimsRecord_def)
  have "0 \<le> at_key unclaimed (kv_get (kv_del (cl_records s) src) dst)"
    using D(5) by (auto simp: kv_get_del unclaimed_nonneg split: option.splits)
  then have "kv_sum unclaimed ?r \<le> kv_sum unclaimed (cl_records s)"
    using cr D(1) by (simp add: kv_sum_set kv_sum_del kv_ok_del)
  then show ?thesis using D cr unfolding s' solvent_def
    by (auto simp: kv_ok_set kv_ok_del kv_get_set kv_get_del split: if_splits)
qed (use assms in \<open>simp add: move_record_def\<close>)

section \<open>What the handlers rely on\<close>

text \<open>The setters of the other modules move no coins, and an address is read back from its text.\<close>

locale upgrade_laws =
  fixes K :: "'x upgrade_keepers" and reg :: "string set"
  assumes claims: "claims_laws (uk_claims K) reg"
    and SetEvidence_balance: "GetBalance (clk_B (uk_claims K)) (uk_SetEvidence K p x) = GetBalance (clk_B (uk_claims K)) x"
    and SetWindow_balance: "GetBalance (clk_B (uk_claims K)) (uk_SetSignedBlocksWindow K n x) = GetBalance (clk_B (uk_claims K)) x"
    and SetDenomTrace_balance: "GetBalance (clk_B (uk_claims K)) (uk_SetDenomTrace K dt x) = GetBalance (clk_B (uk_claims K)) x"
    and String_parse: "0 < length a \<Longrightarrow> length a \<le> 255 \<Longrightarrow>
      AccAddressFromBech32 (clk_H (uk_claims K)) (acc_String (clk_H (uk_claims K)) a) = Some a"
begin

abbreviation "balance \<equiv> GetBalance (clk_B (uk_claims K))"

lemma traces_balance: "balance (UpdateIBCDenomTraces K x) = balance x"
proof -
  have "balance (fold (uk_SetDenomTrace K) dts x) = balance x" for dts
    by (induction dts arbitrary: x) (simp_all add: SetDenomTrace_balance)
  then show ?thesis by (simp add: UpdateIBCDenomTraces_def)
qed

lemma consensus_balance: "balance (UpdateConsensusParams K x) = balance x"
  by (simp add: UpdateConsensusParams_def Let_def SetEvidence_balance)

lemma slashing_balance: "balance (UpdateSlashingParams K x) = balance x"
  by (simp add: UpdateSlashingParams_def SetWindow_balance)

lemma solvent_keepers:
  assumes "solvent (uk_claims K) (fst s)" and "\<And>x. balance (f x) = balance x"
  shows "solvent (uk_claims K) (fst (on_keepers f s))"
  using assms by (cases s) (simp add: on_keepers_def Let_def solvent_def)

text \<open>The part of versions 5 and 6 that works on the claims records.\<close>

lemma claims_migrated:
  fixes s :: "'x upgrade_state"
  assumes "solvent (uk_claims K) (fst s)"
    and "\<forall>a cr. GetClaimsRecord (fst s) a = Some cr \<longrightarrow> 0 < length a \<and> length a \<le> 255"
    and "AccAddressFromBech32 (clk_H (uk_claims K)) v5_ContributorAddrFrom = Some src"
    and "AccAddressFromBech32 (clk_H (uk_claims K)) v5_ContributorAddrTo = Some dst" and "src \<noteq> dst"
  shows "\<exists>u. bindS (on_claims (ResolveAirdrop (clk_H (uk_claims K))))
      (\<lambda>_. bindS (on_claims (v5_MigrateContributorClaim (clk_H (uk_claims K)))) (\<lambda>_. m)) s = m u \<and>
    solvent (uk_claims K) (fst u) \<and>
    (\<forall>a. GetClaimsRecord (fst u) a = (case GetClaimsRecord (fst s) src of
        None \<Rightarrow> map_option resolved (GetClaimsRecord (fst s) a)
      | Some cr \<Rightarrow> if a = dst then Some (resolved cr) else if a = src then None else map_option resolved (GetClaimsRecord (fst s) a)))"
proof -
  obtain c i where s: "s = (c, i)" by (cases s)
  let ?H = "clk_H (uk_claims K)" and ?c = "c\<lparr>cl_records := map (\<lambda>(a, cr). (a, resolved cr)) (cl_records c)\<rparr>"
  have c: "solvent (uk_claims K) c" using assms(1) s by simp
  have "AccAddressFromBech32 ?H (acc_String ?H a) = Some a" if "a \<in> fst ` set (cl_records c)" for a
  proof (rule String_parse)
    from that obtain cr where "GetClaimsRecord c a = Some cr"
      using kv_get_None [of "cl_records c" a] by (cases "kv_get (cl_records c) a") (auto simp: GetClaimsRecord_def)
    then show "0 < length a" "length a \<le> 255" using assms(2) s by auto
  qed
  then have run: "ResolveAirdrop ?H c = (Ok (), ?c)" by (rule ResolveAirdrop_spec [OF solventD(1) [OF c]])
  have get: "GetClaimsRecord ?c a = map_option resolved (GetClaimsRecord c a)" for a
    by (simp add: GetClaimsRecord_def kv_get_def map_of_map)
  let ?u = "(move_record src dst ?c, i)"
  have "solvent (uk_claims K) (fst ?u)" using move_record_solvent [OF ResolveAirdrop_solvent [OF c]] by simp
  moreover have "bindS (on_claims (ResolveAirdrop ?H)) (\<lambda>_. bindS (on_claims (v5_MigrateContributorClaim ?H)) (\<lambda>_. m)) s = m ?u"
    using run assms(3,4) s by (simp add: bindS_def on_claims_def v5_MigrateContributorClaim_def)
  ultimately show ?thesis
    by (intro exI [of _ ?u]) (simp add: move_record_records [OF assms(5)] get s split: option.splits)
qed

end

section \<open>An executable instance\<close>

text \<open>The claims keepers of \<open>std_claims\<close>; the world has no evidence parameters, slashing window or traces to
  change.\<close>

definition std_upgrade :: "std_world upgrade_keepers" where
  "std_upgrade =
     \<lparr>uk_claims = std_claims, uk_SetDenomMetaData = (\<lambda>_ x. x), uk_BaseappSubspace = (\<lambda>_. True),
      uk_Evidence = (\<lambda>_. \<lparr>MaxAgeNumBlocks = 100000, MaxAgeDuration = 172800 * Second, MaxBytes = 1048576\<rparr>),
      uk_SetEvidence = (\<lambda>_ x. x), uk_UnbondingTime = (\<lambda>_. 1209600 * Second), uk_SignedBlocksWindow = (\<lambda>_. 30000),
      uk_SetSignedBlocksWindow = (\<lambda>_ x. x), uk_DenomTraces = (\<lambda>_. []), uk_SetDenomTrace = (\<lambda>_ x. x),
      uk_FullDenomPath = (\<lambda>dt. dt_Path dt @ ''/'' @ dt_BaseDenom dt),
      uk_ParseDenomTrace = (\<lambda>p. \<lparr>dt_Path = takeWhile (\<lambda>c. c \<noteq> CHR ''/'') p, dt_BaseDenom = tl (dropWhile (\<lambda>c. c \<noteq> CHR ''/'') p)\<rparr>),
      uk_ValidTrace = (\<lambda>dt. dt_BaseDenom dt \<noteq> []), uk_ClientUpdate = (\<lambda>_ _ x. (Ok (), x)), uk_ScheduleUpgrade = (\<lambda>_ x. (Ok (), x))\<rparr>"

interpretation stdu: upgrade_laws std_upgrade UNIV
proof (rule upgrade_laws.intro)
  show "claims_laws (uk_claims std_upgrade) UNIV" by (simp add: std_upgrade_def stdc.claims_laws_axioms)
  show "0 < length a \<Longrightarrow> length a \<le> 255 \<Longrightarrow>
      AccAddressFromBech32 (clk_H (uk_claims std_upgrade)) (acc_String (clk_H (uk_claims std_upgrade)) a) = Some a" for a
    by (simp add: std_upgrade_def std_claims_def std_bech32_def)
qed (simp_all add: std_upgrade_def)

text \<open>Two records: one has claimed the delegation, the one of the lost address the transfer.\<close>

definition ex_upgrade :: "std_world upgrade_state" where
  "ex_upgrade =
     (ex_claims\<lparr>cl_records :=
        [(''alice'', \<lparr>InitialClaimableAmount = Some 40, ActionsCompleted = [False, True, False, False]\<rparr>),
         (v5_ContributorAddrFrom, \<lparr>InitialClaimableAmount = Some 80, ActionsCompleted = [False, False, False, True]\<rparr>)]\<rparr>,
      ex_infl\<lparr>infl_ext := ex_claims_world\<rparr>)"

lemma ex_upgrade_solvent: "solvent std_claims (fst ex_upgrade)"
proof -
  have ok: "kv_ok (cl_records (fst ex_upgrade))" unfolding kv_ok_def by code_simp
  have sum: "kv_sum unclaimed (cl_records (fst ex_upgrade)) \<le> 110" by code_simp
  have "escrow std_claims (fst ex_upgrade) (ClaimsDenom (cl_params (fst ex_upgrade))) = 110" by code_simp
  then show ?thesis
    using ok sum solventD(2,3) [OF ex_claims_solvent]
    by (auto simp: solvent_def ex_upgrade_def ex_claims_def kv_get_def cr_ok_def cr_amount_def numActions_def
        split: if_splits)
qed

section \<open>Properties\<close>

text \<open>C40. The upgrade to version 6 on mainnet keeps the airdrop solvent and resolves every record as announced.
  It hands the module manager the new defaults and versions and a state in which the escrow still
  covers every claim.  Each record comes from the record of the same address or, at the contributor's
  new address, of the lost one; it keeps the amount and the number of claimed actions; the EVM action
  counts as claimed exactly when any action was, and the IBC action exactly when all were, so that a
  record with something left can still be moved by a transfer.  No record appears or is lost but that
  of the contributor's lost address, and one that was at the new address before.\<close>

theorem upgrade_v6_resolves:
  assumes "upgrade_laws K reg" and "IsMainnet chainID"
    and "solvent (uk_claims K) (fst s)"
    and "\<And>a cr. GetClaimsRecord (fst s) a = Some cr \<Longrightarrow> 0 < length a \<and> length a \<le> 255"
    and "AccAddressFromBech32 (clk_H (uk_claims K)) v5_ContributorAddrFrom = Some src"
    and "AccAddressFromBech32 (clk_H (uk_claims K)) v5_ContributorAddrTo = Some dst" and "src \<noteq> dst"
  shows "\<exists>u. v6_upgrade mm K chainID vm s
        = mm (Some (NewDec 20000000000, 5 * 10 ^ 17)) (vm(''feemarket'' \<mapsto> 2, ''evm'' \<mapsto> 1)) u \<and>
      kv_sum unclaimed (cl_records (fst u)) \<le> escrow (uk_claims K) (fst u) (ClaimsDenom (cl_params (fst u))) \<and>
      (\<forall>a cr'. GetClaimsRecord (fst u) a = Some cr' \<longrightarrow>
         (\<exists>cr. GetClaimsRecord (fst s) (if a = dst \<and> GetClaimsRecord (fst s) src \<noteq> None then src else a) = Some cr \<and>
            InitialClaimableAmount cr' = InitialClaimableAmount cr \<and>
            length (filter Not (ActionsCompleted cr')) = length (filter Not (ActionsCompleted cr)) \<and>
            (HasClaimedAction cr' ActionEVM \<longleftrightarrow> HasClaimedAny cr) \<and>
            (HasClaimedAction cr' ActionIBCTransfer \<longleftrightarrow> HasClaimedAll cr))) \<and>
      (\<forall>a. GetClaimsRecord (fst u) a = None \<longleftrightarrow>
         a = src \<or> (GetClaimsRecord (fst s) a = None \<and> (a = dst \<longrightarrow> GetClaimsRecord (fst s) src = None)))"
proof -
  let ?t = "on_keepers (UpdateIBCDenomTraces K) (on_keepers (UpdateSlashingParams K) (on_keepers (UpdateConsensusParams K) s))"
  note L = upgrade_laws.traces_balance [OF assms(1)] upgrade_laws.slashing_balance [OF assms(1)]
    upgrade_laws.consensus_balance [OF assms(1)]
  have t: "solvent (uk_claims K) (fst ?t)"
    by (intro upgrade_laws.solvent_keepers [OF assms(1)] assms(3) L)
  have get: "GetClaimsRecord (fst ?t) a = GetClaimsRecord (fst s) a" for a
    by (cases s) (simp add: on_keepers_def Let_def GetClaimsRecord_def)
  have addr: "\<forall>a cr. GetClaimsRecord (fst ?t) a = Some cr \<longrightarrow> 0 < length a \<and> length a \<le> 255" using assms(4) unfolding get by blast
  let ?m = "mm (Some (MainnetMinGasPrices, MainnetMinGasMultiplier)) (vm(''feemarket'' \<mapsto> 2, ''evm'' \<mapsto> 1))"
  obtain u where u: "bindS (on_claims (ResolveAirdrop (clk_H (uk_claims K))))
      (\<lambda>_. bindS (on_claims (v5_MigrateContributorClaim (clk_H (uk_claims K)))) (\<lambda>_. ?m)) ?t = ?m u"
    "solvent (uk_claims K) (fst u)"
    "\<forall>a. GetClaimsRecord (fst u) a = (case GetClaimsRecord (fst s) src of
        None \<Rightarrow> map_option resolved (GetClaimsRecord (fst s) a)
      | Some cr \<Rightarrow> if a = dst then Some (resolved cr) else if a = src then None else map_option resolved (GetClaimsRecord (fst s) a))"
    using upgrade_laws.claims_migrated [OF assms(1) t addr assms(5-7), of ?m] unfolding get by blast
  have run: "v6_upgrade mm K chainID vm s = mm (Some (NewDec 20000000000, 5 * 10 ^ 17)) (vm(''feemarket'' \<mapsto> 2, ''evm'' \<mapsto> 1)) u"
    using u(1) assms(2)
    by (simp add: v6_upgrade_def Let_def MainnetMinGasPrices_def MainnetMinGasMultiplier_def NewDecWithPrec_def)
  have ok: "cr_ok cr" if "GetClaimsRecord (fst s) a = Some cr" for a cr
    using that solventD(5) [OF assms(3)] by (simp add: GetClaimsRecord_def)
  have recs: "\<exists>cr. GetClaimsRecord (fst s) (if a = dst \<and> GetClaimsRecord (fst s) src \<noteq> None then src else a) = Some cr \<and> cr' = resolved cr"
    if "GetClaimsRecord (fst u) a = Some cr'" for a cr'
    using that u(3) by (auto split: option.splits if_splits)
  have "GetClaimsRecord (fst u) a = None \<longleftrightarrow>
      a = src \<or> (GetClaimsRecord (fst s) a = None \<and> (a = dst \<longrightarrow> GetClaimsRecord (fst s) src = None))" for a
    using u(3) assms(7) by (auto split: option.splits)
  then show ?thesis
    using run solventD(4) [OF u(2)] recs resolved_contract(2-5) [OF ok] by (intro exI [of _ u]) blast
qed

theorem upgrade_v6_resolves_witness:
  "\<exists>u. v6_upgrade (\<lambda>_ vm t. (Ok vm, t)) std_upgrade ''evmos_9001-2'' Map.empty ex_upgrade
         = (Ok [''feemarket'' \<mapsto> 2, ''evm'' \<mapsto> 1], u) \<and>
       GetClaimsRecord (fst u) v5_ContributorAddrFrom = None \<and> GetClaimsRecord (fst u) v5_ContributorAddrTo \<noteq> None"
proof -
  have bech: "AccAddressFromBech32 (clk_H (uk_claims std_upgrade)) v5_ContributorAddrFrom = Some v5_ContributorAddrFrom"
    "AccAddressFromBech32 (clk_H (uk_claims std_upgrade)) v5_ContributorAddrTo = Some v5_ContributorAddrTo"
    by (simp_all add: std_upgrade_def std_claims_def std_bech32_def v5_ContributorAddrFrom_def v5_ContributorAddrTo_def)
  have addr: "0 < length a \<and> length a \<le> 255" if "GetClaimsRecord (fst ex_upgrade) a = Some cr" for a cr
    using that by (auto simp: GetClaimsRecord_def ex_upgrade_def kv_get_def v5_ContributorAddrFrom_def split: if_splits)
  have main: "IsMainnet ''evmos_9001-2''" by code_simp
  have neq: "v5_ContributorAddrFrom \<noteq> v5_ContributorAddrTo" by code_simp
  have src: "GetClaimsRecord (fst ex_upgrade) v5_ContributorAddrFrom \<noteq> None"
    by (simp add: GetClaimsRecord_def ex_upgrade_def kv_get_Cons)
  have sol: "solvent (uk_claims std_upgrade) (fst ex_upgrade)" using ex_upgrade_solvent by (simp add: std_upgrade_def)
  obtain u where u: "v6_upgrade (\<lambda>_ vm t. (Ok vm, t)) std_upgrade ''evmos_9001-2'' Map.empty ex_upgrade
      = (Ok [''feemarket'' \<mapsto> 2, ''evm'' \<mapsto> 1], u)"
    "\<forall>a. GetClaimsRecord (fst u) a = None \<longleftrightarrow> a = v5_ContributorAddrFrom \<or>
       (GetClaimsRecord (fst ex_upgrade) a = None \<and> (a = v5_ContributorAddrTo \<longrightarrow> GetClaimsRecord (fst ex_upgrade) v5_ContributorAddrFrom = None))"
    using upgrade_v6_resolves [OF stdu.upgrade_laws_axioms main sol _ bech neq, where mm = "\<lambda>_ vm t. (Ok vm, t)" and vm = Map.empty] addr
    by blast
  have "GetClaimsRecord (fst u) v5_ContributorAddrFrom = None" "GetClaimsRecord (fst u) v5_ContributorAddrTo \<noteq> None"
    using u(2) src neq by (simp, metis)
  with u(1) show ?thesis by blast
qed

end
