(* ===== verification/Spec2Isabelle.thy ===== *)
theory Spec2Isabelle
  imports Vesting_Msgs Ante_Chains Inflation Claims_Solvency Erc20_Convert Incentives_Rewards Feesplit_Registry Recovery App_Epochs Upgrades
begin

text \<open>
  A verification development for the Evmos chain (Go sources under \<open>src/\<close>).

  \<^bold>\<open>The program.\<close>  Evmos is a blockchain application on the Cosmos SDK with an Ethereum virtual machine.
  The repository holds eight modules (\<open>src/x\<close>) and the application that wires them (\<open>src/app\<close>).
  A transaction first passes the ante handler (\<open>app/ante\<close>).  Its messages then go to the message server of a
  module, and Ethereum transactions call the modules' hooks afterwards.  At the start of a block \<open>x/epochs\<close>
  counts epochs and calls the hooks of \<open>x/incentives\<close> and \<open>x/inflation\<close>.  Packets of other chains pass the
  middleware of \<open>x/recovery\<close> and \<open>x/claims\<close>.  Upgrade handlers (\<open>app/upgrades\<close>) change the stores once.

  \<^bold>\<open>How code is represented.\<close>  An operation is a function of its arguments and of a state record, and returns
  an \<open>outcome\<close>: \<open>Ok\<close> with a value, \<open>Err\<close> with the error, or \<open>Panic\<close>, together with the state at that point
  (\<open>cmd\<close>; \<open>bindS\<close> is Go's sequence of calls with an early return on an error).  Whether the writes of a failed
  call stay is left to its caller, as in the code.  A store is an association list sorted by key, which is the
  order of the SDK's iterators.  Go's \<open>int64\<close> and \<open>uint64\<close> are integers with \<open>i64\<close> and \<open>u64\<close>
  written where the code wraps; \<open>sdk.Int\<close> is \<open>int\<close>; \<open>sdk.Dec\<close> an \<open>int\<close> in units of \<open>10 ^ -18\<close>.

  Code outside the repository is a record of operations passed as an argument: coins, decimals, the keepers of
  the SDK, the EVM, bech32, the IBC keepers, the decorators of other packages.  A locale per record names the
  documented laws that the proofs use, and each is interpreted on an executable instance (\<open>std_coins\<close>,
  \<open>std_dec\<close>, \<open>std_bank\<close>, \<open>std_eth\<close> and so on), on which the witnesses evaluate.  Laws that a property needs
  are its hypotheses, as the predicate of the locale.

  \<^bold>\<open>The theories.\<close>

  \<^item> \<open>Evm_Prelude\<close>: outcomes, commands, fixed-width integers, time, strings and the sorted store with
    the locale \<open>ordered_store\<close>.
  \<^item> \<open>Sdk_Coins\<close>, \<open>Sdk_Dec\<close>, \<open>Sdk_Keepers\<close>, \<open>Evm_Keeper\<close>: the interfaces \<open>coins_laws\<close>, \<open>dec_laws\<close>,
    \<open>keeper_laws\<close> and \<open>eth_laws\<close> with their executable instances; \<open>Erc20_World\<close> is an executable EVM with tokens.
  \<^item> \<open>Evmos_Utils\<close>: \<open>types/utils.go\<close> and \<open>ibc/utils.go\<close>.
  \<^item> \<open>Vesting_Schedule\<close>, \<open>Vesting_Account\<close>, \<open>Vesting_Msgs\<close>: \<open>x/vesting\<close>.  Schedules are functions of
    time: reading is the sum of the reached events, disjunction and conjunction are the pointwise sum and
    minimum.  On these rest the getters, the clawback, the merging of grants, and what the two message handlers
    do to accounts and balances.
  \<^item> \<open>Ante\<close>, \<open>Ante_Chains\<close>: \<open>app/ante\<close> and \<open>app/sigverify.go\<close>.  Exact acceptance of the decorators of the
    repository, and what a transaction accepted by the whole handler satisfies whatever the other decorators do
    (\<open>ante_laws\<close>: they fail or hand over, and keep the vesting schedules).
  \<^item> \<open>Epochs\<close>, \<open>App_Epochs\<close>: \<open>x/epochs\<close> and the order of the hooks in \<open>app/app.go\<close>.  What a block does to
    every epoch, that epochs never drift, and that every epoch comes once the block times pass its end, with the
    hooks of the application, none of which fails.
  \<^item> \<open>Inflation\<close>: \<open>x/inflation\<close>.  The mint provision and its curve, the allocation of minted coins without
    loss, and the period as a count of the epochs that minted.
  \<^item> \<open>Claims\<close>, \<open>Claims_Escrow\<close>, \<open>Claims_Solvency\<close>: \<open>x/claims\<close>.  The decay of a claim, and that the escrow
    covers all stored records in every run of hooks, packets and blocks (\<open>claims_step\<close>); the merging of
    records, the end of the airdrop and the genesis round trip.
  \<^item> \<open>Erc20_Types\<close>, \<open>Erc20\<close>, \<open>Erc20_Registry\<close>, \<open>Erc20_Convert\<close>: \<open>x/erc20\<close>.  The registry of token
    pairs is well formed in every run (\<open>erc20_step\<close>); conversions are exact for any contract, and for a
    contract of the module's own the chain refines a \<open>vault\<close> that issues tokens one for one.
  \<^item> \<open>Incentives\<close>, \<open>Incentives_Rewards\<close>: \<open>x/incentives\<close>.  The allocation meters add up the registered
    allocations (\<open>inc_step\<close>), the end of an epoch never panics, and rewards are proportional to gas.
  \<^item> \<open>Feesplit\<close>, \<open>Feesplit_Registry\<close>: \<open>x/feesplit\<close>.  The two indexes agree with the registered contracts in
    every run (\<open>fee_step\<close>), and the hook pays the developers' share.
  \<^item> \<open>Recovery\<close>: \<open>x/recovery\<close>.  Which coins of a recipient go back, and over which channels.
  \<^item> \<open>Upgrades\<close>: \<open>app/upgrades\<close>, \<open>app/forks.go\<close> and the modules' migrations.  The upgrade of mainnet to
    version 6 keeps the airdrop solvent and resolves the claims records.

  \<^bold>\<open>Termination and bounds.\<close>  No definition has fuel.  Loops over slices and stores recurse on what is left;
  the loops of \<open>schedule.go\<close> recurse on both period lists, the loop that strips prefixes of a token name
  on the length of the name, and the two functions of \<open>sigverify.go\<close>, which call each other, on the size of the
  signatures.  Where 64-bit arithmetic matters a property has the range as a hypothesis, for instance that the
  times of a schedule fit in \<open>int64\<close>.

  \<^bold>\<open>What is not modelled.\<close>  Events, telemetry and logging; the limit of \<open>sdk.Int\<close> and \<open>sdk.Dec\<close> on the number of
  bits; the parameter subspaces, whose values are one record per module; pages of the gRPC queries; the
  pass-through of outgoing packets and of \<open>ibc/module.go\<close>; the registration code of \<open>module.go\<close> and
  \<open>app.go\<close>; the export for a new genesis (\<open>app/export.go\<close>), the throughput counter, the commands and
  clients, and generated code.  Iterators are taken to see the store as it was when they were opened.
\<close>

end
